(* ===== verification/Go_Prelude.thy ===== *)
theory Go_Prelude
  imports Main "HOL-Library.AList" "HOL-Library.Word" "HOL-Library.Char_ord"
    "HOL-Library.List_Lexorder" "HOL-Library.Sublist" "HOL-Library.Multiset"
begin

text \<open>
  Shared ground of the development: how the Go values the gateway uses are represented, and
  the lemmas every component needs.

  \<^item> A Go \<^verbatim>\<open>string\<close> is a byte string, \<^typ>\<open>string\<close> (one \<^typ>\<open>char\<close> per byte); its order is the
    bytewise one of \<open>List_Lexorder\<close> over \<open>Char_ord\<close>, as in Go.
  \<^item> A Go \<^verbatim>\<open>map\<close> is an association list with distinct keys. The order of the list stands for
    the iteration order, which Go leaves open: a theorem about every such list holds for
    every iteration order.
  \<^item> \<^verbatim>\<open>time.Time\<close> and \<^verbatim>\<open>time.Duration\<close> are integers counting nanoseconds; the zero
    \<^verbatim>\<open>time.Time\<close> is 0.
  \<^item> \<^verbatim>\<open>int64\<close> offsets and sizes are integers. \<^verbatim>\<open>uint64\<close> and \<^verbatim>\<open>uint8\<close> values that are
    compared or combined bitwise are words.
\<close>

section \<open>Maps\<close>

type_synonym ('k, 'v) gomap = "('k \<times> 'v) list"

abbreviation gm_get :: "('k, 'v) gomap \<Rightarrow> 'k \<Rightarrow> 'v option" where
  "gm_get m k \<equiv> map_of m k"

definition gm_set :: "'k \<Rightarrow> 'v \<Rightarrow> ('k, 'v) gomap \<Rightarrow> ('k, 'v) gomap" where
  "gm_set k v m = AList.update k v m"

definition gm_del :: "'k \<Rightarrow> ('k, 'v) gomap \<Rightarrow> ('k, 'v) gomap" where
  "gm_del k m = AList.delete k m"

abbreviation gm_keys :: "('k, 'v) gomap \<Rightarrow> 'k list" where
  "gm_keys m \<equiv> map fst m"

definition gm_wf :: "('k, 'v) gomap \<Rightarrow> bool" where
  "gm_wf m \<longleftrightarrow> distinct (map fst m)"

definition gm_has :: "('k, 'v) gomap \<Rightarrow> 'k \<Rightarrow> bool" where
  "gm_has m k \<longleftrightarrow> map_of m k \<noteq> None"

text \<open>The zero value a Go map answers for a missing key.\<close>

definition gm_or :: "'v \<Rightarrow> ('k, 'v) gomap \<Rightarrow> 'k \<Rightarrow> 'v" where
  "gm_or z m k = (case map_of m k of None \<Rightarrow> z | Some v \<Rightarrow> v)"

lemma gm_get_set [simp]: "gm_get (gm_set k v m) = (gm_get m)(k \<mapsto> v)"
  by (simp add: gm_set_def update_conv' fun_eq_iff)

lemma gm_get_del [simp]: "gm_get (gm_del k m) = (gm_get m)(k := None)"
  by (simp add: gm_del_def delete_conv' fun_eq_iff)

lemma gm_wf_Nil [simp, intro]: "gm_wf []"
  by (simp add: gm_wf_def)

lemma gm_wf_set [simp, intro]: "gm_wf m \<Longrightarrow> gm_wf (gm_set k v m)"
  by (simp add: gm_wf_def gm_set_def distinct_update)

lemma gm_wf_del [simp, intro]: "gm_wf m \<Longrightarrow> gm_wf (gm_del k m)"
  by (simp add: gm_wf_def gm_del_def distinct_delete)

lemma gm_wf_Cons [simp]: "gm_wf (kv # m) \<longleftrightarrow> fst kv \<notin> set (gm_keys m) \<and> gm_wf m"
  by (simp add: gm_wf_def)

lemma gm_keys_dom: "set (gm_keys m) = dom (gm_get m)"
  by (simp add: dom_map_of_conv_image_fst)

lemma gm_set_Nil [simp]: "gm_set k v [] = [(k, v)]"
  by (simp add: gm_set_def)

lemma gm_del_Nil [simp]: "gm_del k [] = []"
  by (simp add: gm_del_def)

lemma gm_del_Cons [simp]: "gm_del k (kv # m) = (if fst kv = k then gm_del k m else kv # gm_del k m)"
  by (cases kv) (simp add: gm_del_def)

lemma gm_in_iff: "gm_wf m \<Longrightarrow> (k, v) \<in> set m \<longleftrightarrow> gm_get m k = Some v"
  by (simp add: gm_wf_def)

lemma gm_set_not_Nil [simp]: "gm_set k v m \<noteq> []"
  by (cases m) (auto simp: gm_set_def)

lemma gm_or_simps [simp]:
  "gm_get m k = None \<Longrightarrow> gm_or z m k = z"
  "gm_get m k = Some v \<Longrightarrow> gm_or z m k = v"
  by (simp_all add: gm_or_def)

lemma gm_or_set: "gm_or z (gm_set k v m) k' = (if k' = k then v else gm_or z m k')"
  by (simp add: gm_or_def)

lemma gm_or_del: "gm_or z (gm_del k m) k' = (if k' = k then z else gm_or z m k')"
  by (simp add: gm_or_def)

lemma gm_has_set [simp]: "gm_has (gm_set k v m) k' \<longleftrightarrow> k' = k \<or> gm_has m k'"
  by (simp add: gm_has_def)

lemma gm_has_del [simp]: "gm_has (gm_del k m) k' \<longleftrightarrow> k' \<noteq> k \<and> gm_has m k'"
  by (simp add: gm_has_def)

lemma gm_has_keys: "gm_has m k \<longleftrightarrow> k \<in> set (gm_keys m)"
  by (metis gm_has_def gm_keys_dom domIff)

lemma gm_get_None_del: "gm_get m k = None \<Longrightarrow> gm_del k m = m"
  by (induction m) (auto split: if_splits)

lemma gm_empty_iff: "m = [] \<longleftrightarrow> gm_get m = Map.empty"
  by (cases m) (auto simp: fun_eq_iff)

text \<open>A measure summed over a map changes only at the key an operation touches.\<close>

lemma gm_sum_remove:
  fixes f :: "'k \<times> 'v \<Rightarrow> 'a::ab_group_add"
  assumes "gm_wf m" and "gm_get m k = Some v"
  shows "sum_list (map f (gm_del k m)) = sum_list (map f m) - f (k, v)"
  using assms
proof (induction m)
  case Nil
  then show ?case by simp
next
  case (Cons kv m)
  show ?case
  proof (cases "fst kv = k")
    case True
    with Cons.prems have "gm_get m k = None" and "kv = (k, v)"
      by (cases kv; auto simp: gm_wf_def domIff dom_map_of_conv_image_fst map_of_eq_None_iff)+
    with True show ?thesis by (simp add: gm_get_None_del)
  next
    case False
    with Cons show ?thesis by (cases kv) (auto simp: algebra_simps)
  qed
qed

lemma gm_sum_set:
  fixes f :: "'k \<times> 'v \<Rightarrow> 'a::ab_group_add"
  assumes "gm_wf m"
  shows "sum_list (map f (gm_set k v m)) =
    sum_list (map f m) - (case gm_get m k of None \<Rightarrow> 0 | Some w \<Rightarrow> f (k, w)) + f (k, v)"
  using assms
proof (induction m)
  case Nil
  then show ?case by simp
next
  case (Cons kv m)
  obtain k0 v0 where kv: "kv = (k0, v0)" by (cases kv)
  show ?case
  proof (cases "k0 = k")
    case True
    with Cons.prems kv show ?thesis by (simp add: gm_set_def algebra_simps)
  next
    case False
    with Cons kv show ?thesis by (simp add: gm_set_def algebra_simps)
  qed
qed

section \<open>Lists\<close>

lemma sort_key_Nil_iff [simp]: "sort_key f xs = [] \<longleftrightarrow> xs = []"
  by (metis length_0_conv length_sort)

section \<open>Strings\<close>

text \<open>The functions of Go's \<^verbatim>\<open>strings\<close> package the gateway uses.\<close>

abbreviation has_prefix :: "string \<Rightarrow> string \<Rightarrow> bool" where
  "has_prefix s p \<equiv> prefix p s"

abbreviation has_suffix :: "string \<Rightarrow> string \<Rightarrow> bool" where
  "has_suffix s p \<equiv> suffix p s"

definition trim_prefix :: "string \<Rightarrow> string \<Rightarrow> string" where
  "trim_prefix s p = (if prefix p s then drop (length p) s else s)"

definition trim_suffix :: "string \<Rightarrow> string \<Rightarrow> string" where
  "trim_suffix s p = (if suffix p s then take (length s - length p) s else s)"

lemma trim_prefix_append [simp]: "trim_prefix (p @ s) p = s"
  by (simp add: trim_prefix_def)

lemma trim_suffix_append [simp]: "trim_suffix (s @ p) p = s"
  by (auto simp: trim_suffix_def suffix_def)

text \<open>\<^verbatim>\<open>strings.ToLower\<close> on ASCII text.\<close>

definition to_lower_char :: "char \<Rightarrow> char" where
  "to_lower_char c =
     (if CHR ''A'' \<le> c \<and> c \<le> CHR ''Z'' then char_of ((of_char c :: nat) + 32) else c)"

definition to_lower :: "string \<Rightarrow> string" where
  "to_lower s = map to_lower_char s"

section \<open>Times\<close>

type_synonym gotime = int
type_synonym duration = int

abbreviation millisecond :: duration where "millisecond \<equiv> 1000000"
abbreviation second :: duration where "second \<equiv> 1000000000"
abbreviation minute :: duration where "minute \<equiv> 60 * second"
abbreviation hour :: duration where "hour \<equiv> 60 * minute"

text \<open>\<^verbatim>\<open>time.Time.IsZero\<close>.\<close>

definition is_zero_time :: "gotime \<Rightarrow> bool" where
  "is_zero_time t \<longleftrightarrow> t = 0"

section \<open>Results\<close>

text \<open>
  \<^verbatim>\<open>(value, error)\<close> results are \<open>error + value\<close>. The following rules open them.
\<close>

lemmas result_splits = sum.splits option.splits prod.splits if_splits

end
