(* ===== verification/Lock_Ranges.thy ===== *)
theory Lock_Ranges
  imports Go_Prelude
begin

text \<open>
  Byte ranges of the lock table (\<^verbatim>\<open>src/internal/lock/manager.go\<close>): removing a range from a list
  of held ranges (\<^verbatim>\<open>subtract\<close>) and merging adjacent ones (\<^verbatim>\<open>coalesce\<close>), and what the two mean
  for the single bytes: which mode a list of held ranges gives each byte.
\<close>

section \<open>Data\<close>

type_synonym u64 = "64 word"

text \<open>\<^verbatim>\<open>Mode\<close> is a \<^verbatim>\<open>uint8\<close>: values other than the two named ones exist and are refused.\<close>

type_synonym Mode = "8 word"

definition Shared :: Mode where
  "Shared = 1"

definition Exclusive :: Mode where
  "Exclusive = 2"

text \<open>\<^verbatim>\<open>math.MaxUint64\<close>, as a range end: to end of file.\<close>

definition EOF :: u64 where
  "EOF = - 1"

record Range =
  Start :: u64
  End :: u64

record held = Range +
  mode :: Mode

section \<open>Operations\<close>

definition overlaps :: "'a Range_scheme \<Rightarrow> 'b Range_scheme \<Rightarrow> bool" where
  "overlaps r s \<longleftrightarrow> Start r < End s \<and> Start s < End r"

text \<open>
  \<^verbatim>\<open>subtract\<close>: the ranges with \<^verbatim>\<open>sub\<close> removed, in order, splitting the ones that straddle it.
\<close>

fun subtract :: "held list \<Rightarrow> Range \<Rightarrow> held list" where
  "subtract [] sub = []"
| "subtract (h # hs) sub =
     (if \<not> overlaps h sub then h # subtract hs sub
      else (if Start h < Start sub then [\<lparr>Start = Start h, End = Start sub, mode = mode h\<rparr>] else [])
         @ (if End sub < End h then [\<lparr>Start = End sub, End = End h, mode = mode h\<rparr>] else [])
         @ subtract hs sub)"

text \<open>
  \<^verbatim>\<open>coalesce\<close>: sort by start, then merge a range into the last one kept when both have the
  same mode and it begins at or before that one's end. \<^term>\<open>coalesce_loop lst hs\<close> is the
  loop with \<^verbatim>\<open>out\<close> ending in \<open>lst\<close>.
\<close>

fun coalesce_loop :: "held \<Rightarrow> held list \<Rightarrow> held list" where
  "coalesce_loop lst [] = [lst]"
| "coalesce_loop lst (h # hs) =
     (if mode h = mode lst \<and> Start h \<le> End lst
      then coalesce_loop (if End lst < End h then lst\<lparr>End := End h\<rparr> else lst) hs
      else lst # coalesce_loop h hs)"

definition coalesce :: "held list \<Rightarrow> held list" where
  "coalesce ranges =
     (if length ranges < 2 then ranges
      else case sort_key Start ranges of
             [] \<Rightarrow> []
           | h # hs \<Rightarrow> coalesce_loop h hs)"

section \<open>Bytes\<close>

text \<open>The bytes of a range, and the mode a list of held ranges gives a byte.\<close>

definition covers :: "'a Range_scheme \<Rightarrow> u64 \<Rightarrow> bool" where
  "covers r b \<longleftrightarrow> Start r \<le> b \<and> b < End r"

definition mode_at :: "held list \<Rightarrow> u64 \<Rightarrow> Mode option" where
  "mode_at hs b = map_option mode (find (\<lambda>h. covers h b) hs)"

text \<open>
  Sorted and disjoint: the form of the lists \<open>subtract\<close> and \<open>coalesce\<close> work on. A list is
  well formed when, besides, every mode is one of the two and no two touching ranges share a
  mode, so no other list of ranges with the same bytes is shorter.
\<close>

fun disjoint_ranges :: "held list \<Rightarrow> bool" where
  "disjoint_ranges [] = True"
| "disjoint_ranges (h # hs) =
     (Start h < End h \<and> (\<forall>h' \<in> set hs. End h \<le> Start h') \<and> disjoint_ranges hs)"

fun wf_ranges :: "held list \<Rightarrow> bool" where
  "wf_ranges [] = True"
| "wf_ranges (h # hs) =
     (Start h < End h \<and> (mode h = Shared \<or> mode h = Exclusive) \<and>
      (\<forall>h' \<in> set hs. End h \<le> Start h' \<and> (mode h' = mode h \<longrightarrow> End h < Start h')) \<and>
      wf_ranges hs)"

definition valid_mode :: "Mode \<Rightarrow> bool" where
  "valid_mode md \<longleftrightarrow> md = Shared \<or> md = Exclusive"

lemma wf_ranges_disjoint: "wf_ranges hs \<Longrightarrow> disjoint_ranges hs"
  by (induction hs) auto

lemma wf_ranges_modes: "wf_ranges hs \<Longrightarrow> h \<in> set hs \<Longrightarrow> valid_mode (mode h)"
  by (induction hs) (auto simp: valid_mode_def)

lemma wf_ranges_append:
  "wf_ranges (xs @ ys) \<longleftrightarrow> wf_ranges xs \<and> wf_ranges ys \<and>
     (\<forall>x \<in> set xs. \<forall>y \<in> set ys. End x \<le> Start y \<and> (mode y = mode x \<longrightarrow> End x < Start y))"
  by (induction xs) auto

lemma disjoint_ranges_nonempty: "disjoint_ranges hs \<Longrightarrow> h \<in> set hs \<Longrightarrow> Start h < End h"
  by (induction hs) auto

lemma disjoint_ranges_unique:
  "disjoint_ranges hs \<Longrightarrow> h \<in> set hs \<Longrightarrow> h' \<in> set hs \<Longrightarrow> covers h b \<Longrightarrow> covers h' b \<Longrightarrow> h = h'"
  by (induction hs) (auto simp: covers_def)

lemma disjoint_ranges_distinct: "disjoint_ranges hs \<Longrightarrow> distinct hs"
  by (induction hs) (auto dest: leD)

lemma mode_at_Nil [simp]: "mode_at [] b = None"
  by (simp add: mode_at_def)

lemma mode_at_Cons: "mode_at (h # hs) b = (if covers h b then Some (mode h) else mode_at hs b)"
  by (simp add: mode_at_def)

lemma mode_at_append:
  "mode_at (xs @ ys) b = (case mode_at xs b of None \<Rightarrow> mode_at ys b | Some md \<Rightarrow> Some md)"
  by (induction xs) (auto simp: mode_at_Cons)

lemma mode_at_None_iff: "mode_at hs b = None \<longleftrightarrow> (\<forall>h \<in> set hs. \<not> covers h b)"
  by (induction hs) (auto simp: mode_at_Cons)

lemma mode_at_SomeD: "mode_at hs b = Some md \<Longrightarrow> \<exists>h \<in> set hs. covers h b \<and> mode h = md"
  by (induction hs) (auto simp: mode_at_Cons split: if_splits)

lemma mode_at_Some_iff:
  assumes "disjoint_ranges hs"
  shows "mode_at hs b = Some md \<longleftrightarrow> (\<exists>h \<in> set hs. covers h b \<and> mode h = md)"
proof
  assume "\<exists>h \<in> set hs. covers h b \<and> mode h = md"
  then obtain h where h: "h \<in> set hs" "covers h b" "mode h = md" by blast
  then obtain md' where "mode_at hs b = Some md'"
    using mode_at_None_iff by blast
  with h assms show "mode_at hs b = Some md"
    by (blast dest: mode_at_SomeD disjoint_ranges_unique)
qed (rule mode_at_SomeD)

lemma overlaps_covers: "covers r b \<Longrightarrow> covers s b \<Longrightarrow> overlaps r s"
  by (simp add: covers_def overlaps_def) (meson le_less_trans)

lemma overlaps_iff_covers:
  "Start r < End r \<Longrightarrow> Start s < End s \<Longrightarrow> overlaps r s \<longleftrightarrow> (\<exists>b. covers r b \<and> covers s b)"
  by (auto simp: overlaps_def covers_def intro!: exI [of _ "max (Start r) (Start s)"])

section \<open>subtract\<close>

text \<open>Every piece of \<open>subtract hs sub\<close> lies inside a range of \<open>hs\<close> of its mode and outside \<open>sub\<close>.\<close>

lemma subtract_within:
  "h' \<in> set (subtract hs sub) \<Longrightarrow> \<forall>h \<in> set hs. Start h < End h \<Longrightarrow> Start sub < End sub \<Longrightarrow>
   \<exists>h \<in> set hs. Start h \<le> Start h' \<and> End h' \<le> End h \<and> mode h' = mode h \<and> Start h' < End h'"
  by (induction hs) (force simp: overlaps_def split: if_splits)+

lemma subtract_outside:
  "h' \<in> set (subtract hs sub) \<Longrightarrow> End h' \<le> Start sub \<or> End sub \<le> Start h'"
  by (induction hs) (auto simp: overlaps_def split: if_splits)

definition split_pieces :: "held \<Rightarrow> Range \<Rightarrow> held list" where
  "split_pieces h sub =
     (if Start h < Start sub then [\<lparr>Start = Start h, End = Start sub, mode = mode h\<rparr>] else [])
     @ (if End sub < End h then [\<lparr>Start = End sub, End = End h, mode = mode h\<rparr>] else [])"

lemma subtract_overlap:
  "overlaps h sub \<Longrightarrow> subtract (h # hs) sub = split_pieces h sub @ subtract hs sub"
  by (simp add: split_pieces_def)

lemma mode_at_split_pieces:
  assumes "overlaps h sub"
  shows "mode_at (split_pieces h sub) b = (if covers h b \<and> \<not> covers sub b then Some (mode h) else None)"
proof -
  have "Start h < End sub" and "Start sub < End h" using assms by (simp_all add: overlaps_def)
  then show ?thesis
    by (simp add: split_pieces_def mode_at_Cons covers_def) (meson leD leI less_le_trans order.trans less_imp_le)
qed

lemma mode_at_subtract:
  "mode_at (subtract hs sub) b = (if covers sub b then None else mode_at hs b)"
proof (induction hs)
  case Nil
  then show ?case by simp
next
  case (Cons h hs)
  show ?case
  proof (cases "overlaps h sub")
    case False
    then have "\<not> (covers h b \<and> covers sub b)"
      using overlaps_covers by blast
    with False Cons.IH show ?thesis by (auto simp: mode_at_Cons)
  next
    case True
    with Cons.IH show ?thesis
      by (simp add: subtract_overlap mode_at_append mode_at_split_pieces mode_at_Cons
        del: subtract.simps)
  qed
qed

lemma wf_ranges_subtract:
  assumes "Start sub < End sub"
  shows "wf_ranges hs \<Longrightarrow> wf_ranges (subtract hs sub)"
proof (induction hs)
  case Nil
  then show ?case by simp
next
  case (Cons h hs)
  have pieces: "Start h' < End h' \<and> End h \<le> Start h' \<and> (mode h' = mode h \<longrightarrow> End h < Start h')"
    if h': "h' \<in> set (subtract hs sub)" for h'
  proof -
    have "\<forall>k \<in> set hs. Start k < End k"
      using Cons.prems by (auto dest: wf_ranges_disjoint disjoint_ranges_nonempty)
    from subtract_within [OF h' this assms] obtain k where
      "k \<in> set hs" "Start k \<le> Start h'" "mode h' = mode k" "Start h' < End h'" by blast
    with Cons.prems show ?thesis by fastforce
  qed
  show ?case
  proof (cases "overlaps h sub")
    case False
    with Cons pieces show ?thesis by auto
  next
    case True
    have later: "x < Start h'" if "h' \<in> set (subtract hs sub)" "x < End h" for x h'
      using pieces [OF that(1)] that(2) by auto
    from Cons have IH: "wf_ranges (subtract hs sub)" by simp
    have "Start h < End sub" "Start sub < End h" "valid_mode (mode h)"
      using True Cons.prems by (auto simp: overlaps_def valid_mode_def)
    then have "wf_ranges (split_pieces h sub)"
      using assms by (auto simp: split_pieces_def valid_mode_def)
    moreover have "\<forall>k \<in> set (split_pieces h sub). mode k = mode h \<and> (End k < End h \<or> End k = End h)"
      using \<open>Start sub < End h\<close> by (auto simp: split_pieces_def)
    moreover note IH pieces later
    ultimately show ?thesis
      unfolding subtract_overlap [OF True] wf_ranges_append by (metis less_imp_le)
  qed
qed

section \<open>coalesce\<close>

lemma coalesce_loop_starts:
  "disjoint_ranges (lst # hs) \<Longrightarrow> k \<in> set (coalesce_loop lst hs) \<Longrightarrow>
   (Start k = Start lst \<and> mode k = mode lst) \<or> End lst \<le> Start k"
proof (induction lst hs rule: coalesce_loop.induct)
  case (1 lst)
  then show ?case by simp
next
  case (2 lst h hs)
  then show ?case by (fastforce split: if_splits)
qed

lemma wf_ranges_coalesce_loop:
  "disjoint_ranges (lst # hs) \<Longrightarrow> \<forall>h \<in> set (lst # hs). valid_mode (mode h) \<Longrightarrow>
   wf_ranges (coalesce_loop lst hs)"
proof (induction lst hs rule: coalesce_loop.induct)
  case (1 lst)
  then show ?case by (simp add: valid_mode_def)
next
  case (2 lst h hs)
  show ?case
  proof (cases "mode h = mode lst \<and> Start h \<le> End lst")
    case True
    with 2 show ?thesis by (auto intro!: "2.IH"(1))
  next
    case False
    have rest: "disjoint_ranges (h # hs)" using 2 by simp
    have "End lst \<le> Start k \<and> (mode k = mode lst \<longrightarrow> End lst < Start k)"
      if "k \<in> set (coalesce_loop h hs)" for k
      using coalesce_loop_starts [OF rest that] False "2.prems" by auto
    moreover have "wf_ranges (coalesce_loop h hs)" using "2.IH"(2) False 2 by simp
    ultimately show ?thesis using False "2.prems" by (auto simp: valid_mode_def)
  qed
qed

lemma mode_at_coalesce_loop:
  "disjoint_ranges (lst # hs) \<Longrightarrow> mode_at (coalesce_loop lst hs) b = mode_at (lst # hs) b"
proof (induction lst hs rule: coalesce_loop.induct)
  case (1 lst)
  then show ?case by simp
next
  case (2 lst h hs)
  show ?case
  proof (cases "mode h = mode lst \<and> Start h \<le> End lst")
    case True
    with "2.prems" have eq: "Start h = End lst" "End lst < End h" "Start lst < End lst" by auto
    with True 2 have "mode_at (coalesce_loop lst (h # hs)) b = mode_at (lst\<lparr>End := End h\<rparr> # hs) b"
      by auto
    moreover have "covers (lst\<lparr>End := End h\<rparr>) b \<longleftrightarrow> covers lst b \<or> covers h b"
      using eq by (auto simp: covers_def)
    ultimately show ?thesis using True by (auto simp: mode_at_Cons)
  next
    case False
    with 2 show ?thesis by (auto simp: mode_at_Cons)
  qed
qed

text \<open>
  A list of nonempty ranges, any two of them apart, is disjoint once sorted: what \<open>coalesce\<close>
  gets from \<open>subtract\<close> and the new range appended at the end. The starts differ, so the order
  does not depend on how \<^verbatim>\<open>sort.Slice\<close> treats equal keys.
\<close>

definition apart :: "held \<Rightarrow> held \<Rightarrow> bool" where
  "apart a b \<longleftrightarrow> End a \<le> Start b \<or> End b \<le> Start a"

lemma sorted_apart_disjoint:
  assumes "sorted (map Start hs)" and "distinct hs"
    and "\<forall>h \<in> set hs. Start h < End h"
    and "\<forall>a \<in> set hs. \<forall>b \<in> set hs. a \<noteq> b \<longrightarrow> apart a b"
  shows "disjoint_ranges hs"
  using assms
proof (induction hs)
  case Nil
  then show ?case by simp
next
  case (Cons h hs)
  have "End h \<le> Start k" if k: "k \<in> set hs" for k
  proof -
    from Cons.prems k have "Start h \<le> Start k" "Start k < End k" "h \<noteq> k" by auto
    moreover from this Cons.prems k have "apart h k" by simp
    ultimately show ?thesis by (auto simp: apart_def)
  qed
  with Cons show ?case by simp
qed

lemma disjoint_ranges_apart:
  "disjoint_ranges hs \<Longrightarrow> a \<in> set hs \<Longrightarrow> b \<in> set hs \<Longrightarrow> a \<noteq> b \<Longrightarrow> apart a b"
  by (induction hs) (auto simp: apart_def)

text \<open>The list a granted lock leaves: well formed, with the new range's mode on its bytes.\<close>

definition relock :: "held list \<Rightarrow> Range \<Rightarrow> Mode \<Rightarrow> held list" where
  "relock hs r md = coalesce (subtract hs r @ [\<lparr>Start = Start r, End = End r, mode = md\<rparr>])"

lemma relock_sorted_disjoint:
  fixes md :: Mode
  assumes "wf_ranges hs" and "Start r < End r"
  defines "new \<equiv> \<lparr>Start = Start r, End = End r, mode = md\<rparr>"
  shows "disjoint_ranges (sort_key Start (subtract hs r @ [new]))"
proof -
  let ?xs = "subtract hs r"
  have xs: "disjoint_ranges ?xs"
    using assms by (intro wf_ranges_disjoint wf_ranges_subtract)
  have new: "apart x new \<and> x \<noteq> new" if "x \<in> set ?xs" for x
    using subtract_outside [OF that] disjoint_ranges_nonempty [OF xs that] assms(2)
    by (auto simp: apart_def new_def)
  show ?thesis
  proof (rule sorted_apart_disjoint)
    show "sorted (map Start (sort_key Start (?xs @ [new])))" by simp
    show "distinct (sort_key Start (?xs @ [new]))"
      using disjoint_ranges_distinct [OF xs] new by auto
    show "\<forall>h \<in> set (sort_key Start (?xs @ [new])). Start h < End h"
      using disjoint_ranges_nonempty [OF xs] assms(2) by (auto simp: new_def)
    show "\<forall>a \<in> set (sort_key Start (?xs @ [new])). \<forall>b \<in> set (sort_key Start (?xs @ [new])).
        a \<noteq> b \<longrightarrow> apart a b"
      using disjoint_ranges_apart [OF xs] new by (auto simp: apart_def)
  qed
qed

lemma coalesce_eq:
  assumes "xs \<noteq> []"
  shows "coalesce xs = coalesce_loop (hd (sort_key Start xs)) (tl (sort_key Start xs))"
proof (cases "length xs < 2")
  case True
  with assms obtain h where "xs = [h]" by (cases xs) (auto simp: Suc_length_conv)
  then show ?thesis by (simp add: coalesce_def)
next
  case False
  with assms show ?thesis
    by (cases "sort_key Start xs") (auto simp: coalesce_def)
qed

lemma wf_ranges_relock:
  assumes "wf_ranges hs" and "Start r < End r" and "valid_mode md"
  shows "wf_ranges (relock hs r md)"
proof -
  let ?xs = "subtract hs r @ [\<lparr>Start = Start r, End = End r, mode = md\<rparr>]"
  have ne: "sort_key Start ?xs \<noteq> []" by simp
  have "\<forall>h \<in> set (sort_key Start ?xs). valid_mode (mode h)"
    using wf_ranges_modes [OF wf_ranges_subtract [OF assms(2,1)]] assms(3) by auto
  then show ?thesis
    using relock_sorted_disjoint [OF assms(1,2), of md] ne
    by (simp add: relock_def coalesce_eq wf_ranges_coalesce_loop)
qed

lemma mode_at_relock:
  assumes "wf_ranges hs" and "Start r < End r"
  shows "mode_at (relock hs r md) b = (if covers r b then Some md else mode_at hs b)"
proof -
  define new where "new = \<lparr>Start = Start r, End = End r, mode = md\<rparr>"
  let ?xs = "subtract hs r @ [new]"
  have dis: "disjoint_ranges (sort_key Start ?xs)"
    using relock_sorted_disjoint [OF assms, of md] by (simp add: new_def)
  have "sort_key Start ?xs \<noteq> []" by simp
  with dis have "mode_at (relock hs r md) b = mode_at (sort_key Start ?xs) b"
    by (simp add: relock_def coalesce_eq mode_at_coalesce_loop flip: new_def)
  also have "\<dots> = (if covers r b then Some md else mode_at hs b)"
  proof (cases "covers r b")
    case True
    then show ?thesis
      using mode_at_Some_iff [OF dis] by (auto simp: new_def covers_def)
  next
    case False
    have "mode_at (subtract hs r) b = mode_at hs b" using False by (simp add: mode_at_subtract)
    moreover have "mode_at (sort_key Start ?xs) b = Some m \<longleftrightarrow> mode_at (subtract hs r) b = Some m" for m
      using False mode_at_Some_iff [OF dis, of b m]
        mode_at_Some_iff [OF wf_ranges_disjoint [OF wf_ranges_subtract [OF assms(2,1)]], of b m]
      by (auto simp: new_def covers_def)
    ultimately show ?thesis using False by (metis not_None_eq)
  qed
  finally show ?thesis .
qed

lemma relock_not_Nil: "relock hs r md \<noteq> []"
proof -
  have "coalesce_loop l ks \<noteq> []" for l ks by (induction l ks rule: coalesce_loop.induct) auto
  then show ?thesis by (simp add: relock_def coalesce_eq)
qed

end
