(* ===== verification/Lock_Table.thy ===== *)
theory Lock_Table
  imports Lock_Ranges "HOL-Library.Product_Lexorder"
begin

text \<open>
  The byte-range lock table shared by the NFS and SMB servers
  (\<^verbatim>\<open>src/internal/lock/manager.go\<close>). A range is two \<^verbatim>\<open>uint64\<close> offsets; the table keeps, for
  every path, each owner's held ranges sorted by start, an index of the paths an owner holds
  ranges on, and the number of ranges per client. The operations run under one mutex, so
  each is one function from a table to a table.
\<close>

section \<open>Data\<close>

definition DefaultMaxLocksPerFile :: int where
  "DefaultMaxLocksPerFile = 512"

definition DefaultMaxLocksPerClient :: int where
  "DefaultMaxLocksPerClient = 8192"

datatype lock_error = ErrLimit | ErrInvalid

record Owner =
  Client :: string
  ID :: string

record Lock = Range +
  lock_mode :: Mode
  lock_owner :: Owner

record LockOptions =
  MaxLocksPerFile :: int
  MaxLocksPerClient :: int

record LockManager =
  maxLocksPerFile :: int
  maxLocksPerClient :: int
  lm_files :: "(string, (Owner, held list) gomap) gomap"
  lm_owned :: "(Owner, (string, unit) gomap) gomap"
  lm_clientLocks :: "(string, int) gomap"

section \<open>Operations\<close>

definition lessOwner :: "Owner \<Rightarrow> Owner \<Rightarrow> bool" where
  "lessOwner a b = (if Client a \<noteq> Client b then Client a < Client b else ID a < ID b)"

definition NewLockManager :: "LockOptions \<Rightarrow> LockManager" where
  "NewLockManager opts =
     \<lparr>maxLocksPerFile =
        (if MaxLocksPerFile opts \<le> 0 then DefaultMaxLocksPerFile else MaxLocksPerFile opts),
      maxLocksPerClient =
        (if MaxLocksPerClient opts \<le> 0 then DefaultMaxLocksPerClient else MaxLocksPerClient opts),
      lm_files = [], lm_owned = [], lm_clientLocks = []\<rparr>"

definition validate :: "Range \<Rightarrow> Mode \<Rightarrow> lock_error option" where
  "validate r md =
     (if End r \<le> Start r \<or> (md \<noteq> Shared \<and> md \<noteq> Exclusive) then Some ErrInvalid else None)"

text \<open>\<^verbatim>\<open>m.files[path]\<close> and \<^verbatim>\<open>m.files[path][owner]\<close>, nil when missing.\<close>

definition owners_at :: "LockManager \<Rightarrow> string \<Rightarrow> (Owner, held list) gomap" where
  "owners_at m path = gm_or [] (lm_files m) path"

definition ranges_at :: "LockManager \<Rightarrow> string \<Rightarrow> Owner \<Rightarrow> held list" where
  "ranges_at m path owner = gm_or [] (owners_at m path) owner"

text \<open>
  \<^verbatim>\<open>conflictLocked\<close>: one pass over every other owner's ranges on the path, keeping the
  conflicting lock with the lowest start, ties broken by owner.
\<close>

definition conflict_step ::
  "Range \<Rightarrow> Mode \<Rightarrow> Owner \<Rightarrow> held \<Rightarrow> Lock option \<Rightarrow> Lock option" where
  "conflict_step r md other h found =
     (if \<not> overlaps h r \<or> (mode h = Shared \<and> md = Shared) then found
      else if (case found of
                 None \<Rightarrow> True
               | Some f \<Rightarrow> Start h < Start f
                   \<or> (Start h = Start f \<and> lessOwner other (lock_owner f)))
      then Some \<lparr>Start = Start h, End = End h, lock_mode = mode h, lock_owner = other\<rparr>
      else found)"

definition conflictLocked ::
  "Owner \<Rightarrow> string \<Rightarrow> Range \<Rightarrow> Mode \<Rightarrow> LockManager \<Rightarrow> Lock option" where
  "conflictLocked owner path r md m =
     fold (\<lambda>(other, ranges) found.
             if other = owner then found else fold (conflict_step r md other) ranges found)
       (owners_at m path) None"

definition fileLockCountLocked :: "string \<Rightarrow> LockManager \<Rightarrow> int" where
  "fileLockCountLocked path m =
     sum_list (map (\<lambda>(other, ranges). int (length ranges)) (owners_at m path))"

text \<open>
  \<^verbatim>\<open>setLocked\<close>: store the owner's ranges on the path (removing empty entries), keep the
  \<^verbatim>\<open>owned\<close> index in step and adjust the client's count by \<^verbatim>\<open>delta\<close>.
\<close>

definition setLocked ::
  "Owner \<Rightarrow> string \<Rightarrow> held list \<Rightarrow> int \<Rightarrow> LockManager \<Rightarrow> LockManager" where
  "setLocked owner path ranges delta m =
     (let owners = owners_at m path;
          n = gm_or 0 (lm_clientLocks m) (Client owner) + delta
      in m\<lparr>lm_files :=
             (if ranges = []
              then let owners' = gm_del owner owners
                   in if owners' = [] then gm_del path (lm_files m)
                      else gm_set path owners' (lm_files m)
              else gm_set path (gm_set owner ranges owners) (lm_files m)),
           lm_owned :=
             (if ranges = []
              then (case gm_get (lm_owned m) owner of
                      None \<Rightarrow> lm_owned m
                    | Some paths \<Rightarrow>
                        let paths' = gm_del path paths
                        in if paths' = [] then gm_del owner (lm_owned m)
                           else gm_set owner paths' (lm_owned m))
              else gm_set owner (gm_set path () (gm_or [] (lm_owned m) owner)) (lm_owned m)),
           lm_clientLocks :=
             (if n > 0 then gm_set (Client owner) n (lm_clientLocks m)
              else gm_del (Client owner) (lm_clientLocks m))\<rparr>)"

definition LockManager_Lock ::
  "Owner \<Rightarrow> string \<Rightarrow> Range \<Rightarrow> Mode \<Rightarrow> LockManager
     \<Rightarrow> (lock_error + Lock option) \<times> LockManager" where
  "LockManager_Lock owner path r md m =
     (case validate r md of
        Some e \<Rightarrow> (Inl e, m)
      | None \<Rightarrow>
          (case conflictLocked owner path r md m of
             Some c \<Rightarrow> (Inr (Some c), m)
           | None \<Rightarrow>
               let before = ranges_at m path owner;
                   after = coalesce (subtract before r @ [\<lparr>Start = Start r, End = End r, mode = md\<rparr>]);
                   delta = int (length after) - int (length before)
               in if delta > 0 \<and>
                     (fileLockCountLocked path m + delta > maxLocksPerFile m \<or>
                      gm_or 0 (lm_clientLocks m) (Client owner) + delta > maxLocksPerClient m)
                  then (Inl ErrLimit, m)
                  else (Inr None, setLocked owner path after delta m)))"

definition LockManager_Unlock ::
  "Owner \<Rightarrow> string \<Rightarrow> Range \<Rightarrow> LockManager \<Rightarrow> lock_error option \<times> LockManager" where
  "LockManager_Unlock owner path r m =
     (if End r \<le> Start r then (Some ErrInvalid, m)
      else let before = ranges_at m path owner;
               after = subtract before r
           in (None, setLocked owner path after (int (length after) - int (length before)) m))"

definition LockManager_Test ::
  "Owner \<Rightarrow> string \<Rightarrow> Range \<Rightarrow> Mode \<Rightarrow> LockManager \<Rightarrow> lock_error + Lock option" where
  "LockManager_Test owner path r md m =
     (case validate r md of
        Some e \<Rightarrow> Inl e
      | None \<Rightarrow> Inr (conflictLocked owner path r md m))"

text \<open>
  \<^verbatim>\<open>releaseOwnerLocked\<close> ranges over the owner's paths while \<^verbatim>\<open>setLocked\<close> deletes the one just
  visited, so it visits the paths listed at the start.
\<close>

definition releaseOwnerLocked :: "Owner \<Rightarrow> LockManager \<Rightarrow> LockManager" where
  "releaseOwnerLocked owner m =
     fold (\<lambda>path m'. setLocked owner path [] (- int (length (ranges_at m' path owner))) m')
       (gm_keys (gm_or [] (lm_owned m) owner)) m"

definition LockManager_ReleaseOwner :: "Owner \<Rightarrow> LockManager \<Rightarrow> LockManager" where
  "LockManager_ReleaseOwner owner m = releaseOwnerLocked owner m"

definition LockManager_ReleaseClient :: "string \<Rightarrow> LockManager \<Rightarrow> LockManager" where
  "LockManager_ReleaseClient client m =
     fold (\<lambda>owner m'. if Client owner = client then releaseOwnerLocked owner m' else m')
       (gm_keys (lm_owned m)) m"

definition LockManager_Locks :: "string \<Rightarrow> LockManager \<Rightarrow> Lock list" where
  "LockManager_Locks path m =
     sort_key (\<lambda>l. (Start l, Client (lock_owner l), ID (lock_owner l)))
       (concat (map (\<lambda>(owner, ranges).
          map (\<lambda>h. \<lparr>Start = Start h, End = End h, lock_mode = mode h, lock_owner = owner\<rparr>) ranges)
        (owners_at m path)))"

section \<open>What the table holds\<close>

text \<open>
  The abstract table: the mode every owner holds on every byte of every path.
\<close>

type_synonym byte_locks = "string \<Rightarrow> Owner \<Rightarrow> u64 \<Rightarrow> Mode option"

definition byte_locks_of :: "LockManager \<Rightarrow> byte_locks" where
  "byte_locks_of m path owner b = mode_at (ranges_at m path owner) b"

definition locked :: "Owner \<Rightarrow> string \<Rightarrow> Range \<Rightarrow> Mode \<Rightarrow> byte_locks \<Rightarrow> byte_locks" where
  "locked owner path r md A =
     A(path := (A path)(owner := (\<lambda>b. if covers r b then Some md else A path owner b)))"

definition unlocked :: "Owner \<Rightarrow> string \<Rightarrow> Range \<Rightarrow> byte_locks \<Rightarrow> byte_locks" where
  "unlocked owner path r A =
     A(path := (A path)(owner := (\<lambda>b. if covers r b then None else A path owner b)))"

definition released :: "(Owner \<Rightarrow> bool) \<Rightarrow> byte_locks \<Rightarrow> byte_locks" where
  "released P A = (\<lambda>path owner b. if P owner then None else A path owner b)"

text \<open>Two modes on one byte conflict unless both are shared.\<close>

definition compatible :: "Mode \<Rightarrow> Mode \<Rightarrow> bool" where
  "compatible a b \<longleftrightarrow> a = Shared \<and> b = Shared"

definition byte_conflict :: "byte_locks \<Rightarrow> Owner \<Rightarrow> string \<Rightarrow> Range \<Rightarrow> Mode \<Rightarrow> bool" where
  "byte_conflict A owner path r md \<longleftrightarrow>
     (\<exists>other b md'. other \<noteq> owner \<and> covers r b \<and> A path other b = Some md' \<and> \<not> compatible md' md)"

definition exclusion :: "byte_locks \<Rightarrow> bool" where
  "exclusion A \<longleftrightarrow>
     (\<forall>path o1 o2 b m1 m2. o1 \<noteq> o2 \<longrightarrow> A path o1 b = Some m1 \<longrightarrow> A path o2 b = Some m2
        \<longrightarrow> compatible m1 m2)"

section \<open>The table's invariant\<close>

text \<open>The number of ranges the owners of a client hold, over all files.\<close>

definition file_ranges :: "string \<Rightarrow> (Owner, held list) gomap \<Rightarrow> int" where
  "file_ranges c owners =
     sum_list (map (\<lambda>(owner, ranges). if Client owner = c then int (length ranges) else 0) owners)"

definition client_ranges :: "string \<Rightarrow> LockManager \<Rightarrow> int" where
  "client_ranges c m = sum_list (map (\<lambda>(path, owners). file_ranges c owners) (lm_files m))"

definition owned_paths :: "LockManager \<Rightarrow> Owner \<Rightarrow> (string, unit) gomap" where
  "owned_paths m owner = gm_or [] (lm_owned m) owner"

definition files_ok :: "LockManager \<Rightarrow> bool" where
  "files_ok m \<longleftrightarrow> gm_wf (lm_files m) \<and>
     (\<forall>path owners. gm_get (lm_files m) path = Some owners \<longrightarrow> owners \<noteq> [] \<and> gm_wf owners \<and>
        (\<forall>owner ranges. gm_get owners owner = Some ranges \<longrightarrow> ranges \<noteq> [] \<and> wf_ranges ranges))"

definition index_ok :: "LockManager \<Rightarrow> bool" where
  "index_ok m \<longleftrightarrow> gm_wf (lm_owned m) \<and>
     (\<forall>owner paths. gm_get (lm_owned m) owner = Some paths \<longrightarrow> paths \<noteq> [] \<and> gm_wf paths) \<and>
     (\<forall>owner path. gm_has (owned_paths m owner) path \<longleftrightarrow> ranges_at m path owner \<noteq> [])"

definition counts_ok :: "LockManager \<Rightarrow> bool" where
  "counts_ok m \<longleftrightarrow> gm_wf (lm_clientLocks m) \<and>
     (\<forall>c. gm_or 0 (lm_clientLocks m) c = client_ranges c m) \<and>
     (\<forall>c n. gm_get (lm_clientLocks m) c = Some n \<longrightarrow> 0 < n)"

definition lock_inv :: "LockManager \<Rightarrow> bool" where
  "lock_inv m \<longleftrightarrow> files_ok m \<and> index_ok m \<and> counts_ok m \<and> exclusion (byte_locks_of m)"

lemmas lock_inv_defs = files_ok_def index_ok_def counts_ok_def

section \<open>setLocked\<close>

lemma setLocked_limits [simp]:
  "maxLocksPerFile (setLocked o' p rs d m) = maxLocksPerFile m"
  "maxLocksPerClient (setLocked o' p rs d m) = maxLocksPerClient m"
  by (simp_all add: setLocked_def Let_def)

lemma owners_at_setLocked:
  "owners_at (setLocked o' p rs d m) p' =
     (if p' \<noteq> p then owners_at m p'
      else if rs = [] then gm_del o' (owners_at m p) else gm_set o' rs (owners_at m p))"
  by (auto simp: owners_at_def setLocked_def Let_def gm_or_set gm_or_del)

lemma ranges_at_setLocked:
  "ranges_at (setLocked o' p rs d m) p' q = (if p' = p \<and> q = o' then rs else ranges_at m p' q)"
  by (simp add: ranges_at_def owners_at_setLocked gm_or_set gm_or_del)

lemma owned_paths_setLocked:
  "gm_has (owned_paths (setLocked o' p rs d m) q) p' \<longleftrightarrow>
     (if q = o' \<and> p' = p then rs \<noteq> [] else gm_has (owned_paths m q) p')"
proof (cases "rs = []")
  case True
  then show ?thesis
    by (cases "gm_get (lm_owned m) o'")
      (auto simp: owned_paths_def setLocked_def Let_def gm_or_set gm_or_del gm_has_def
        gm_or_def gm_empty_iff fun_eq_iff split: if_splits option.splits)
next
  case False
  then show ?thesis
    by (auto simp: owned_paths_def setLocked_def Let_def gm_or_set)
qed

lemma files_ok_setLocked:
  assumes "files_ok m" and "wf_ranges rs"
  shows "files_ok (setLocked o' p rs d m)"
proof -
  have os: "gm_wf (owners_at m p)"
    "\<And>q ranges. gm_get (owners_at m p) q = Some ranges \<Longrightarrow> ranges \<noteq> [] \<and> wf_ranges ranges"
    using assms(1) by (cases "gm_get (lm_files m) p"; auto simp: owners_at_def files_ok_def)+
  show ?thesis
    using assms os unfolding files_ok_def setLocked_def Let_def by (auto split: if_splits)
qed

lemma index_ok_setLocked:
  assumes "index_ok m"
  shows "index_ok (setLocked o' p rs d m)"
proof -
  have ps: "gm_wf (owned_paths m o')"
    using assms by (cases "gm_get (lm_owned m) o'") (auto simp: owned_paths_def index_ok_def)
  have "gm_has (owned_paths (setLocked o' p rs d m) q) p' \<longleftrightarrow>
      ranges_at (setLocked o' p rs d m) p' q \<noteq> []" for q p'
    using assms by (auto simp: owned_paths_setLocked ranges_at_setLocked index_ok_def)
  moreover have "gm_wf (lm_owned (setLocked o' p rs d m))"
    using assms by (auto simp: setLocked_def Let_def index_ok_def split: option.splits)
  moreover have "paths \<noteq> [] \<and> gm_wf paths"
    if "gm_get (lm_owned (setLocked o' p rs d m)) q = Some paths" for q paths
    using that assms ps
    by (auto simp: setLocked_def Let_def index_ok_def owned_paths_def split: if_splits option.splits)
  ultimately show ?thesis unfolding index_ok_def by blast
qed

lemma file_ranges_set:
  "gm_wf owners \<Longrightarrow> file_ranges c (gm_set q rs owners) = file_ranges c owners +
     (if Client q = c then int (length rs) - int (length (gm_or [] owners q)) else 0)"
  by (simp add: file_ranges_def gm_sum_set gm_or_def split: option.split)

lemma file_ranges_del:
  "gm_wf owners \<Longrightarrow> file_ranges c (gm_del q owners) = file_ranges c owners -
     (if Client q = c then int (length (gm_or [] owners q)) else 0)"
  by (cases "gm_get owners q") (simp_all add: file_ranges_def gm_sum_remove gm_get_None_del)

lemma client_ranges_setLocked:
  assumes "files_ok m"
  shows "client_ranges c (setLocked o' p rs d m) = client_ranges c m +
    (if Client o' = c then int (length rs) - int (length (ranges_at m p o')) else 0)"
proof -
  have files: "gm_wf (lm_files m)" and os: "gm_wf (owners_at m p)"
    using assms by (cases "gm_get (lm_files m) p"; auto simp: owners_at_def files_ok_def)+
  have sum_set: "sum_list (map (\<lambda>(path, owners). file_ranges c owners) (gm_set p os' (lm_files m))) =
      client_ranges c m - file_ranges c (owners_at m p) + file_ranges c os'" for os'
    using files by (cases "gm_get (lm_files m) p")
      (simp_all add: client_ranges_def gm_sum_set owners_at_def file_ranges_def)
  have sum_del: "sum_list (map (\<lambda>(path, owners). file_ranges c owners) (gm_del p (lm_files m))) =
      client_ranges c m - file_ranges c (owners_at m p)"
    using files by (cases "gm_get (lm_files m) p")
      (simp_all add: client_ranges_def gm_sum_remove gm_get_None_del owners_at_def file_ranges_def)
  have del: "file_ranges c (gm_del o' (owners_at m p)) = file_ranges c (owners_at m p) -
      (if Client o' = c then int (length (ranges_at m p o')) else 0)"
    using file_ranges_del [OF os] by (simp add: ranges_at_def)
  have nil: "file_ranges c [] = 0" by (simp add: file_ranges_def)
  show ?thesis
  proof (cases "rs = []")
    case True
    with sum_set sum_del del nil show ?thesis
      unfolding client_ranges_def setLocked_def Let_def
      by (cases "gm_del o' (owners_at m p) = []") (auto simp flip: client_ranges_def)
  next
    case False
    with sum_set file_ranges_set [OF os] show ?thesis
      unfolding client_ranges_def setLocked_def Let_def
      by (auto simp: ranges_at_def simp flip: client_ranges_def)
  qed
qed

lemma client_ranges_nonneg: "0 \<le> client_ranges c m"
  unfolding client_ranges_def file_ranges_def by (intro sum_list_nonneg) (auto intro!: sum_list_nonneg)

lemma counts_ok_setLocked:
  assumes "files_ok m" and "counts_ok m"
    and d: "d = int (length rs) - int (length (ranges_at m p o'))"
  shows "counts_ok (setLocked o' p rs d m)"
proof -
  have new: "client_ranges (Client o') (setLocked o' p rs d m) = gm_or 0 (lm_clientLocks m) (Client o') + d"
    using client_ranges_setLocked [OF assms(1)] assms(2) d by (simp add: counts_ok_def)
  then have "0 \<le> gm_or 0 (lm_clientLocks m) (Client o') + d"
    using client_ranges_nonneg by metis
  moreover have "client_ranges c (setLocked o' p rs d m) = client_ranges c m" if "c \<noteq> Client o'" for c
    using client_ranges_setLocked [OF assms(1)] that by simp
  ultimately show ?thesis
    using assms(2) new unfolding counts_ok_def
    by (auto simp: setLocked_def Let_def gm_or_set gm_or_del split: if_splits)
qed

section \<open>conflictLocked\<close>

definition lock_key :: "Lock \<Rightarrow> u64 \<times> string \<times> string" where
  "lock_key l = (Start l, Client (lock_owner l), ID (lock_owner l))"

definition lock_of :: "Owner \<Rightarrow> held \<Rightarrow> Lock" where
  "lock_of owner h = \<lparr>Start = Start h, End = End h, lock_mode = mode h, lock_owner = owner\<rparr>"

lemma lock_of_simps [simp]:
  "Start (lock_of q h) = Start h" "End (lock_of q h) = End h"
  "lock_mode (lock_of q h) = mode h" "lock_owner (lock_of q h) = q"
  by (simp_all add: lock_of_def)

text \<open>The locks of other owners that stand in the way of a request.\<close>

definition conflicting :: "Owner \<Rightarrow> string \<Rightarrow> Range \<Rightarrow> Mode \<Rightarrow> LockManager \<Rightarrow> Lock set" where
  "conflicting owner path r md m =
     {lock_of other h | other h. other \<noteq> owner \<and> h \<in> set (ranges_at m path other) \<and>
        overlaps h r \<and> \<not> compatible (mode h) md}"

lemma conflict_step_eq:
  "conflict_step r md other h found =
     (if overlaps h r \<and> \<not> compatible (mode h) md \<and>
         (case found of None \<Rightarrow> True | Some f \<Rightarrow> lock_key (lock_of other h) < lock_key f)
      then Some (lock_of other h) else found)"
proof -
  have "lock_key (lock_of other h) < lock_key f \<longleftrightarrow>
      Start h < Start f \<or> (Start h = Start f \<and> lessOwner other (lock_owner f))" for f
    by (auto simp: lock_key_def lessOwner_def less_prod_def' order.strict_iff_order)
  then show ?thesis
    by (auto simp: conflict_step_def compatible_def lock_of_def split: option.splits)
qed

definition least_lock :: "Lock set \<Rightarrow> Lock option \<Rightarrow> bool" where
  "least_lock S found \<longleftrightarrow>
     (case found of
        None \<Rightarrow> S = {}
      | Some l \<Rightarrow> l \<in> S \<and> (\<forall>l' \<in> S. lock_key l \<le> lock_key l'))"

lemma least_lock_step:
  assumes "least_lock S found"
  shows "least_lock (S \<union> {lock_of q h | h. h = k \<and> overlaps h r \<and> \<not> compatible (mode h) md})
    (conflict_step r md q k found)"
  using assms
  by (auto simp: conflict_step_eq least_lock_def split: option.splits dest: leI less_imp_le
      order.trans [OF less_imp_le])

lemma least_lock_ranges:
  "least_lock S found \<Longrightarrow>
   least_lock (S \<union> {lock_of q h | h. h \<in> set hs \<and> overlaps h r \<and> \<not> compatible (mode h) md})
     (fold (conflict_step r md q) hs found)"
proof (induction hs arbitrary: S found)
  case Nil
  then show ?case by simp
next
  case (Cons k hs)
  show ?case
    using Cons.IH [OF least_lock_step [OF Cons.prems, of q k r md]]
    by (simp add: Un_assoc) (rule back_subst [of "\<lambda>T. least_lock T _"], assumption, auto)
qed

lemma least_lock_owners:
  "least_lock S found \<Longrightarrow>
   least_lock (S \<union> {lock_of q h | q h hs. (q, hs) \<in> set owners \<and> q \<noteq> owner \<and> h \<in> set hs \<and>
       overlaps h r \<and> \<not> compatible (mode h) md})
     (fold (\<lambda>(other, ranges) found.
        if other = owner then found else fold (conflict_step r md other) ranges found) owners found)"
proof (induction owners arbitrary: S found)
  case Nil
  then show ?case by simp
next
  case (Cons e owners)
  obtain q hs where e: "e = (q, hs)" by (cases e)
  show ?case
  proof (cases "q = owner")
    case True
    with Cons.IH [OF Cons.prems] e show ?thesis
      by simp (rule back_subst [of "\<lambda>T. least_lock T _"], assumption, auto)
  next
    case False
    with Cons.IH [OF least_lock_ranges [OF Cons.prems, of q hs r md]] e show ?thesis
      by simp (rule back_subst [of "\<lambda>T. least_lock T _"], assumption, auto)
  qed
qed

lemma gm_wf_owners_at: "files_ok m \<Longrightarrow> gm_wf (owners_at m p)"
  by (cases "gm_get (lm_files m) p") (auto simp: owners_at_def files_ok_def)

lemma wf_ranges_at: "files_ok m \<Longrightarrow> wf_ranges (ranges_at m p q)"
  by (cases "gm_get (lm_files m) p"; cases "gm_get (owners_at m p) q")
    (auto simp: ranges_at_def owners_at_def files_ok_def)

lemma least_conflictLocked:
  assumes "files_ok m"
  shows "least_lock (conflicting owner path r md m) (conflictLocked owner path r md m)"
proof -
  have "conflicting owner path r md m =
      {lock_of q h | q h hs. (q, hs) \<in> set (owners_at m path) \<and> q \<noteq> owner \<and> h \<in> set hs \<and>
         overlaps h r \<and> \<not> compatible (mode h) md}"
    using gm_in_iff [OF gm_wf_owners_at [OF assms, of path]]
    by (fastforce simp: conflicting_def ranges_at_def gm_or_def split: option.splits)
  then show ?thesis
    using least_lock_owners [of "{}" None "owners_at m path" owner r md]
    by (simp add: conflictLocked_def least_lock_def)
qed

lemma lock_key_inj:
  assumes "files_ok m" and "l \<in> conflicting owner path r md m" "l' \<in> conflicting owner path r md m"
    and "lock_key l = lock_key l'"
  shows "l = l'"
proof -
  obtain q h h' where q: "l = lock_of q h" "l' = lock_of q h'" "Start h = Start h'"
    "h \<in> set (ranges_at m path q)" "h' \<in> set (ranges_at m path q)"
    using assms(2-4) by (auto simp: conflicting_def lock_key_def dest!: Owner.equality)
  have dis: "disjoint_ranges (ranges_at m path q)"
    by (intro wf_ranges_disjoint wf_ranges_at assms(1))
  have "covers h (Start h)" "covers h' (Start h)"
    using disjoint_ranges_nonempty [OF dis q(4)] disjoint_ranges_nonempty [OF dis q(5)] q(3)
    by (auto simp: covers_def)
  with disjoint_ranges_unique [OF dis] q show ?thesis by blast
qed

lemma conflictLocked_unique:
  assumes "files_ok m" and "least_lock (conflicting owner path r md m) found"
  shows "conflictLocked owner path r md m = found"
  using least_conflictLocked [OF assms(1), of owner path r md] assms(2)
  by (cases "conflictLocked owner path r md m"; cases found)
    (auto simp: least_lock_def intro!: lock_key_inj [OF assms(1)] antisym)

lemma conflicting_byte_conflict:
  assumes "files_ok m" and "Start r < End r"
  shows "conflicting owner path r md m \<noteq> {} \<longleftrightarrow> byte_conflict (byte_locks_of m) owner path r md"
proof -
  have "(\<exists>h \<in> set (ranges_at m path q). overlaps h r \<and> \<not> compatible (mode h) md) \<longleftrightarrow>
      (\<exists>b md'. covers r b \<and> byte_locks_of m path q b = Some md' \<and> \<not> compatible md' md)" for q
  proof -
    have dis: "disjoint_ranges (ranges_at m path q)"
      by (intro wf_ranges_disjoint wf_ranges_at assms(1))
    have "overlaps h r \<longleftrightarrow> (\<exists>b. covers h b \<and> covers r b)" if "h \<in> set (ranges_at m path q)" for h
      by (rule overlaps_iff_covers [OF disjoint_ranges_nonempty [OF dis that] assms(2)])
    then show ?thesis
      by (auto simp: byte_locks_of_def mode_at_Some_iff [OF dis])
  qed
  moreover have "conflicting owner path r md m \<noteq> {} \<longleftrightarrow> (\<exists>q. q \<noteq> owner \<and>
      (\<exists>h \<in> set (ranges_at m path q). overlaps h r \<and> \<not> compatible (mode h) md))"
    unfolding conflicting_def by blast
  ultimately show ?thesis
    unfolding byte_conflict_def by simp
qed

lemma conflictLocked_None_iff:
  assumes "files_ok m" and "Start r < End r"
  shows "conflictLocked owner path r md m = None \<longleftrightarrow> \<not> byte_conflict (byte_locks_of m) owner path r md"
  using least_conflictLocked [OF assms(1), of owner path r md] conflicting_byte_conflict [OF assms]
  by (cases "conflictLocked owner path r md m") (auto simp: least_lock_def)

section \<open>Every operation keeps the invariant and refines the byte-wise table\<close>

lemma lock_inv_NewLockManager: "lock_inv (NewLockManager opts)"
  by (auto simp: lock_inv_def lock_inv_defs NewLockManager_def owned_paths_def ranges_at_def
      owners_at_def gm_or_def gm_has_def client_ranges_def byte_locks_of_def exclusion_def gm_wf_def)

lemma lock_inv_setLocked:
  assumes "lock_inv m" and "wf_ranges rs"
    and "exclusion (byte_locks_of (setLocked owner path rs d m))"
    and "d = int (length rs) - int (length (ranges_at m path owner))"
  shows "lock_inv (setLocked owner path rs d m)"
  using assms
  by (simp add: lock_inv_def files_ok_setLocked index_ok_setLocked counts_ok_setLocked)

lemma byte_locks_setLocked:
  "byte_locks_of (setLocked owner path rs d m) =
     (byte_locks_of m)(path := (byte_locks_of m path)(owner := mode_at rs))"
  by (rule ext)+ (simp add: byte_locks_of_def ranges_at_setLocked)

lemma compatible_sym: "compatible a b \<longleftrightarrow> compatible b a"
  by (auto simp: compatible_def)

lemma exclusion_locked:
  assumes "exclusion A" and "\<not> byte_conflict A owner path r md"
  shows "exclusion (locked owner path r md A)"
  using assms unfolding exclusion_def locked_def byte_conflict_def
  by (auto split: if_splits) (metis compatible_sym)+

lemma exclusion_unlocked: "exclusion A \<Longrightarrow> exclusion (unlocked owner path r A)"
  unfolding exclusion_def unlocked_def by (auto split: if_splits)

lemma exclusion_released: "exclusion A \<Longrightarrow> exclusion (released P A)"
  unfolding exclusion_def released_def by (auto split: if_splits)

lemma validate_None: "validate r md = None \<longleftrightarrow> Start r < End r \<and> valid_mode md"
  by (auto simp: validate_def valid_mode_def not_le)

text \<open>The table after a grant, written with \<^const>\<open>relock\<close>.\<close>

definition granted :: "Owner \<Rightarrow> string \<Rightarrow> Range \<Rightarrow> Mode \<Rightarrow> LockManager \<Rightarrow> LockManager" where
  "granted owner path r md m =
     (let after = relock (ranges_at m path owner) r md
      in setLocked owner path after (int (length after) - int (length (ranges_at m path owner))) m)"

lemma byte_locks_granted:
  assumes "files_ok m" "Start r < End r"
  shows "byte_locks_of (granted owner path r md m) = locked owner path r md (byte_locks_of m)"
  using mode_at_relock [OF wf_ranges_at [OF assms(1), of path owner] assms(2), of md]
  by (auto simp: granted_def Let_def byte_locks_setLocked locked_def byte_locks_of_def fun_eq_iff)

lemma lock_inv_granted:
  assumes "lock_inv m" "Start r < End r" "valid_mode md"
    and "\<not> byte_conflict (byte_locks_of m) owner path r md"
  shows "lock_inv (granted owner path r md m)"
proof -
  have f: "files_ok m" and x: "exclusion (byte_locks_of m)"
    using assms(1) by (auto simp: lock_inv_def)
  show ?thesis
    unfolding granted_def Let_def
    using byte_locks_granted [OF f assms(2), of owner path md] exclusion_locked [OF x assms(4)]
    by (intro lock_inv_setLocked assms(1) wf_ranges_relock assms(2,3) wf_ranges_at f refl)
      (simp add: granted_def Let_def)
qed

lemma LockManager_Lock_eq:
  "LockManager_Lock owner path r md m =
     (case validate r md of
        Some e \<Rightarrow> (Inl e, m)
      | None \<Rightarrow>
          (case conflictLocked owner path r md m of
             Some c \<Rightarrow> (Inr (Some c), m)
           | None \<Rightarrow>
               let delta = int (length (relock (ranges_at m path owner) r md))
                     - int (length (ranges_at m path owner))
               in if delta > 0 \<and>
                     (fileLockCountLocked path m + delta > maxLocksPerFile m \<or>
                      gm_or 0 (lm_clientLocks m) (Client owner) + delta > maxLocksPerClient m)
                  then (Inl ErrLimit, m)
                  else (Inr None, granted owner path r md m)))"
  unfolding LockManager_Lock_def granted_def relock_def Let_def ..

lemma lock_inv_Lock: "lock_inv m \<Longrightarrow> lock_inv (snd (LockManager_Lock owner path r md m))"
  by (auto simp: LockManager_Lock_eq Let_def validate_None conflictLocked_None_iff lock_inv_granted
      lock_inv_def [of m] split: option.split)

lemma Unlock_refines:
  assumes "Start r < End r"
  shows "byte_locks_of (snd (LockManager_Unlock owner path r m)) = unlocked owner path r (byte_locks_of m)"
  using assms
  by (auto simp: LockManager_Unlock_def Let_def ranges_at_setLocked unlocked_def byte_locks_of_def
      mode_at_subtract fun_eq_iff not_le [symmetric])

lemma lock_inv_Unlock:
  assumes "lock_inv m"
  shows "lock_inv (snd (LockManager_Unlock owner path r m))"
proof (cases "End r \<le> Start r")
  case True
  with assms show ?thesis by (simp add: LockManager_Unlock_def)
next
  case False
  have f: "files_ok m" and x: "exclusion (byte_locks_of m)"
    using assms(1) by (auto simp: lock_inv_def)
  have r: "Start r < End r" using False by simp
  from r have "lock_inv (setLocked owner path (subtract (ranges_at m path owner) r)
     (int (length (subtract (ranges_at m path owner) r)) - int (length (ranges_at m path owner))) m)"
    using Unlock_refines [OF r, of owner path m] exclusion_unlocked [OF x, of owner path r] False
    by (intro lock_inv_setLocked assms wf_ranges_subtract r wf_ranges_at f refl)
      (simp add: LockManager_Unlock_def Let_def)
  with False show ?thesis by (simp add: LockManager_Unlock_def Let_def)
qed

lemma lock_inv_drop:
  assumes "lock_inv m"
  shows "lock_inv (setLocked owner path [] (- int (length (ranges_at m path owner))) m)"
proof -
  have "exclusion ((byte_locks_of m)(path := (byte_locks_of m path)(owner := mode_at [])))"
    using assms unfolding lock_inv_def exclusion_def by (auto split: if_splits)
  then show ?thesis
    by (intro lock_inv_setLocked assms) (auto simp: byte_locks_setLocked)
qed

lemma release_paths:
  "lock_inv m \<Longrightarrow>
   (let m' = fold (\<lambda>path m'. setLocked owner path [] (- int (length (ranges_at m' path owner))) m') paths m
    in lock_inv m' \<and>
       (\<forall>p q. ranges_at m' p q = (if q = owner \<and> p \<in> set paths then [] else ranges_at m p q)))"
proof (induction paths arbitrary: m)
  case Nil
  then show ?case by simp
next
  case (Cons path paths)
  from Cons.IH [OF lock_inv_drop [OF Cons.prems, of owner path]]
  show ?case by (auto simp: Let_def ranges_at_setLocked)
qed

lemma releaseOwnerLocked_ranges:
  assumes "lock_inv m"
  shows "lock_inv (releaseOwnerLocked owner m)"
    and "ranges_at (releaseOwnerLocked owner m) p q = (if q = owner then [] else ranges_at m p q)"
proof -
  have "p \<in> set (gm_keys (owned_paths m owner)) \<longleftrightarrow> ranges_at m p owner \<noteq> []" for p
    using assms by (simp add: lock_inv_def index_ok_def gm_has_keys)
  with release_paths [OF assms, of owner "gm_keys (owned_paths m owner)"]
  show "lock_inv (releaseOwnerLocked owner m)"
    and "ranges_at (releaseOwnerLocked owner m) p q = (if q = owner then [] else ranges_at m p q)"
    by (auto simp: releaseOwnerLocked_def owned_paths_def Let_def)
qed

lemma release_owners:
  "lock_inv m \<Longrightarrow>
   (let m' = fold (\<lambda>owner m'. if Client owner = client then releaseOwnerLocked owner m' else m') qs m
    in lock_inv m' \<and>
       (\<forall>p q. ranges_at m' p q = (if q \<in> set qs \<and> Client q = client then [] else ranges_at m p q)))"
proof (induction qs arbitrary: m)
  case Nil
  then show ?case by simp
next
  case (Cons o' qs)
  from Cons.IH [OF Cons.prems] Cons.IH [OF releaseOwnerLocked_ranges(1) [OF Cons.prems, of o']]
  show ?case by (auto simp: Let_def releaseOwnerLocked_ranges(2) [OF Cons.prems])
qed

lemma ReleaseClient_ranges:
  assumes "lock_inv m"
  shows "lock_inv (LockManager_ReleaseClient client m)"
    and "ranges_at (LockManager_ReleaseClient client m) p q =
      (if Client q = client then [] else ranges_at m p q)"
proof -
  have "ranges_at m p q = []" if "q \<notin> set (gm_keys (lm_owned m))" for p q
  proof -
    have "\<not> gm_has (owned_paths m q) p"
      using that map_of_eq_None_iff [of "lm_owned m" q]
      by (auto simp: owned_paths_def gm_or_def gm_has_def)
    with assms show ?thesis by (simp add: lock_inv_def index_ok_def)
  qed
  with release_owners [OF assms, of client "gm_keys (lm_owned m)"]
  show "lock_inv (LockManager_ReleaseClient client m)"
    and "ranges_at (LockManager_ReleaseClient client m) p q =
      (if Client q = client then [] else ranges_at m p q)"
    by (auto simp: LockManager_ReleaseClient_def Let_def)
qed

section \<open>Reachable tables\<close>

inductive lock_step :: "LockManager \<Rightarrow> LockManager \<Rightarrow> bool" where
  step_Lock: "lock_step m (snd (LockManager_Lock owner path r md m))"
| step_Unlock: "lock_step m (snd (LockManager_Unlock owner path r m))"
| step_ReleaseOwner: "lock_step m (LockManager_ReleaseOwner owner m)"
| step_ReleaseClient: "lock_step m (LockManager_ReleaseClient client m)"

inductive lock_reachable :: "LockOptions \<Rightarrow> LockManager \<Rightarrow> bool" for opts where
  reach_New: "lock_reachable opts (NewLockManager opts)"
| reach_step: "lock_reachable opts m \<Longrightarrow> lock_step m m' \<Longrightarrow> lock_reachable opts m'"

inductive_cases lock_stepE: "lock_step m m'"

lemma lock_inv_step: "lock_step m m' \<Longrightarrow> lock_inv m \<Longrightarrow> lock_inv m'"
  by (erule lock_stepE)
    (simp_all add: lock_inv_Lock lock_inv_Unlock LockManager_ReleaseOwner_def
      releaseOwnerLocked_ranges(1) ReleaseClient_ranges(1))

lemma lock_reachable_inv: "lock_reachable opts m \<Longrightarrow> lock_inv m"
  by (induction rule: lock_reachable.induct) (auto intro: lock_inv_NewLockManager lock_inv_step)

section \<open>The interface the protocol servers rely on\<close>

text \<open>
  What a protocol server may assume of a byte-range lock table: which requests are granted,
  that a denied request changes nothing, and what the releases drop.
\<close>

locale byte_lock_table =
  fixes inv :: "'t \<Rightarrow> bool"
    and held_at :: "'t \<Rightarrow> byte_locks"
    and try_lock :: "Owner \<Rightarrow> string \<Rightarrow> Range \<Rightarrow> Mode \<Rightarrow> 't \<Rightarrow> (lock_error + Lock option) \<times> 't"
    and unlock :: "Owner \<Rightarrow> string \<Rightarrow> Range \<Rightarrow> 't \<Rightarrow> lock_error option \<times> 't"
    and release_client :: "string \<Rightarrow> 't \<Rightarrow> 't"
  assumes exclusive: "inv t \<Longrightarrow> exclusion (held_at t)"
    and lock_inv': "inv t \<Longrightarrow> inv (snd (try_lock q p r md t))"
    and unlock_inv': "inv t \<Longrightarrow> inv (snd (unlock q p r t))"
    and release_inv': "inv t \<Longrightarrow> inv (release_client c t)"
    and lock_granted: "inv t \<Longrightarrow> fst (try_lock q p r md t) = Inr None \<Longrightarrow>
      held_at (snd (try_lock q p r md t)) = locked q p r md (held_at t)"
    and lock_refused: "fst (try_lock q p r md t) \<noteq> Inr None \<Longrightarrow> snd (try_lock q p r md t) = t"
    and lock_conflict: "inv t \<Longrightarrow> Start r < End r \<Longrightarrow> valid_mode md \<Longrightarrow>
      (\<exists>c. fst (try_lock q p r md t) = Inr (Some c)) \<longleftrightarrow> byte_conflict (held_at t) q p r md"
    and unlocked_bytes: "inv t \<Longrightarrow> Start r < End r \<Longrightarrow>
      held_at (snd (unlock q p r t)) = unlocked q p r (held_at t)"
    and released_client: "inv t \<Longrightarrow>
      held_at (release_client c t) = released (\<lambda>q. Client q = c) (held_at t)"
begin

lemma exclusive_blocks:
  assumes "inv t" and "fst (try_lock q p r Exclusive t) = Inr None"
    and "q' \<noteq> q" "Start r' < End r'" "valid_mode md" "covers r b" "covers r' b"
  shows "\<exists>c. fst (try_lock q' p r' md (snd (try_lock q p r Exclusive t))) = Inr (Some c)"
proof -
  let ?t = "snd (try_lock q p r Exclusive t)"
  have "byte_conflict (held_at ?t) q' p r' md"
    using assms(3,6,7) unfolding lock_granted [OF assms(1,2)] byte_conflict_def locked_def
    by (auto simp: compatible_def Shared_def Exclusive_def intro!: exI [of _ q] exI [of _ b])
  then show ?thesis
    using lock_conflict [OF lock_inv' [OF assms(1)] assms(4,5)] by blast
qed

lemma release_unblocks:
  assumes "inv t" "Start r < End r" "valid_mode md"
    and "\<And>q' b md'. q' \<noteq> q \<Longrightarrow> covers r b \<Longrightarrow> held_at t p q' b = Some md' \<Longrightarrow> \<not> compatible md' md
      \<Longrightarrow> Client q' = c"
  shows "\<nexists>l. fst (try_lock q p r md (release_client c t)) = Inr (Some l)"
  unfolding lock_conflict [OF release_inv' [OF assms(1)] assms(2,3)]
  unfolding byte_conflict_def released_client [OF assms(1)] released_def
  using assms(4) by (auto split: if_splits)

end

lemma Lock_fst_conflict:
  assumes "lock_inv m" "Start r < End r" "valid_mode md"
  shows "(\<exists>c. fst (LockManager_Lock owner path r md m) = Inr (Some c)) \<longleftrightarrow>
    byte_conflict (byte_locks_of m) owner path r md"
proof -
  have f: "files_ok m" using assms(1) by (simp add: lock_inv_def)
  have v: "validate r md = None" using assms by (simp add: validate_None)
  show ?thesis
    using conflictLocked_None_iff [OF f assms(2), of owner path md]
    by (auto simp: LockManager_Lock_eq v Let_def split: option.split)
qed

lemma Lock_fst_granted:
  assumes "lock_inv m" and "fst (LockManager_Lock owner path r md m) = Inr None"
  shows "byte_locks_of (snd (LockManager_Lock owner path r md m)) =
    locked owner path r md (byte_locks_of m)"
  using assms validate_None [of r md]
  by (cases "validate r md")
    (auto simp: LockManager_Lock_eq Let_def lock_inv_def byte_locks_granted
      split: option.splits if_splits)

lemma Lock_fst_refused:
  "fst (LockManager_Lock owner path r md m) \<noteq> Inr None \<Longrightarrow> snd (LockManager_Lock owner path r md m) = m"
  by (auto simp: LockManager_Lock_eq Let_def split: option.splits if_splits)

lemma ReleaseClient_refines:
  "lock_inv m \<Longrightarrow> byte_locks_of (LockManager_ReleaseClient client m) =
     released (\<lambda>q. Client q = client) (byte_locks_of m)"
  by (rule ext)+ (simp add: byte_locks_of_def released_def ReleaseClient_ranges(2))

lemma ReleaseOwner_refines:
  "lock_inv m \<Longrightarrow> byte_locks_of (LockManager_ReleaseOwner owner m) =
     released (\<lambda>q. q = owner) (byte_locks_of m)"
  by (rule ext)+ (simp add: byte_locks_of_def released_def LockManager_ReleaseOwner_def
      releaseOwnerLocked_ranges(2))

interpretation shared_locks: byte_lock_table lock_inv byte_locks_of LockManager_Lock
  LockManager_Unlock LockManager_ReleaseClient
  by unfold_locales
    (auto simp: lock_inv_Lock lock_inv_Unlock ReleaseClient_ranges(1) Lock_fst_granted
      Lock_fst_refused Lock_fst_conflict Unlock_refines ReleaseClient_refines,
     simp add: lock_inv_def)

section \<open>Counting against the caps\<close>

lemma fileLockCount_setLocked:
  assumes "files_ok m"
  shows "fileLockCountLocked path (setLocked owner path rs d m) =
    fileLockCountLocked path m + int (length rs) - int (length (ranges_at m path owner))"
proof -
  let ?f = "\<lambda>(other :: Owner, ranges :: held list). int (length ranges)"
  have "ranges_at m path owner = (case gm_get (owners_at m path) owner of None \<Rightarrow> [] | Some hs \<Rightarrow> hs)"
    by (simp add: ranges_at_def gm_or_def)
  then show ?thesis
    using gm_sum_remove [OF gm_wf_owners_at [OF assms, of path], where f = ?f and k = owner]
      gm_sum_set [OF gm_wf_owners_at [OF assms, of path], where f = ?f and k = owner and v = rs]
      gm_get_None_del [of "owners_at m path" owner]
    by (auto simp: fileLockCountLocked_def owners_at_setLocked split: option.splits)
qed

lemma clientLocks_setLocked:
  assumes "lock_inv m" and "lock_inv (setLocked owner path rs d m)"
    and "d = int (length rs) - int (length (ranges_at m path owner))"
  shows "gm_or 0 (lm_clientLocks (setLocked owner path rs d m)) (Client owner) =
    gm_or 0 (lm_clientLocks m) (Client owner) + d"
  using assms client_ranges_setLocked [of m "Client owner" owner path rs d]
  by (simp add: lock_inv_def counts_ok_def)

section \<open>Properties\<close>

text \<open>Two owners and a table used by the examples.\<close>

definition nfs_owner :: Owner where
  "nfs_owner = \<lparr>Client = ''nfs'', ID = ''1''\<rparr>"

definition smb_owner :: Owner where
  "smb_owner = \<lparr>Client = ''smb'', ID = ''7''\<rparr>"

definition byte_range :: "u64 \<Rightarrow> u64 \<Rightarrow> Range" where
  "byte_range a b = \<lparr>Start = a, End = b\<rparr>"

definition sample_table :: "int \<Rightarrow> LockManager" where
  "sample_table cap =
     snd (LockManager_Lock nfs_owner ''f'' (byte_range 0 10) Exclusive
       (NewLockManager \<lparr>MaxLocksPerFile = cap, MaxLocksPerClient = cap\<rparr>))"

lemma reachable_sample_table:
  "lock_reachable \<lparr>MaxLocksPerFile = cap, MaxLocksPerClient = cap\<rparr> (sample_table cap)"
  unfolding sample_table_def by (intro reach_step [OF reach_New] step_Lock)

text \<open>
  C11: in every table that the operations can produce, two owners never hold conflicting modes
  on one byte of a file, every owner's ranges are non-empty, sorted and disjoint, the index of
  owned paths lists exactly the paths with ranges, and every client's count is the number
  of ranges its owners hold.
\<close>

theorem lock_table_invariant:
  assumes "lock_reachable opts m"
  shows "lock_inv m"
  using assms by (rule lock_reachable_inv)

theorem lock_table_invariant_witness:
  "lock_inv (sample_table 4) \<and> length (ranges_at (sample_table 4) ''f'' nfs_owner) = 1"
proof
  show "lock_inv (sample_table 4)"
    by (rule lock_table_invariant [OF reachable_sample_table])
  show "length (ranges_at (sample_table 4) ''f'' nfs_owner) = 1"
    by code_simp
qed

text \<open>
  C12: a lock request on a reachable table is refused as invalid exactly for an empty range or
  an unknown mode, is denied with a conflict exactly when another owner holds an incompatible
  mode on one of the bytes, sets exactly the requested bytes of the owner when granted, and
  changes nothing otherwise.
\<close>

theorem Lock_refines:
  assumes "lock_reachable opts m" and "LockManager_Lock owner path r md m = (res, m')"
  shows "(res = Inl ErrInvalid \<longleftrightarrow> End r \<le> Start r \<or> \<not> valid_mode md) \<and>
    ((\<exists>c. res = Inr (Some c)) \<longleftrightarrow>
       Start r < End r \<and> valid_mode md \<and> byte_conflict (byte_locks_of m) owner path r md) \<and>
    (res = Inr None \<longrightarrow> byte_locks_of m' = locked owner path r md (byte_locks_of m)) \<and>
    (res \<noteq> Inr None \<longrightarrow> m' = m)"
proof -
  have inv: "lock_inv m" using assms(1) by (rule lock_reachable_inv)
  have "(res = Inl ErrInvalid \<longleftrightarrow> validate r md \<noteq> None)"
    "(\<exists>c. res = Inr (Some c)) \<Longrightarrow> validate r md = None"
    using assms(2) by (auto simp: LockManager_Lock_eq Let_def validate_def split: option.splits if_splits)
  then show ?thesis
    using Lock_fst_conflict [OF inv, of r md owner path] Lock_fst_granted [OF inv, of owner path r md]
      Lock_fst_refused [of owner path r md m] assms(2) validate_None [of r md]
    by (auto simp: not_le)
qed

theorem Lock_refines_witness:
  "fst (LockManager_Lock smb_owner ''f'' (byte_range 9 12) Shared (sample_table 4)) \<noteq> Inr None \<and>
   byte_conflict (byte_locks_of (sample_table 4)) smb_owner ''f'' (byte_range 9 12) Shared"
proof -
  let ?t = "LockManager_Lock smb_owner ''f'' (byte_range 9 12) Shared (sample_table 4)"
  have "fst ?t = Inr (Some \<lparr>Start = 0, End = 10, lock_mode = Exclusive, lock_owner = nfs_owner\<rparr>)"
    by code_simp
  with Lock_refines [OF reachable_sample_table [of 4], of smb_owner "''f''" "byte_range 9 12" Shared
      "fst ?t" "snd ?t"] show ?thesis by (auto simp: prod_eq_iff)
qed

text \<open>
  C29: the conflict a test reports is a lock another owner really holds, with the lowest start and
  then the least owner among the conflicting ones; two reachable tables in which the owners
  hold the same ranges on the path report the same conflict, whatever the order
  in which their maps are iterated.
\<close>

theorem Test_deterministic:
  assumes "lock_reachable opts m" and "lock_reachable opts' m'"
    and "\<And>q. ranges_at m' path q = ranges_at m path q"
  shows "LockManager_Test owner path r md m' = LockManager_Test owner path r md m \<and>
    (\<forall>c. LockManager_Test owner path r md m = Inr (Some c) \<longrightarrow>
       c \<in> conflicting owner path r md m \<and>
       (\<forall>l \<in> conflicting owner path r md m. lock_key c \<le> lock_key l))"
proof -
  have f: "files_ok m" "files_ok m'"
    using assms(1,2) [THEN lock_reachable_inv] by (simp_all add: lock_inv_def)
  have "conflicting owner path r md m' = conflicting owner path r md m"
    by (simp add: conflicting_def assms(3))
  then have eq: "conflictLocked owner path r md m' = conflictLocked owner path r md m"
    using least_conflictLocked [OF f(1), of owner path r md] by (simp add: conflictLocked_unique [OF f(2)])
  show ?thesis
    using least_conflictLocked [OF f(1), of owner path r md]
    by (auto simp: LockManager_Test_def eq least_lock_def split: option.splits)
qed

theorem Test_deterministic_witness:
  "\<exists>c. LockManager_Test smb_owner ''f'' (byte_range 9 12) Shared (sample_table 4) = Inr (Some c) \<and>
     c \<in> conflicting smb_owner ''f'' (byte_range 9 12) Shared (sample_table 4)"
proof -
  have "LockManager_Test smb_owner ''f'' (byte_range 9 12) Shared (sample_table 4) =
      Inr (Some \<lparr>Start = 0, End = 10, lock_mode = Exclusive, lock_owner = nfs_owner\<rparr>)"
    by code_simp
  with Test_deterministic [OF reachable_sample_table [of 4] reachable_sample_table [of 4] refl]
  show ?thesis by blast
qed

text \<open>
  C27: on a reachable table an unlock of a non-empty range releases exactly those bytes of the
  owner, releasing an owner drops exactly that owner's bytes on every file, and releasing a
  client drops exactly the bytes of all the owners of that client.
\<close>

theorem release_refines:
  assumes "lock_reachable opts m" and "Start r < End r"
  shows "byte_locks_of (snd (LockManager_Unlock owner path r m)) = unlocked owner path r (byte_locks_of m) \<and>
    byte_locks_of (LockManager_ReleaseOwner owner m) = released (\<lambda>q. q = owner) (byte_locks_of m) \<and>
    byte_locks_of (LockManager_ReleaseClient client m) =
      released (\<lambda>q. Client q = client) (byte_locks_of m)"
  using lock_reachable_inv [OF assms(1)] Unlock_refines [OF assms(2)]
  by (simp add: ReleaseOwner_refines ReleaseClient_refines)

theorem release_refines_witness:
  "byte_locks_of (sample_table 4) ''f'' nfs_owner 3 = Some Exclusive \<and>
   byte_locks_of (snd (LockManager_Unlock nfs_owner ''f'' (byte_range 2 5) (sample_table 4)))
     ''f'' nfs_owner 3 = None"
proof
  show "byte_locks_of (sample_table 4) ''f'' nfs_owner 3 = Some Exclusive"
    by code_simp
  have "Start (byte_range 2 5) < End (byte_range 2 5)" "covers (byte_range 2 5) 3"
    by code_simp+
  with release_refines [OF reachable_sample_table [of 4], of "byte_range 2 5"]
  show "byte_locks_of (snd (LockManager_Unlock nfs_owner ''f'' (byte_range 2 5) (sample_table 4)))
      ''f'' nfs_owner 3 = None"
    by (simp add: unlocked_def)
qed

text \<open>
  C32: a granted lock never takes a file or a client above its cap: after the grant the number of
  ranges on the file, and of the client, is within the cap or not more than it was before.
\<close>

theorem Lock_caps:
  assumes "lock_reachable opts m" and "LockManager_Lock owner path r md m = (Inr None, m')"
  shows "fileLockCountLocked path m' \<le> max (maxLocksPerFile m) (fileLockCountLocked path m) \<and>
    client_ranges (Client owner) m' \<le> max (maxLocksPerClient m) (client_ranges (Client owner) m)"
proof -
  have inv: "lock_inv m" using assms(1) by (rule lock_reachable_inv)
  have m': "m' = granted owner path r md m"
    using assms(2) by (auto simp: LockManager_Lock_eq Let_def split: option.splits if_splits)
  have "gm_or 0 (lm_clientLocks m) (Client owner) = client_ranges (Client owner) m"
    using inv by (simp add: lock_inv_def counts_ok_def)
  then show ?thesis
    using assms(2) inv unfolding m'
    by (auto simp: granted_def Let_def fileLockCount_setLocked client_ranges_setLocked lock_inv_def
        LockManager_Lock_eq split: option.splits if_splits)
qed

theorem Lock_caps_witness:
  "fst (LockManager_Lock smb_owner ''f'' (byte_range 20 30) Shared (sample_table 2)) = Inr None \<and>
   fileLockCountLocked ''f'' (snd (LockManager_Lock smb_owner ''f'' (byte_range 20 30) Shared
     (sample_table 2))) \<le> 2"
proof -
  let ?t = "LockManager_Lock smb_owner ''f'' (byte_range 20 30) Shared (sample_table 2)"
  have "fst ?t = Inr None" "maxLocksPerFile (sample_table 2) = 2"
    "fileLockCountLocked ''f'' (sample_table 2) = 1"
    by code_simp+
  with Lock_caps [OF reachable_sample_table [of 2], of smb_owner "''f''" "byte_range 20 30" Shared
      "snd ?t"] show ?thesis by (auto simp: prod_eq_iff)
qed


end
