(* ===== verification/Staging_Types.thy ===== *)
theory Staging_Types
  imports Go_Prelude
begin

text \<open>
  The data of the staging component: the attributes a staged file carries
  (\<^verbatim>\<open>src/internal/staging/attributes.go\<close>, \<^verbatim>\<open>src/pkg/types/types.go\<close>), the sidecar kept next to
  it (\<^verbatim>\<open>src/internal/staging/path_state.go\<close>), the entries of the dirty index
  (\<^verbatim>\<open>src/internal/staging/metadata.go\<close>) and the delete tombstones
  (\<^verbatim>\<open>src/internal/staging/tombstone.go\<close>); and the local disk they are stored on.
\<close>

section \<open>Attributes\<close>

type_synonym byte = "8 word"
type_synonym bytes = "byte list"
type_synonym u32 = "32 word"
type_synonym streams = "(string, bytes) gomap"

record POSIXAttributes =
  pa_Mode :: u32
  pa_UID :: int
  pa_GID :: int
  pa_Atime :: gotime
  pa_Mtime :: gotime
  pa_Ctime :: gotime
  pa_Btime :: gotime
  pa_WindowsAttributes :: u32
  pa_Streams :: streams

record StagedAttributes =
  sa_Mode :: u32
  sa_UID :: u32
  sa_GID :: u32
  sa_Btime :: gotime
  sa_WindowsAttributes :: u32
  sa_Streams :: streams
  sa_Atime :: gotime
  sa_Mtime :: gotime

text \<open>Copies do not share state in the model, so \<^verbatim>\<open>CloneStreams\<close> keeps the map as it is.\<close>

definition CloneStreams :: "streams \<Rightarrow> streams" where
  "CloneStreams streams = (if streams = [] then [] else map (\<lambda>(name, data). (name, data)) streams)"

lemma CloneStreams_id [simp]: "CloneStreams s = s"
  by (simp add: CloneStreams_def)

definition StagedAttributesFrom :: "POSIXAttributes \<Rightarrow> StagedAttributes" where
  "StagedAttributesFrom a =
     \<lparr>sa_Mode = pa_Mode a, sa_UID = word_of_int (pa_UID a), sa_GID = word_of_int (pa_GID a),
      sa_Btime = pa_Btime a, sa_WindowsAttributes = pa_WindowsAttributes a,
      sa_Streams = CloneStreams (pa_Streams a), sa_Atime = pa_Atime a, sa_Mtime = pa_Mtime a\<rparr>"

definition StagedAttributes_POSIX :: "StagedAttributes \<Rightarrow> POSIXAttributes" where
  "StagedAttributes_POSIX a =
     \<lparr>pa_Mode = sa_Mode a, pa_UID = uint (sa_UID a), pa_GID = uint (sa_GID a),
      pa_Atime = sa_Atime a, pa_Mtime = sa_Mtime a, pa_Ctime = 0, pa_Btime = sa_Btime a,
      pa_WindowsAttributes = sa_WindowsAttributes a, pa_Streams = CloneStreams (sa_Streams a)\<rparr>"

lemma StagedAttributes_roundtrip: "StagedAttributesFrom (StagedAttributes_POSIX a) = a"
  by (simp add: StagedAttributesFrom_def StagedAttributes_POSIX_def)

section \<open>Sidecars, dirty entries, conflicts and tombstones\<close>

definition pathMetadataVersion :: int where
  "pathMetadataVersion = 1"

definition ConflictStatusNone :: string where
  "ConflictStatusNone = ''none''"

definition ConflictStatusConflicted :: string where
  "ConflictStatusConflicted = ''conflicted''"

record PathMetadataState =
  ps_Version :: int
  ps_OriginalPath :: string
  ps_ObjectKey :: string
  ps_ObservedETag :: string
  ps_ObservedSize :: int
  ps_ObservedLastModified :: gotime
  ps_StagedFilePath :: string
  ps_ConflictStatus :: string
  ps_DirtySince :: gotime
  ps_Attributes :: "StagedAttributes option"
  ps_Committed :: bool

text \<open>The zero value of the struct, from which the code's composite literals start.\<close>

definition zero_path_state :: PathMetadataState where
  "zero_path_state =
     \<lparr>ps_Version = 0, ps_OriginalPath = [], ps_ObjectKey = [], ps_ObservedETag = [],
      ps_ObservedSize = 0, ps_ObservedLastModified = 0, ps_StagedFilePath = [],
      ps_ConflictStatus = [], ps_DirtySince = 0, ps_Attributes = None, ps_Committed = False\<rparr>"

record DirtyFileMetadata =
  dm_Path :: string
  dm_ObjectKey :: string
  dm_ObservedETag :: string
  dm_ObservedSize :: int
  dm_ObservedLastModified :: gotime
  dm_LocalDirtyGeneration :: int
  dm_StagedPath :: string
  dm_ConflictStatus :: string
  dm_Size :: int
  dm_DirtySince :: gotime
  dm_LastModified :: gotime
  dm_SyncAttempts :: int
  dm_LastSyncError :: "string option"
  dm_recorded :: bool

definition zero_dirty :: DirtyFileMetadata where
  "zero_dirty =
     \<lparr>dm_Path = [], dm_ObjectKey = [], dm_ObservedETag = [], dm_ObservedSize = 0,
      dm_ObservedLastModified = 0, dm_LocalDirtyGeneration = 0, dm_StagedPath = [],
      dm_ConflictStatus = [], dm_Size = 0, dm_DirtySince = 0, dm_LastModified = 0,
      dm_SyncAttempts = 0, dm_LastSyncError = None, dm_recorded = False\<rparr>"

record ConflictMetadata =
  cm_Path :: string
  cm_ObjectKey :: string
  cm_Size :: int
  cm_PreservedPath :: string
  cm_PreservedMetadataPath :: string
  cm_DetectedAt :: gotime
  cm_Reason :: string
  cm_LocalDirtyGeneration :: int
  cm_StagedPath :: string
  cm_ConflictStatus :: string
  cm_ObservedETag :: string
  cm_ObservedSize :: int
  cm_ObservedLastModified :: gotime
  cm_ExternalSize :: int
  cm_ExternalETag :: string
  cm_ExternalLastModified :: gotime
  cm_ExternalDeleted :: bool

definition tombstoneVersion :: int where
  "tombstoneVersion = 1"

record TombstoneState =
  ts_Version :: int
  ts_Path :: string
  ts_ObjectKey :: string
  ts_CreatedAt :: gotime

definition objectKeyFromPath :: "string \<Rightarrow> string" where
  "objectKeyFromPath path = trim_prefix path ''/''"

end
