(* ===== verification/Staging_Disk.thy ===== *)
theory Staging_Disk
  imports Staging_Types
begin

text \<open>
  The staging directory on the local disk and the sidecar files in it
  (\<^verbatim>\<open>src/internal/staging/path_state.go\<close>). A name of the directory is a data file, held by its inode so
  that descriptors stay valid over renames and removals, or a JSON document, held decoded:
  \<^verbatim>\<open>encoding/json\<close> reads back what it wrote. A document carries whether its bytes were flushed
  before it took its name. Every system call may fail; which calls do is an argument
  of the operations.
\<close>

section \<open>The disk\<close>

datatype json_doc =
  SidecarDoc PathMetadataState
| TombstoneDoc TombstoneState
| ConflictDoc ConflictMetadata
| Garbage

datatype dir_entry = DataFile nat | DocFile json_doc bool

record Disk =
  dk_names :: "(string, dir_entry) gomap"
  dk_inodes :: "nat \<Rightarrow> bytes"
  dk_mtime :: "nat \<Rightarrow> gotime"
  dk_next :: nat

datatype os_op =
  OpOpen | OpStat | OpRead | OpWrite | OpSeek | OpTruncate | OpSync | OpClose
| OpRename | OpRemove | OpMkdirAll | OpCreateTemp | OpReadDir

datatype stg_error =
  ENotExist
| EOs os_op string
| EExist
| EDecode
| EMissingPath
| ENilState
| EConflicted
| ENoSpc
| EClosed
| EActiveSync
| ENoMetadata stg_error
| EPersist stg_error
| EEOF
| ESnapshotChanged

type_synonym faults = "os_op \<Rightarrow> string \<Rightarrow> bool"

definition no_faults :: faults where
  "no_faults op p = False"

lemma no_faults [simp]: "\<not> no_faults op p"
  by (simp add: no_faults_def)

definition empty_disk :: Disk where
  "empty_disk = \<lparr>dk_names = [], dk_inodes = (\<lambda>_. []), dk_mtime = (\<lambda>_. 0), dk_next = 0\<rparr>"

definition os_lookup :: "Disk \<Rightarrow> string \<Rightarrow> dir_entry option" where
  "os_lookup d p = gm_get (dk_names d) p"

definition data_inode :: "Disk \<Rightarrow> string \<Rightarrow> nat option" where
  "data_inode d p = (case os_lookup d p of Some (DataFile i) \<Rightarrow> Some i | _ \<Rightarrow> None)"

definition os_Remove :: "faults \<Rightarrow> string \<Rightarrow> Disk \<Rightarrow> stg_error option \<times> Disk" where
  "os_Remove fl p d =
     (if os_lookup d p = None then (Some ENotExist, d)
      else if fl OpRemove p then (Some (EOs OpRemove p), d)
      else (None, d\<lparr>dk_names := gm_del p (dk_names d)\<rparr>))"

definition os_Rename :: "faults \<Rightarrow> string \<Rightarrow> string \<Rightarrow> Disk \<Rightarrow> stg_error option \<times> Disk" where
  "os_Rename fl old new d =
     (case os_lookup d old of
        None \<Rightarrow> (Some ENotExist, d)
      | Some e \<Rightarrow>
          if fl OpRename old then (Some (EOs OpRename old), d)
          else if old = new then (None, d)
          else (None, d\<lparr>dk_names := gm_set new e (gm_del old (dk_names d))\<rparr>))"

definition put_doc :: "string \<Rightarrow> json_doc \<Rightarrow> bool \<Rightarrow> Disk \<Rightarrow> Disk" where
  "put_doc p doc durable d = d\<lparr>dk_names := gm_set p (DocFile doc durable) (dk_names d)\<rparr>"

text \<open>Ignoring a failure to remove a file that is not there, as the callers do.\<close>

definition ignore_not_exist :: "stg_error option \<Rightarrow> stg_error option" where
  "ignore_not_exist e = (if e = Some ENotExist then None else e)"

section \<open>Sidecars\<close>

definition normalize_path_state :: "PathMetadataState \<Rightarrow> PathMetadataState" where
  "normalize_path_state state =
     (let s1 = (if ps_Version state = 0 then state\<lparr>ps_Version := pathMetadataVersion\<rparr> else state);
          s2 = (if ps_ObjectKey s1 = [] then s1\<lparr>ps_ObjectKey := objectKeyFromPath (ps_OriginalPath s1)\<rparr> else s1)
      in if ps_ConflictStatus s2 = [] then s2\<lparr>ps_ConflictStatus := ConflictStatusNone\<rparr> else s2)"

definition readPathMetadataState :: "faults \<Rightarrow> string \<Rightarrow> Disk \<Rightarrow> stg_error + PathMetadataState" where
  "readPathMetadataState fl p d =
     (case os_lookup d p of
        None \<Rightarrow> Inl ENotExist
      | Some e \<Rightarrow>
          if fl OpRead p then Inl (EOs OpRead p)
          else (case e of
                  DocFile (SidecarDoc state) _ \<Rightarrow>
                    if ps_OriginalPath state = [] then Inl EMissingPath
                    else Inr (normalize_path_state state)
                | _ \<Rightarrow> Inl EDecode))"

text \<open>\<^verbatim>\<open>writeSidecarFile\<close>: a failed write leaves an incomplete file under the temporary name.\<close>

definition writeSidecarFile ::
  "faults \<Rightarrow> string \<Rightarrow> json_doc \<Rightarrow> bool \<Rightarrow> Disk \<Rightarrow> stg_error option \<times> Disk" where
  "writeSidecarFile fl p doc durable d =
     (if fl OpOpen p then (Some (EOs OpOpen p), d)
      else if fl OpWrite p then (Some (EOs OpWrite p), put_doc p Garbage False d)
      else if \<not> durable then (None, put_doc p doc False d)
      else if fl OpSync p then (Some (EOs OpSync p), put_doc p doc False d)
      else if fl OpClose p then (Some (EOs OpClose p), put_doc p doc True d)
      else (None, put_doc p doc True d))"

text \<open>Writing a document under a temporary name and renaming it into place.\<close>

definition tmp_name :: "string \<Rightarrow> string" where
  "tmp_name p = p @ ''.tmp''"

definition replace_doc ::
  "faults \<Rightarrow> string \<Rightarrow> json_doc \<Rightarrow> bool \<Rightarrow> Disk \<Rightarrow> stg_error option \<times> Disk" where
  "replace_doc fl p doc durable d =
     (if fl OpMkdirAll p then (Some (EOs OpMkdirAll p), d)
      else (case writeSidecarFile fl (tmp_name p) doc durable d of
              (Some e, d1) \<Rightarrow> (Some e, d1)
            | (None, d1) \<Rightarrow>
                (case os_Rename fl (tmp_name p) p d1 of
                   (Some e, d2) \<Rightarrow> (Some e, snd (os_Remove fl (tmp_name p) d2))
                 | (None, d2) \<Rightarrow> (None, d2))))"

text \<open>
  \<^verbatim>\<open>writePathMetadataState\<close> fills in the defaults of the state it is given, which is a
  pointer, so the completed state is returned as well.
\<close>

definition commit_sticky :: "faults \<Rightarrow> string \<Rightarrow> PathMetadataState \<Rightarrow> Disk \<Rightarrow> PathMetadataState" where
  "commit_sticky fl p state d =
     (if \<not> ps_Committed state
      then (case readPathMetadataState fl p d of
              Inr replaced \<Rightarrow> if ps_Committed replaced then state\<lparr>ps_Committed := True\<rparr> else state
            | Inl _ \<Rightarrow> state)
      else state)"

definition writePathMetadataState ::
  "faults \<Rightarrow> string \<Rightarrow> PathMetadataState option \<Rightarrow> Disk
     \<Rightarrow> stg_error option \<times> PathMetadataState option \<times> Disk" where
  "writePathMetadataState fl p st d =
     (case st of
        None \<Rightarrow> (Some ENilState, None, d)
      | Some state \<Rightarrow>
          let state' = commit_sticky fl p (normalize_path_state state) d;
              (err, d') = replace_doc fl p (SidecarDoc state') (ps_Committed state') d
          in (err, Some state', d'))"

text \<open>\<^verbatim>\<open>syncDir\<close> treats a platform that cannot flush a directory as success.\<close>

definition syncDir :: "faults \<Rightarrow> string \<Rightarrow> stg_error option" where
  "syncDir fl dir =
     (if fl OpOpen dir then Some (EOs OpOpen dir)
      else if fl OpSync dir then Some (EOs OpSync dir) else None)"

definition dirtyMetadataFromPathState ::
  "PathMetadataState \<Rightarrow> int \<Rightarrow> gotime \<Rightarrow> DirtyFileMetadata" where
  "dirtyMetadataFromPathState state sz modTime =
     zero_dirty
       \<lparr>dm_Path := ps_OriginalPath state,
        dm_ObjectKey := (if ps_ObjectKey state = [] then objectKeyFromPath (ps_OriginalPath state)
                         else ps_ObjectKey state),
        dm_ObservedETag := ps_ObservedETag state,
        dm_ObservedSize := ps_ObservedSize state,
        dm_ObservedLastModified := ps_ObservedLastModified state,
        dm_StagedPath := ps_StagedFilePath state,
        dm_ConflictStatus := ps_ConflictStatus state,
        dm_Size := sz,
        dm_DirtySince := (if is_zero_time (ps_DirtySince state) then modTime else ps_DirtySince state),
        dm_LastModified := modTime\<rparr>"

section \<open>Names\<close>

lemma os_lookup_put [simp]:
  "os_lookup (put_doc p doc b d) q = (if q = p then Some (DocFile doc b) else os_lookup d q)"
  by (simp add: os_lookup_def put_doc_def)

lemma os_lookup_Remove:
  "os_lookup (snd (os_Remove fl p d)) q =
     (if q = p \<and> fst (os_Remove fl p d) = None then None else os_lookup d q)"
  by (simp add: os_Remove_def os_lookup_def)

lemma os_Remove_None: "os_Remove fl p d = (None, d') \<Longrightarrow> os_lookup d' q = (if q = p then None else os_lookup d q)"
  using os_lookup_Remove [of fl p d q] by simp

lemma os_Rename_None:
  assumes "os_Rename fl old new d = (None, d')"
  shows "os_lookup d' q =
    (if q = new then os_lookup d old else if q = old then None else os_lookup d q)"
  using assms by (auto simp: os_Rename_def os_lookup_def split: option.splits if_splits)

lemma os_Rename_Some: "os_Rename fl old new d = (Some e, d') \<Longrightarrow> d' = d"
  by (auto simp: os_Rename_def split: option.splits if_splits)

lemma os_inodes [simp]:
  "dk_inodes (snd (os_Remove fl p d)) = dk_inodes d" "dk_next (snd (os_Remove fl p d)) = dk_next d"
  "dk_inodes (snd (os_Rename fl p q d)) = dk_inodes d" "dk_next (snd (os_Rename fl p q d)) = dk_next d"
  "dk_inodes (put_doc p doc b d) = dk_inodes d" "dk_next (put_doc p doc b d) = dk_next d"
  by (auto simp: os_Remove_def os_Rename_def put_doc_def split: option.split)

lemma tmp_name_neq [simp]: "tmp_name p \<noteq> p" "p \<noteq> tmp_name p"
  by (auto simp: tmp_name_def)

lemma os_lookup_writeSidecarFile:
  "q \<noteq> p \<Longrightarrow> os_lookup (snd (writeSidecarFile fl p doc b d)) q = os_lookup d q"
  by (simp add: writeSidecarFile_def)

lemma writeSidecarFile_None:
  "writeSidecarFile fl p doc b d = (None, d') \<Longrightarrow> d' = put_doc p doc b d"
  by (auto simp: writeSidecarFile_def split: if_splits)

text \<open>What replacing a document leaves under every name but the temporary one.\<close>

lemma replace_doc_lookup:
  assumes "replace_doc fl p doc b d = (e, d')" and "q \<noteq> tmp_name p"
  shows "os_lookup d' q = (if q = p \<and> e = None then Some (DocFile doc b) else os_lookup d q)"
  using assms os_lookup_writeSidecarFile [of q "tmp_name p" fl doc b d]
  by (auto simp: replace_doc_def os_lookup_Remove os_Rename_None split: if_splits prod.splits
      option.splits dest!: writeSidecarFile_None os_Rename_Some)

lemma replace_doc_inodes [simp]:
  "dk_inodes (snd (replace_doc fl p doc b d)) = dk_inodes d"
  "dk_next (snd (replace_doc fl p doc b d)) = dk_next d"
proof -
  have w: "writeSidecarFile fl q doc b d = (e, d') \<Longrightarrow> dk_inodes d' = dk_inodes d \<and> dk_next d' = dk_next d"
    for q e d' by (auto simp: writeSidecarFile_def split: if_splits)
  have r: "os_Rename fl q q' d = (e, d') \<Longrightarrow> dk_inodes d' = dk_inodes d \<and> dk_next d' = dk_next d"
    for q q' d e d' using os_inodes(3,4) [of fl q q' d] by simp
  show "dk_inodes (snd (replace_doc fl p doc b d)) = dk_inodes d"
    "dk_next (snd (replace_doc fl p doc b d)) = dk_next d"
    by (auto simp: replace_doc_def split: prod.splits option.splits dest!: w r)
qed

section \<open>Reading back and staying committed\<close>

lemma normalize_path_state_simps [simp]:
  "ps_OriginalPath (normalize_path_state s) = ps_OriginalPath s"
  "ps_Committed (normalize_path_state s) = ps_Committed s"
  "ps_StagedFilePath (normalize_path_state s) = ps_StagedFilePath s"
  "ps_Attributes (normalize_path_state s) = ps_Attributes s"
  "ps_DirtySince (normalize_path_state s) = ps_DirtySince s"
  by (simp_all add: normalize_path_state_def Let_def)

lemma normalize_path_state_idem [simp]:
  "normalize_path_state (normalize_path_state s) = normalize_path_state s"
  by (auto simp: normalize_path_state_def Let_def pathMetadataVersion_def ConflictStatusNone_def)

lemma commit_sticky_simps [simp]:
  "ps_OriginalPath (commit_sticky fl p s d) = ps_OriginalPath s"
  "normalize_path_state (commit_sticky fl p (normalize_path_state s) d) =
     commit_sticky fl p (normalize_path_state s) d"
  "ps_Committed s \<Longrightarrow> ps_Committed (commit_sticky fl p s d)"
proof -
  have "normalize_path_state (s\<lparr>ps_Committed := b\<rparr>) = (normalize_path_state s)\<lparr>ps_Committed := b\<rparr>" for s b
    by (simp add: normalize_path_state_def Let_def)
  then show "ps_OriginalPath (commit_sticky fl p s d) = ps_OriginalPath s"
    "normalize_path_state (commit_sticky fl p (normalize_path_state s) d) =
       commit_sticky fl p (normalize_path_state s) d"
    "ps_Committed s \<Longrightarrow> ps_Committed (commit_sticky fl p s d)"
    by (auto simp: commit_sticky_def split: sum.splits)
qed

text \<open>
  The sidecar under a name: what is stored there and whether it was on disk before it
  took the name.
\<close>

definition sidecar_at :: "Disk \<Rightarrow> string \<Rightarrow> (PathMetadataState \<times> bool) option" where
  "sidecar_at d p = (case os_lookup d p of Some (DocFile (SidecarDoc s) b) \<Rightarrow> Some (s, b) | _ \<Rightarrow> None)"

definition committed_at :: "Disk \<Rightarrow> string \<Rightarrow> bool" where
  "committed_at d p = (case sidecar_at d p of Some (s, b) \<Rightarrow> ps_Committed s | None \<Rightarrow> False)"

text \<open>A committed sidecar was flushed before it took its name.\<close>

definition committed_durable :: "Disk \<Rightarrow> string \<Rightarrow> bool" where
  "committed_durable d p = (case sidecar_at d p of Some (s, b) \<Rightarrow> ps_Committed s \<longrightarrow> b | None \<Rightarrow> True)"

lemma read_sidecar:
  "readPathMetadataState fl p d = Inr s \<longleftrightarrow>
     \<not> fl OpRead p \<and> (\<exists>s0 b. sidecar_at d p = Some (s0, b) \<and> ps_OriginalPath s0 \<noteq> [] \<and> s = normalize_path_state s0)"
  by (auto simp: readPathMetadataState_def sidecar_at_def split: option.splits dir_entry.splits
      json_doc.splits if_splits)

lemma writePathMetadataState_lookup:
  assumes "writePathMetadataState fl p (Some s) d = (e, s', d')" and "q \<noteq> tmp_name p"
  shows "os_lookup d' q =
    (if q = p \<and> e = None
     then Some (DocFile (SidecarDoc (commit_sticky fl p (normalize_path_state s) d))
            (ps_Committed (commit_sticky fl p (normalize_path_state s) d)))
     else os_lookup d q)"
    "s' = Some (commit_sticky fl p (normalize_path_state s) d)"
  using assms by (auto simp: writePathMetadataState_def Let_def replace_doc_lookup split: prod.splits)

lemma writePathMetadataState_inodes:
  "writePathMetadataState fl p s d = (e, s', d') \<Longrightarrow> dk_inodes d' = dk_inodes d \<and> dk_next d' = dk_next d"
  by (auto simp: writePathMetadataState_def Let_def split: prod.splits option.splits)
    (metis replace_doc_inodes snd_conv)+

lemma sidecar_at_write:
  assumes "writePathMetadataState fl p (Some s) d = (e, s', d')" and "q \<noteq> tmp_name p"
  shows "sidecar_at d' q =
    (if q = p \<and> e = None
     then Some (commit_sticky fl p (normalize_path_state s) d,
                ps_Committed (commit_sticky fl p (normalize_path_state s) d))
     else sidecar_at d q)"
  using writePathMetadataState_lookup(1) [OF assms] by (simp add: sidecar_at_def)



end
