(* ===== verification/Write_Session.thy ===== *)
theory Write_Session
  imports Staging_Disk
begin

text \<open>
  A write session: the staged bytes of one path, their attributes, and the snapshots uploads
  read them through (\<^verbatim>\<open>src/internal/staging/session.go\<close>, \<^verbatim>\<open>session_upload.go\<close>, \<^verbatim>\<open>multipart.go\<close>, the session
  part of \<^verbatim>\<open>attributes.go\<close> and of \<^verbatim>\<open>session_discard.go\<close>). A session is changed under its own lock, so
  each operation is a function on the session and the disk; the descriptor of the staging
  file is the inode it addresses. Backpressure, which \<^verbatim>\<open>Write\<close> and \<^verbatim>\<open>Truncate\<close> apply first, is in
  theory \<^verbatim>\<open>Backpressure\<close>; the two are put together in theory \<^verbatim>\<open>Staging_Manager\<close>.
\<close>

section \<open>Multipart state\<close>

record S3MultipartState =
  mp_UploadID :: string
  mp_PartSize :: int
  mp_NextOffset :: int
  mp_MinModifiedOffset :: int
  mp_CompletedParts :: "(int \<times> string) list"
  mp_Active :: bool

definition NewS3MultipartState :: "int \<Rightarrow> S3MultipartState" where
  "NewS3MultipartState partSizeMB =
     (let mb = (if partSizeMB < 5 then 20 else partSizeMB)
      in \<lparr>mp_UploadID = [], mp_PartSize = mb * 1024 * 1024, mp_NextOffset = 0,
          mp_MinModifiedOffset = 0, mp_CompletedParts = [], mp_Active = False\<rparr>)"

definition MarkModified :: "int \<Rightarrow> S3MultipartState \<Rightarrow> S3MultipartState" where
  "MarkModified offset s =
     (if offset < mp_MinModifiedOffset s \<or> mp_NextOffset s = 0
      then s\<lparr>mp_MinModifiedOffset := offset\<rparr> else s)"

definition IsSequential :: "S3MultipartState \<Rightarrow> bool" where
  "IsSequential s = (mp_MinModifiedOffset s \<ge> mp_NextOffset s)"

definition AddCompletedPart :: "int \<Rightarrow> string \<Rightarrow> S3MultipartState \<Rightarrow> S3MultipartState" where
  "AddCompletedPart partNumber etag s =
     s\<lparr>mp_CompletedParts := mp_CompletedParts s @ [(partNumber, etag)],
       mp_NextOffset := mp_NextOffset s + mp_PartSize s,
       mp_MinModifiedOffset := mp_NextOffset s + mp_PartSize s\<rparr>"

definition GetNextUploadRange :: "S3MultipartState \<Rightarrow> int \<times> int" where
  "GetNextUploadRange s = (mp_NextOffset s, mp_NextOffset s + mp_PartSize s)"

definition S3MultipartState_Reset :: "S3MultipartState \<Rightarrow> S3MultipartState" where
  "S3MultipartState_Reset s =
     s\<lparr>mp_UploadID := [], mp_NextOffset := 0, mp_MinModifiedOffset := 0, mp_CompletedParts := [],
       mp_Active := False\<rparr>"

section \<open>Sessions\<close>

record WriteSession =
  ws_Manager :: bool
  ws_Path :: string
  ws_StagingPath :: string
  ws_File :: "nat option"
  ws_Size :: int
  ws_Dirty :: bool
  ws_Prefetched :: bool
  ws_RefCount :: int
  ws_LastWrite :: gotime
  ws_LastAccess :: gotime
  ws_CreatedAt :: gotime
  ws_Multipart :: S3MultipartState
  ws_Mode :: u32
  ws_UID :: u32
  ws_GID :: u32
  ws_btime :: gotime
  ws_windowsAttributes :: u32
  ws_streams :: streams
  ws_atime :: gotime
  ws_mtime :: gotime
  ws_attributesSet :: bool
  ws_written :: bool
  ws_uploadReaders :: int
  ws_fileGeneration :: nat
  ws_metadataVersion :: nat
  ws_committedMetadataVersion :: nat

type_synonym session_state = "WriteSession \<times> Disk"

definition pathMetadataPath :: "string \<Rightarrow> string" where
  "pathMetadataPath stagingPath = stagingPath @ ''.metadata''"

definition EnsurePathMetadata ::
  "faults \<Rightarrow> string \<Rightarrow> string \<Rightarrow> Disk \<Rightarrow> stg_error option \<times> Disk" where
  "EnsurePathMetadata fl path stagingPath d =
     (let metadataPath = pathMetadataPath stagingPath;
          write = (\<lambda>state.
            let (e, _, d') = writePathMetadataState fl metadataPath
                  (Some (state\<lparr>ps_OriginalPath := path, ps_StagedFilePath := stagingPath\<rparr>)) d
            in (e, d'))
      in case readPathMetadataState fl metadataPath d of
           Inl ENotExist \<Rightarrow>
             write (zero_path_state\<lparr>ps_Version := pathMetadataVersion,
               ps_ObjectKey := objectKeyFromPath path, ps_ConflictStatus := ConflictStatusNone\<rparr>)
         | Inl e \<Rightarrow> (Some e, d)
         | Inr state \<Rightarrow>
             if ps_OriginalPath state = path \<and> ps_StagedFilePath state = stagingPath then (None, d)
             else write state)"

text \<open>Opening the staging file for reading and writing, creating it when it is not there.\<close>

definition os_OpenCreate :: "faults \<Rightarrow> gotime \<Rightarrow> string \<Rightarrow> Disk \<Rightarrow> (stg_error + nat) \<times> Disk" where
  "os_OpenCreate fl now p d =
     (if fl OpOpen p then (Inl (EOs OpOpen p), d)
      else (case os_lookup d p of
              Some (DataFile i) \<Rightarrow> (Inr i, d)
            | Some (DocFile _ _) \<Rightarrow> (Inl (EOs OpOpen p), d)
            | None \<Rightarrow>
                (Inr (dk_next d),
                 d\<lparr>dk_names := gm_set p (DataFile (dk_next d)) (dk_names d),
                   dk_inodes := (dk_inodes d)(dk_next d := []),
                   dk_mtime := (dk_mtime d)(dk_next d := now),
                   dk_next := dk_next d + 1\<rparr>)))"

definition NewWriteSession ::
  "faults \<Rightarrow> gotime \<Rightarrow> bool \<Rightarrow> string \<Rightarrow> string \<Rightarrow> Disk \<Rightarrow> (stg_error + WriteSession) \<times> Disk" where
  "NewWriteSession fl now manager path stagingPath d =
     (case os_OpenCreate fl now stagingPath d of
        (Inl e, d1) \<Rightarrow> (Inl e, d1)
      | (Inr file, d1) \<Rightarrow>
          if fl OpStat stagingPath then (Inl (EOs OpStat stagingPath), d1)
          else let sz = int (length (dk_inodes d1 file));
                   d2 = (if manager then snd (EnsurePathMetadata fl path stagingPath d1) else d1)
               in (Inr \<lparr>ws_Manager = manager, ws_Path = path, ws_StagingPath = stagingPath,
                       ws_File = Some file, ws_Size = sz, ws_Dirty = False, ws_Prefetched = False,
                       ws_RefCount = 1, ws_LastWrite = now, ws_LastAccess = now, ws_CreatedAt = now,
                       ws_Multipart = NewS3MultipartState 20, ws_Mode = 384, ws_UID = 1000,
                       ws_GID = 1000, ws_btime = 0, ws_windowsAttributes = 0, ws_streams = [],
                       ws_atime = 0, ws_mtime = 0, ws_attributesSet = False, ws_written = (sz > 0),
                       ws_uploadReaders = 0, ws_fileGeneration = 0, ws_metadataVersion = 1,
                       ws_committedMetadataVersion = 0\<rparr>, d2))"

section \<open>Attributes\<close>

definition attributesLocked :: "WriteSession \<Rightarrow> StagedAttributes" where
  "attributesLocked ws =
     \<lparr>sa_Mode = ws_Mode ws, sa_UID = ws_UID ws, sa_GID = ws_GID ws, sa_Btime = ws_btime ws,
      sa_WindowsAttributes = ws_windowsAttributes ws, sa_Streams = CloneStreams (ws_streams ws),
      sa_Atime = ws_atime ws, sa_Mtime = ws_mtime ws\<rparr>"

definition setAttributesLocked :: "StagedAttributes \<Rightarrow> WriteSession \<Rightarrow> WriteSession" where
  "setAttributesLocked attrs ws =
     ws\<lparr>ws_Mode := sa_Mode attrs, ws_UID := sa_UID attrs, ws_GID := sa_GID attrs,
        ws_btime := sa_Btime attrs, ws_windowsAttributes := sa_WindowsAttributes attrs,
        ws_streams := CloneStreams (sa_Streams attrs), ws_atime := sa_Atime attrs,
        ws_mtime := sa_Mtime attrs, ws_attributesSet := True\<rparr>"

definition restoreAttributes :: "StagedAttributes \<Rightarrow> WriteSession \<Rightarrow> WriteSession" where
  "restoreAttributes attrs ws = setAttributesLocked attrs ws"

definition stagedAttributes :: "WriteSession \<Rightarrow> StagedAttributes \<times> string \<times> bool" where
  "stagedAttributes ws = (attributesLocked ws, ws_StagingPath ws, ws_attributesSet ws)"

definition metadataChanged :: "WriteSession \<Rightarrow> WriteSession" where
  "metadataChanged ws = ws\<lparr>ws_metadataVersion := ws_metadataVersion ws + 1\<rparr>"

definition metadataCommitted :: "nat \<Rightarrow> WriteSession \<Rightarrow> WriteSession" where
  "metadataCommitted version ws =
     (if version > ws_committedMetadataVersion ws
      then ws\<lparr>ws_committedMetadataVersion := version\<rparr> else ws)"

definition persistSessionAttributes :: "faults \<Rightarrow> session_state \<Rightarrow> session_state" where
  "persistSessionAttributes fl = (\<lambda>(ws, d).
     let (attrs, stagingPath, isset) = stagedAttributes ws
     in if \<not> isset then (ws, d)
        else let metadataPath = pathMetadataPath stagingPath
             in case readPathMetadataState fl metadataPath d of
                  Inl _ \<Rightarrow> (ws, d)
                | Inr state \<Rightarrow>
                    (case writePathMetadataState fl metadataPath (Some (state\<lparr>ps_Attributes := Some attrs\<rparr>)) d of
                       (Some _, _, d') \<Rightarrow> (ws, d')
                     | (None, _, d') \<Rightarrow> (metadataChanged ws, d')))"

definition persistAttributes :: "faults \<Rightarrow> session_state \<Rightarrow> session_state" where
  "persistAttributes fl st = (if ws_Manager (fst st) then persistSessionAttributes fl st else st)"

definition updateAttributes ::
  "faults \<Rightarrow> (WriteSession \<Rightarrow> WriteSession) \<Rightarrow> session_state \<Rightarrow> session_state" where
  "updateAttributes fl change = (\<lambda>(ws, d).
     persistAttributes fl ((change ws)\<lparr>ws_attributesSet := True\<rparr>, d))"

definition SeedAttributes :: "faults \<Rightarrow> StagedAttributes \<Rightarrow> session_state \<Rightarrow> session_state" where
  "SeedAttributes fl attrs = (\<lambda>(ws, d).
     if ws_attributesSet ws then (ws, d)
     else persistAttributes fl (setAttributesLocked attrs ws, d))"

definition SetMode :: "faults \<Rightarrow> u32 \<Rightarrow> session_state \<Rightarrow> session_state" where
  "SetMode fl md = updateAttributes fl (\<lambda>ws. ws\<lparr>ws_Mode := md\<rparr>)"

definition SetOwner :: "faults \<Rightarrow> u32 \<Rightarrow> u32 \<Rightarrow> session_state \<Rightarrow> session_state" where
  "SetOwner fl uid gid = updateAttributes fl (\<lambda>ws. ws\<lparr>ws_UID := uid, ws_GID := gid\<rparr>)"

definition SetBirthTime :: "faults \<Rightarrow> gotime \<Rightarrow> session_state \<Rightarrow> session_state" where
  "SetBirthTime fl btime = updateAttributes fl (\<lambda>ws. ws\<lparr>ws_btime := btime\<rparr>)"

definition SetWindowsAttributes :: "faults \<Rightarrow> u32 \<Rightarrow> session_state \<Rightarrow> session_state" where
  "SetWindowsAttributes fl flags = updateAttributes fl (\<lambda>ws. ws\<lparr>ws_windowsAttributes := flags\<rparr>)"

definition SetStreams :: "faults \<Rightarrow> streams \<Rightarrow> session_state \<Rightarrow> session_state" where
  "SetStreams fl strs = updateAttributes fl (\<lambda>ws. ws\<lparr>ws_streams := CloneStreams strs\<rparr>)"

definition SetTimes :: "faults \<Rightarrow> gotime \<Rightarrow> gotime \<Rightarrow> session_state \<Rightarrow> session_state" where
  "SetTimes fl atime mtime = updateAttributes fl (\<lambda>ws.
     let ws1 = (if \<not> is_zero_time atime then ws\<lparr>ws_atime := atime\<rparr> else ws)
     in if \<not> is_zero_time mtime then ws1\<lparr>ws_mtime := mtime\<rparr> else ws1)"

definition SetCreationIfUnset :: "faults \<Rightarrow> gotime \<Rightarrow> u32 \<Rightarrow> session_state \<Rightarrow> session_state" where
  "SetCreationIfUnset fl btime md = (\<lambda>(ws, d).
     if ws_attributesSet ws then (ws, d)
     else let ws1 = ws\<lparr>ws_btime := btime\<rparr>;
              ws2 = (if md \<noteq> 0 then ws1\<lparr>ws_Mode := md\<rparr> else ws1)
          in persistAttributes fl (ws2\<lparr>ws_attributesSet := True\<rparr>, d))"

section \<open>Staged bytes\<close>

text \<open>
  What \<^verbatim>\<open>pwrite\<close> and \<^verbatim>\<open>ftruncate\<close> do to the bytes of a file: a write past the end fills the gap with
  zeros, and a write of no bytes changes nothing.
\<close>

definition pwrite :: "bytes \<Rightarrow> nat \<Rightarrow> bytes \<Rightarrow> bytes" where
  "pwrite bs off data =
     (if data = [] then bs
      else take off (bs @ replicate (off - length bs) 0) @ data @ drop (off + length data) bs)"

definition ftruncate :: "bytes \<Rightarrow> nat \<Rightarrow> bytes" where
  "ftruncate bs n = take n (bs @ replicate (n - length bs) 0)"

definition set_inode :: "nat \<Rightarrow> bytes \<Rightarrow> gotime \<Rightarrow> Disk \<Rightarrow> Disk" where
  "set_inode i bs now d = d\<lparr>dk_inodes := (dk_inodes d)(i := bs), dk_mtime := (dk_mtime d)(i := now)\<rparr>"

text \<open>
  \<^verbatim>\<open>detachFromUploadsLocked\<close>: with an upload reading the staging file, continue the session on a
  new file that holds the bytes the change keeps. \<^verbatim>\<open>io.CopyN\<close> fails when the file is shorter.
\<close>

definition detachFromUploadsLocked ::
  "faults \<Rightarrow> gotime \<Rightarrow> int \<Rightarrow> session_state \<Rightarrow> stg_error option \<times> session_state" where
  "detachFromUploadsLocked fl now keepBytes = (\<lambda>(ws, d).
     let p = ws_StagingPath ws;
         tmp = dk_next d;
         kept = (case ws_File ws of None \<Rightarrow> [] | Some i \<Rightarrow> take (nat keepBytes) (dk_inodes d i));
         d1 = (set_inode tmp kept now d)\<lparr>dk_next := tmp + 1\<rparr>
     in if ws_uploadReaders ws = 0 then (None, (ws, d))
        else if fl OpCreateTemp p then (Some (EOs OpCreateTemp p), (ws, d))
        else if keepBytes > 0 \<and> ws_File ws = None then (Some EClosed, (ws, d1))
        else if keepBytes > 0 \<and> fl OpSeek p then (Some (EOs OpSeek p), (ws, d1))
        else if keepBytes > 0 \<and> int (length kept) < keepBytes then (Some EEOF, (ws, d1))
        else if keepBytes > 0 \<and> fl OpSync p then (Some (EOs OpSync p), (ws, d1))
        else if fl OpRename p then (Some (EOs OpRename p), (ws, d1))
        else (None,
          (ws\<lparr>ws_File := Some tmp, ws_uploadReaders := 0,
              ws_fileGeneration := ws_fileGeneration ws + 1,
              ws_metadataVersion := ws_metadataVersion ws + 1\<rparr>,
           d1\<lparr>dk_names := gm_set p (DataFile tmp) (dk_names d1)\<rparr>)))"

text \<open>
  \<^verbatim>\<open>write\<close>, the part of \<^verbatim>\<open>Write\<close> under the session lock. A failing write of the system has put the first
  \<^verbatim>\<open>k\<close> bytes into the file.
\<close>

definition write_locked ::
  "faults \<Rightarrow> nat \<Rightarrow> gotime \<Rightarrow> bytes \<Rightarrow> int \<Rightarrow> session_state
     \<Rightarrow> (nat \<times> bool \<times> stg_error option) \<times> session_state" where
  "write_locked fl k now data offset st =
     (case detachFromUploadsLocked fl now (ws_Size (fst st)) st of
        (Some e, st1) \<Rightarrow> ((0, False, Some e), st1)
      | (None, (ws, d)) \<Rightarrow>
          (case ws_File ws of
             None \<Rightarrow> ((0, False, Some EClosed), (ws, d))
           | Some i \<Rightarrow>
               if offset < 0 \<or> fl OpSeek (ws_StagingPath ws)
               then ((0, False, Some (EOs OpSeek (ws_StagingPath ws))), (ws, d))
               else if fl OpWrite (ws_StagingPath ws)
               then ((min k (length data), False, Some (EOs OpWrite (ws_StagingPath ws))),
                     (ws, set_inode i (pwrite (dk_inodes d i) (nat offset) (take k data)) now d))
               else let newSize = offset + int (length data);
                        ws1 = (if newSize > ws_Size ws then ws\<lparr>ws_Size := newSize\<rparr> else ws)
                    in ((length data, \<not> is_zero_time (ws_mtime ws), None),
                        (ws1\<lparr>ws_Multipart := MarkModified offset (ws_Multipart ws1), ws_Dirty := True,
                             ws_written := True, ws_LastWrite := now, ws_LastAccess := now,
                             ws_mtime := 0\<rparr>,
                         set_inode i (pwrite (dk_inodes d i) (nat offset) data) now d))))"

definition WriteSession_Read ::
  "faults \<Rightarrow> gotime \<Rightarrow> nat \<Rightarrow> int \<Rightarrow> session_state \<Rightarrow> (stg_error + bytes) \<times> session_state" where
  "WriteSession_Read fl now len offset = (\<lambda>(ws, d).
     if offset \<ge> ws_Size ws then (Inl EEOF, (ws, d))
     else (case ws_File ws of
             None \<Rightarrow> (Inl EClosed, (ws, d))
           | Some i \<Rightarrow>
               if offset < 0 \<or> fl OpSeek (ws_StagingPath ws)
               then (Inl (EOs OpSeek (ws_StagingPath ws)), (ws, d))
               else if fl OpRead (ws_StagingPath ws)
               then (Inl (EOs OpRead (ws_StagingPath ws)), (ws, d))
               else let got = take len (drop (nat offset) (dk_inodes d i));
                        ws' = ws\<lparr>ws_LastAccess := now\<rparr>
                    in if got = [] \<and> len > 0 then (Inl EEOF, (ws', d)) else (Inr got, (ws', d))))"

text \<open>\<^verbatim>\<open>Truncate\<close> after its reservation.\<close>

definition truncate_locked ::
  "faults \<Rightarrow> gotime \<Rightarrow> int \<Rightarrow> session_state \<Rightarrow> stg_error option \<times> session_state" where
  "truncate_locked fl now sz st =
     (case detachFromUploadsLocked fl now (min sz (ws_Size (fst st))) st of
        (Some e, st1) \<Rightarrow> (Some e, st1)
      | (None, (ws, d)) \<Rightarrow>
          (case ws_File ws of
             None \<Rightarrow> (Some EClosed, (ws, d))
           | Some i \<Rightarrow>
               if sz < 0 \<or> fl OpTruncate (ws_StagingPath ws)
               then (Some (EOs OpTruncate (ws_StagingPath ws)), (ws, d))
               else let firstChanged = (if ws_Size ws < sz then ws_Size ws else sz);
                        ws1 = ws\<lparr>ws_Multipart := MarkModified firstChanged (ws_Multipart ws), ws_Size := sz\<rparr>;
                        ws2 = (if sz = 0 then ws1\<lparr>ws_written := False\<rparr> else ws1)
                    in (None,
                        (ws2\<lparr>ws_Dirty := True, ws_LastWrite := now, ws_LastAccess := now\<rparr>,
                         set_inode i (ftruncate (dk_inodes d i) (nat sz)) now d))))"

text \<open>
  \<^verbatim>\<open>Prefetch\<close> runs the fetch once. The fetch gets the staging path, as the filesystem gives it:
  it replaces the bytes of the file under that name, and a failing one may leave
  part of them there.
\<close>

definition Prefetch ::
  "faults \<Rightarrow> gotime \<Rightarrow> (string \<Rightarrow> Disk \<Rightarrow> stg_error option \<times> Disk) \<Rightarrow> session_state
     \<Rightarrow> stg_error option \<times> session_state" where
  "Prefetch fl now fetcher st =
     (if ws_Prefetched (fst st) then (None, st)
      else (case detachFromUploadsLocked fl now 0 st of
              (Some e, st1) \<Rightarrow> (Some e, st1)
            | (None, (ws, d)) \<Rightarrow>
                (case fetcher (ws_StagingPath ws) d of
                   (Some e, d1) \<Rightarrow>
                     (case ws_File ws of
                        None \<Rightarrow> (Some e, (ws, d1))
                      | Some i \<Rightarrow>
                          if fl OpTruncate (ws_StagingPath ws) then (Some e, (ws, d1))
                          else (Some e, (ws, set_inode i (ftruncate (dk_inodes d1 i) (nat (ws_Size ws))) now d1)))
                 | (None, d1) \<Rightarrow>
                     let ws1 = (case ws_File ws of
                          Some i \<Rightarrow> if fl OpStat (ws_StagingPath ws) then ws
                                   else ws\<lparr>ws_Size := int (length (dk_inodes d1 i))\<rparr>
                        | None \<Rightarrow> ws)
                     in (None, (ws1\<lparr>ws_Prefetched := True\<rparr>, d1)))))"

section \<open>Flushing, snapshots and closing\<close>

text \<open>
  \<^verbatim>\<open>flushThen\<close> flushes outside the lock and runs its continuation when the file it flushed is still
  the session's, else it starts over. What others do to the session while the disk works is
  one function for each round; the loop ends because they run out, and the
  \<open>round\<close>s left over find the session unchanged.
\<close>

fun flushThen ::
  "faults \<Rightarrow> (session_state \<Rightarrow> session_state) list \<Rightarrow> (session_state \<Rightarrow> 'a \<times> session_state)
     \<Rightarrow> session_state \<Rightarrow> (bool \<times> stg_error option \<times> 'a option) \<times> session_state" where
  "flushThen fl rounds act (ws, d) =
     (case ws_File ws of
        None \<Rightarrow> ((False, None, None), (ws, d))
      | Some file \<Rightarrow>
          (case rounds of
             [] \<Rightarrow>
               if fl OpSync (ws_StagingPath ws)
               then ((True, Some (EOs OpSync (ws_StagingPath ws)), None), (ws, d))
               else (let (a, st) = act (ws, d) in ((True, None, Some a), st))
           | meanwhile # rest \<Rightarrow>
               let (ws', d') = meanwhile (ws, d)
               in if ws_File ws' \<noteq> Some file then flushThen fl rest act (ws', d')
                  else if fl OpSync (ws_StagingPath ws)
                  then ((True, Some (EOs OpSync (ws_StagingPath ws)), None), (ws', d'))
                  else (let (a, st) = act (ws', d') in ((True, None, Some a), st))))"

definition WriteSession_Sync ::
  "faults \<Rightarrow> (session_state \<Rightarrow> session_state) list \<Rightarrow> session_state \<Rightarrow> stg_error option \<times> session_state" where
  "WriteSession_Sync fl rounds st =
     (case flushThen fl rounds (\<lambda>s. ((), s)) st of
        ((isopen, err, _), st') \<Rightarrow>
          (if err = None \<and> \<not> isopen then Some EClosed else err, st'))"

definition syncToDisk ::
  "faults \<Rightarrow> (session_state \<Rightarrow> session_state) list \<Rightarrow> session_state
     \<Rightarrow> (string \<times> nat \<times> stg_error option) \<times> session_state" where
  "syncToDisk fl rounds st =
     (case flushThen fl rounds (\<lambda>(ws, d).
        ((ws_StagingPath ws,
          if ws_metadataVersion ws \<noteq> ws_committedMetadataVersion ws then ws_metadataVersion ws else 0),
         (ws, d))) st of
        ((_, err, Some (p, v)), st') \<Rightarrow> ((p, v, err), st')
      | ((_, err, None), st') \<Rightarrow> (([], 0, err), st'))"

record UploadSnapshot =
  us_File :: nat
  us_Size :: int
  us_LastWrite :: gotime
  us_PartSize :: int
  us_generation :: nat
  us_closed :: bool

definition OpenUploadSnapshot ::
  "faults \<Rightarrow> (session_state \<Rightarrow> session_state) list \<Rightarrow> session_state
     \<Rightarrow> (stg_error + UploadSnapshot) \<times> session_state" where
  "OpenUploadSnapshot fl rounds st =
     (case flushThen fl rounds (\<lambda>(ws, d).
        if fl OpOpen (ws_StagingPath ws) then (Inl (EOs OpOpen (ws_StagingPath ws)), (ws, d))
        else (case data_inode d (ws_StagingPath ws) of
                None \<Rightarrow> (Inl ENotExist, (ws, d))
              | Some file \<Rightarrow>
                  (Inr \<lparr>us_File = file, us_Size = ws_Size ws, us_LastWrite = ws_LastWrite ws,
                        us_PartSize = mp_PartSize (ws_Multipart ws),
                        us_generation = ws_fileGeneration ws, us_closed = False\<rparr>,
                   (ws\<lparr>ws_uploadReaders := ws_uploadReaders ws + 1\<rparr>, d)))) st of
        ((_, Some e, _), st') \<Rightarrow> (Inl e, st')
      | ((_, None, Some r), st') \<Rightarrow> (r, st')
      | ((_, None, None), st') \<Rightarrow> (Inl EClosed, st'))"

definition UploadSnapshot_Close ::
  "UploadSnapshot \<Rightarrow> WriteSession \<Rightarrow> UploadSnapshot \<times> WriteSession" where
  "UploadSnapshot_Close s ws =
     (if us_closed s then (s, ws)
      else (s\<lparr>us_closed := True\<rparr>,
            if ws_fileGeneration ws = us_generation s \<and> ws_uploadReaders ws > 0
            then ws\<lparr>ws_uploadReaders := ws_uploadReaders ws - 1\<rparr> else ws))"

definition WriteSession_Snapshot ::
  "WriteSession \<Rightarrow> string \<times> int \<times> u32 \<times> u32 \<times> u32 \<times> int \<times> gotime \<times> int" where
  "WriteSession_Snapshot ws =
     (ws_StagingPath ws, ws_Size ws, ws_Mode ws, ws_UID ws, ws_GID ws, ws_RefCount ws,
      ws_LastWrite ws, mp_PartSize (ws_Multipart ws))"

definition WriteSession_Close :: "faults \<Rightarrow> WriteSession \<Rightarrow> stg_error option \<times> WriteSession" where
  "WriteSession_Close fl ws =
     (if ws_File ws \<noteq> None
      then if fl OpClose (ws_StagingPath ws) then (Some (EOs OpClose (ws_StagingPath ws)), ws)
           else (None, ws\<lparr>ws_File := None\<rparr>)
      else (None, ws))"

definition IncrementRefCount :: "WriteSession \<Rightarrow> WriteSession" where
  "IncrementRefCount ws = ws\<lparr>ws_RefCount := ws_RefCount ws + 1\<rparr>"

definition DecrementRefCount :: "WriteSession \<Rightarrow> WriteSession" where
  "DecrementRefCount ws =
     (if ws_RefCount ws \<le> 0 then ws else ws\<lparr>ws_RefCount := ws_RefCount ws - 1\<rparr>)"

definition WriteSession_Rekey :: "string \<Rightarrow> string \<Rightarrow> WriteSession \<Rightarrow> WriteSession" where
  "WriteSession_Rekey newPath newStagingPath ws =
     ws\<lparr>ws_Path := newPath, ws_StagingPath := newStagingPath,
        ws_metadataVersion := ws_metadataVersion ws + 1\<rparr>"

definition stagingPathIs :: "string \<Rightarrow> WriteSession \<Rightarrow> bool" where
  "stagingPathIs stagingPath ws = (ws_StagingPath ws = stagingPath)"

definition moveStagingFile ::
  "string \<Rightarrow> (Disk \<Rightarrow> stg_error option \<times> Disk) \<Rightarrow> session_state \<Rightarrow> stg_error option \<times> session_state" where
  "moveStagingFile newStagingPath move = (\<lambda>(ws, d).
     (case move d of
        (Some e, d') \<Rightarrow> (Some e, (ws, d'))
      | (None, d') \<Rightarrow>
          (None, (ws\<lparr>ws_StagingPath := newStagingPath,
                     ws_metadataVersion := ws_metadataVersion ws + 1\<rparr>, d'))))"

definition hasNoStagedData :: "WriteSession \<Rightarrow> bool" where
  "hasNoStagedData ws = (\<not> ws_Dirty ws \<and> \<not> ws_Prefetched ws \<and> ws_Size ws = 0)"

definition holdsNoWrittenData :: "WriteSession \<Rightarrow> bool" where
  "holdsNoWrittenData ws =
     (if mp_Active (ws_Multipart ws) then False
      else ws_Size ws = 0 \<or> (\<not> ws_written ws \<and> \<not> ws_Prefetched ws))"

definition sessionAttributesIfSet :: "WriteSession option \<Rightarrow> StagedAttributes option" where
  "sessionAttributesIfSet session =
     (case session of
        None \<Rightarrow> None
      | Some ws \<Rightarrow> (case stagedAttributes ws of (attrs, _, isset) \<Rightarrow> if isset then Some attrs else None))"

section \<open>The fetch of a prefetch\<close>

text \<open>
  \<^verbatim>\<open>DownloadToFile\<close> of \<^verbatim>\<open>src/internal/posix/operations.go\<close>: what the object store answered, either an error
  or the bytes it streamed and whether the stream broke off after them.
\<close>

definition DownloadToFile ::
  "faults \<Rightarrow> gotime \<Rightarrow> stg_error + (bytes \<times> bool) \<Rightarrow> string \<Rightarrow> Disk \<Rightarrow> stg_error option \<times> Disk" where
  "DownloadToFile fl now answer localPath d =
     (case answer of
        Inl e \<Rightarrow> (Some e, d)
      | Inr (received, broken) \<Rightarrow>
          (case os_OpenCreate fl now localPath d of
             (Inl e, d1) \<Rightarrow> (Some e, d1)
           | (Inr i, d1) \<Rightarrow>
               (if broken then Some (EOs OpRead localPath) else None, set_inode i received now d1)))"

end
