(* ===== verification/Upload_Isolation.thy ===== *)
theory Upload_Isolation
  imports Write_Session
begin

text \<open>
  What the operations of a write session do to the staged bytes, and that an upload never
  sees them change: the state of one session with the snapshots opened on it, every operation a step.
\<close>

section \<open>Bytes\<close>

lemma length_pwrite:
  "length (pwrite bs off data) =
     (if data = [] then length bs else max (length bs) (off + length data))"
  by (auto simp: pwrite_def)

lemma nth_pwrite:
  assumes "i < length (pwrite bs off data)"
  shows "pwrite bs off data ! i =
    (if off \<le> i \<and> i < off + length data then data ! (i - off)
     else if i < length bs then bs ! i else 0)"
  using assms by (auto simp: pwrite_def nth_append min_def split: if_splits)

lemma pwrite_read_back: "take (length data) (drop off (pwrite bs off data)) = data" if "data \<noteq> []"
  using that by (simp add: pwrite_def min_def)

lemma length_ftruncate [simp]: "length (ftruncate bs n) = n"
  by (simp add: ftruncate_def)

lemma nth_ftruncate:
  "i < n \<Longrightarrow> ftruncate bs n ! i = (if i < length bs then bs ! i else 0)"
  by (auto simp: ftruncate_def nth_append)

lemma ftruncate_take: "n \<le> length bs \<Longrightarrow> ftruncate bs n = take n bs"
  by (simp add: ftruncate_def)

section \<open>Names and inodes\<close>

lemma set_inode_simps [simp]:
  "dk_names (set_inode i bs now d) = dk_names d" "dk_next (set_inode i bs now d) = dk_next d"
  "dk_inodes (set_inode i bs now d) = (dk_inodes d)(i := bs)"
  "os_lookup (set_inode i bs now d) p = os_lookup d p"
  "data_inode (set_inode i bs now d) p = data_inode d p"
  by (simp_all add: set_inode_def os_lookup_def data_inode_def)

lemma data_inode_cong: "os_lookup d' p = os_lookup d p \<Longrightarrow> data_inode d' p = data_inode d p"
  by (simp add: data_inode_def)

lemma staging_not_sidecar [simp]: "p \<noteq> pathMetadataPath p" "p \<noteq> tmp_name (pathMetadataPath p)"
  by (auto simp: pathMetadataPath_def tmp_name_def)

lemma writePath_disk:
  assumes "writePathMetadataState fl (pathMetadataPath p) (Some s) d = (e, s', d')"
  shows "dk_inodes d' = dk_inodes d" "dk_next d' = dk_next d" "data_inode d' p = data_inode d p"
  using writePathMetadataState_inodes [OF assms]
    data_inode_cong [OF trans [OF writePathMetadataState_lookup(1) [OF assms, of p]]]
  by auto

section \<open>One session and the snapshots on it\<close>

text \<open>
  The snapshots opened so far, each with the bytes its file held when it was opened. The bytes
  are not part of the code: they say what the upload must keep reading.
\<close>

record upload_state =
  up_ws :: WriteSession
  up_disk :: Disk
  up_snaps :: "(UploadSnapshot \<times> bytes) list"

definition session_of :: "upload_state \<Rightarrow> session_state" where
  "session_of u = (up_ws u, up_disk u)"

definition with_session :: "session_state \<Rightarrow> upload_state \<Rightarrow> upload_state" where
  "with_session st u = u\<lparr>up_ws := fst st, up_disk := snd st\<rparr>"

definition open_snaps :: "upload_state \<Rightarrow> (UploadSnapshot \<times> bytes) list" where
  "open_snaps u = filter (\<lambda>(s, _). \<not> us_closed s) (up_snaps u)"

definition current_snaps :: "upload_state \<Rightarrow> (UploadSnapshot \<times> bytes) list" where
  "current_snaps u = filter (\<lambda>(s, _). us_generation s = ws_fileGeneration (up_ws u)) (open_snaps u)"

definition names_ok :: "upload_state \<Rightarrow> bool" where
  "names_ok u \<longleftrightarrow>
     (\<forall>i. ws_File (up_ws u) = Some i \<longrightarrow> data_inode (up_disk u) (ws_StagingPath (up_ws u)) = Some i) \<and>
     (\<forall>i. data_inode (up_disk u) (ws_StagingPath (up_ws u)) = Some i \<longrightarrow> i < dk_next (up_disk u))"

definition snap_ok :: "upload_state \<Rightarrow> UploadSnapshot \<times> bytes \<Rightarrow> bool" where
  "snap_ok u = (\<lambda>(s, bs).
     dk_inodes (up_disk u) (us_File s) = bs \<and> us_File s < dk_next (up_disk u) \<and>
     us_generation s \<le> ws_fileGeneration (up_ws u) \<and>
     (data_inode (up_disk u) (ws_StagingPath (up_ws u)) = Some (us_File s) \<longleftrightarrow>
        us_generation s = ws_fileGeneration (up_ws u)))"

definition upload_ok :: "upload_state \<Rightarrow> bool" where
  "upload_ok u \<longleftrightarrow> names_ok u \<and> (\<forall>x \<in> set (open_snaps u). snap_ok u x) \<and>
     int (length (current_snaps u)) = ws_uploadReaders (up_ws u)"

text \<open>The invariant looks at the file, its name, the reader count and the inodes, and at nothing else.\<close>

definition same_file :: "session_state \<Rightarrow> session_state \<Rightarrow> bool" where
  "same_file = (\<lambda>(ws, d) (ws', d').
     ws_File ws' = ws_File ws \<and> ws_StagingPath ws' = ws_StagingPath ws \<and>
     ws_fileGeneration ws' = ws_fileGeneration ws \<and> ws_uploadReaders ws' = ws_uploadReaders ws \<and>
     dk_inodes d' = dk_inodes d \<and> dk_next d' = dk_next d \<and>
     data_inode d' (ws_StagingPath ws) = data_inode d (ws_StagingPath ws))"

lemma same_file_refl [simp]: "same_file st st"
  by (simp add: same_file_def split: prod.split)

lemma with_session_simps [simp]:
  "up_ws (with_session st u) = fst st" "up_disk (with_session st u) = snd st"
  "up_snaps (with_session st u) = up_snaps u" "open_snaps (with_session st u) = open_snaps u"
  by (simp_all add: with_session_def open_snaps_def)

lemma with_session_of [simp]: "with_session (session_of u) u = u"
  by (simp add: with_session_def session_of_def)

lemma session_of_with [simp]: "session_of (with_session st u) = st"
  by (simp add: session_of_def)

lemma upload_ok_same_file:
  assumes "upload_ok (with_session st u)" and "same_file st st'"
  shows "upload_ok (with_session st' u)"
  using assms
  by (cases st; cases st') (simp add: upload_ok_def names_ok_def snap_ok_def current_snaps_def same_file_def)

text \<open>With no upload reading it, the staging file may change.\<close>

lemma upload_ok_change:
  assumes "upload_ok (with_session (ws, d) u)" and "ws_uploadReaders ws = 0"
    and "data_inode d (ws_StagingPath ws) = Some i"
  shows "upload_ok (with_session (ws, set_inode i bs now d) u)"
proof -
  have none: "current_snaps (with_session (ws, d) u) = []"
    using assms(1,2) by (simp add: upload_ok_def)
  have "us_File s \<noteq> i" if "(s, b) \<in> set (open_snaps u)" for s b
  proof -
    have "us_generation s \<noteq> ws_fileGeneration ws"
      using none that by (auto simp: current_snaps_def filter_empty_conv)
    moreover have "snap_ok (with_session (ws, d) u) (s, b)"
      using assms(1) that by (auto simp: upload_ok_def)
    ultimately show ?thesis using assms(3) by (auto simp: snap_ok_def)
  qed
  with assms(1) show ?thesis
    by (fastforce simp: upload_ok_def names_ok_def snap_ok_def current_snaps_def)
qed

lemma upload_ok_detach:
  assumes "upload_ok (with_session (ws, d) u)"
    and "detachFromUploadsLocked fl now keep (ws, d) = (e, st')"
  shows "upload_ok (with_session st' u)"
proof -
  define kept where "kept = (case ws_File ws of None \<Rightarrow> [] | Some i \<Rightarrow> take (nat keep) (dk_inodes d i))"
  define d1 where "d1 = (set_inode (dk_next d) kept now d)\<lparr>dk_next := dk_next d + 1\<rparr>"
  have d1: "dk_names d1 = dk_names d" "dk_next d1 = dk_next d + 1"
    "dk_inodes d1 = (dk_inodes d)(dk_next d := kept)" "data_inode d1 = data_inode d"
    by (auto simp: d1_def data_inode_def os_lookup_def)
  have ok: "names_ok (with_session (ws, d) u)"
    and snaps: "\<And>s b. (s, b) \<in> set (open_snaps u) \<Longrightarrow> snap_ok (with_session (ws, d) u) (s, b)"
    and readers: "int (length (current_snaps (with_session (ws, d) u))) = ws_uploadReaders ws"
    using assms(1) by (auto simp: upload_ok_def)
  have keep: "upload_ok (with_session (ws, d1) u)"
    using ok snaps readers
    by (fastforce simp: upload_ok_def names_ok_def snap_ok_def current_snaps_def d1)
  define ws2 where "ws2 = ws\<lparr>ws_File := Some (dk_next d), ws_uploadReaders := 0,
      ws_fileGeneration := ws_fileGeneration ws + 1, ws_metadataVersion := ws_metadataVersion ws + 1\<rparr>"
  define d2 where "d2 = d1\<lparr>dk_names := gm_set (ws_StagingPath ws) (DataFile (dk_next d)) (dk_names d1)\<rparr>"
  have d2: "dk_next d2 = dk_next d + 1" "dk_inodes d2 = (dk_inodes d)(dk_next d := kept)"
    "data_inode d2 (ws_StagingPath ws) = Some (dk_next d)"
    by (auto simp: d2_def d1 data_inode_def os_lookup_def)
  have "upload_ok (with_session (ws2, d2) u)"
  proof -
    have "snap_ok (with_session (ws2, d2) u) (s, b)" if "(s, b) \<in> set (open_snaps u)" for s b
      using snaps [OF that] by (auto simp: snap_ok_def d2 ws2_def)
    moreover have "current_snaps (with_session (ws2, d2) u) = []"
      using snaps by (fastforce simp: current_snaps_def snap_ok_def ws2_def filter_empty_conv)
    ultimately show ?thesis by (auto simp: upload_ok_def names_ok_def d2 ws2_def)
  qed
  moreover have "st' = (ws, d) \<or> st' = (ws, d1) \<or> st' = (ws2, d2)"
    using assms(2) unfolding detachFromUploadsLocked_def Let_def kept_def d1_def ws2_def d2_def
    by (simp split: if_splits)
  ultimately show ?thesis using assms(1) keep by blast
qed

text \<open>A detach that succeeds leaves no reader behind and keeps the requested bytes.\<close>

lemma detach_None:
  assumes "detachFromUploadsLocked fl now keep (ws, d) = (None, (ws', d'))"
  shows "ws_uploadReaders ws' = 0 \<and> ws_StagingPath ws' = ws_StagingPath ws \<and> ws_Path ws' = ws_Path ws \<and>
    ws_Size ws' = ws_Size ws \<and> ws_mtime ws' = ws_mtime ws \<and> ws_Multipart ws' = ws_Multipart ws"
  using assms by (auto simp: detachFromUploadsLocked_def Let_def split: if_splits)

lemma detach_bytes:
  assumes "detachFromUploadsLocked fl now keep (ws, d) = (None, (ws', d'))"
    and "ws_File ws = Some i" and "0 \<le> keep"
  shows "\<exists>j. ws_File ws' = Some j \<and>
    dk_inodes d' j = (if ws_uploadReaders ws = 0 then dk_inodes d i else take (nat keep) (dk_inodes d i))"
  using assms by (auto simp: detachFromUploadsLocked_def Let_def split: if_splits)

section \<open>Every operation keeps the invariant\<close>

lemma names_ok_File:
  "upload_ok (with_session (ws, d) u) \<Longrightarrow> ws_File ws = Some i \<Longrightarrow>
     data_inode d (ws_StagingPath ws) = Some i"
  by (simp add: upload_ok_def names_ok_def)

lemma upload_ok_change_same:
  assumes "upload_ok (with_session (ws, d) u)" and "ws_uploadReaders ws = 0" and "ws_File ws = Some i"
    and "same_file (ws, set_inode i bs now d) (ws', set_inode i bs now d)"
  shows "upload_ok (with_session (ws', set_inode i bs now d) u)"
  using upload_ok_same_file [OF upload_ok_change [OF assms(1,2) names_ok_File [OF assms(1,3)]] assms(4)] .

lemma upload_ok_write:
  assumes "upload_ok (with_session st u)"
  shows "upload_ok (with_session (snd (write_locked fl k now data offset st)) u)"
proof -
  obtain ws d where st: "st = (ws, d)" by (cases st)
  obtain e ws1 d1 where det: "detachFromUploadsLocked fl now (ws_Size ws) (ws, d) = (e, (ws1, d1))"
    by (metis surj_pair)
  have ok: "upload_ok (with_session (ws1, d1) u)"
    using upload_ok_detach [OF _ det] assms st by simp
  have "ws_uploadReaders ws1 = 0" if "e = None"
    using detach_None [of fl now "ws_Size ws" ws d ws1 d1] det that by simp
  then show ?thesis
    using ok det
    by (cases e; cases "ws_File ws1")
      (auto simp: write_locked_def st Let_def same_file_def intro!: upload_ok_change_same)
qed

lemma upload_ok_truncate:
  assumes "upload_ok (with_session st u)"
  shows "upload_ok (with_session (snd (truncate_locked fl now sz st)) u)"
proof -
  obtain ws d where st: "st = (ws, d)" by (cases st)
  obtain e ws1 d1 where det: "detachFromUploadsLocked fl now (min sz (ws_Size ws)) (ws, d) = (e, (ws1, d1))"
    by (metis surj_pair)
  have ok: "upload_ok (with_session (ws1, d1) u)"
    using upload_ok_detach [OF _ det] assms st by simp
  have "ws_uploadReaders ws1 = 0" if "e = None"
    using detach_None [of fl now "min sz (ws_Size ws)" ws d ws1 d1] det that by simp
  then show ?thesis
    using ok det
    by (cases e; cases "ws_File ws1")
      (auto simp: truncate_locked_def st Let_def same_file_def intro!: upload_ok_change_same)
qed

text \<open>A download replaces the bytes of the file under the staging path.\<close>

lemma upload_ok_download:
  assumes "upload_ok (with_session (ws, d) u)" and "ws_uploadReaders ws = 0"
  shows "upload_ok (with_session (ws, snd (DownloadToFile fl now ans (ws_StagingPath ws) d)) u)"
proof (cases "data_inode d (ws_StagingPath ws)")
  case (Some i)
  then have "os_lookup d (ws_StagingPath ws) = Some (DataFile i)"
    by (auto simp: data_inode_def split: option.splits dir_entry.splits)
  then show ?thesis
    using assms upload_ok_change [OF assms Some]
    by (auto simp: DownloadToFile_def os_OpenCreate_def split: sum.split prod.split)
next
  case None
  show ?thesis
  proof (cases "os_lookup d (ws_StagingPath ws)")
    case (Some e)
    with None assms(1) show ?thesis
      by (auto simp: DownloadToFile_def os_OpenCreate_def data_inode_def
          split: sum.split prod.split dir_entry.splits)
  next
    case missing: None
    have closed: "ws_File ws = None"
      using None names_ok_File [OF assms(1)] by (cases "ws_File ws") auto
    have none: "current_snaps (with_session (ws, d) u) = []"
      using assms by (simp add: upload_ok_def)
    have old: "us_generation s \<noteq> ws_fileGeneration ws \<and> snap_ok (with_session (ws, d) u) (s, b)"
      if "(s, b) \<in> set (open_snaps u)" for s b
      using none that assms(1) by (auto simp: current_snaps_def filter_empty_conv upload_ok_def)
    define D where "D bs = set_inode (dk_next d) bs now
       (d\<lparr>dk_names := gm_set (ws_StagingPath ws) (DataFile (dk_next d)) (dk_names d),
          dk_inodes := (dk_inodes d)(dk_next d := []), dk_mtime := (dk_mtime d)(dk_next d := now),
          dk_next := dk_next d + 1\<rparr>)" for bs
    have "upload_ok (with_session (ws, D bs) u)" for bs
    proof -
      have at: "data_inode (D bs) (ws_StagingPath ws) = Some (dk_next d)"
        by (simp add: data_inode_def os_lookup_def D_def)
      have "snap_ok (with_session (ws, D bs) u) (s, b)" if "(s, b) \<in> set (open_snaps u)" for s b
        using old [OF that] at by (auto simp: snap_ok_def D_def)
      moreover have "names_ok (with_session (ws, D bs) u)"
        using at closed by (simp add: names_ok_def D_def)
      moreover have "current_snaps (with_session (ws, D bs) u) = []"
        using none by (simp add: current_snaps_def)
      ultimately show ?thesis
        using assms(2) by (auto simp: upload_ok_def)
    qed
    then show ?thesis
      using assms(1) missing
      by (auto simp: DownloadToFile_def os_OpenCreate_def D_def split: sum.split prod.split)
  qed
qed

lemma upload_ok_Prefetch:
  assumes "upload_ok (with_session st u)"
  shows "upload_ok (with_session (snd (Prefetch fl now (DownloadToFile fl now ans) st)) u)"
proof (cases "ws_Prefetched (fst st)")
  case True
  with assms show ?thesis by (simp add: Prefetch_def)
next
  case False
  obtain ws d where st: "st = (ws, d)" by (cases st)
  obtain e ws1 d1 where det: "detachFromUploadsLocked fl now 0 (ws, d) = (e, (ws1, d1))"
    by (metis surj_pair)
  have ok: "upload_ok (with_session (ws1, d1) u)"
    using upload_ok_detach [OF _ det] assms st by simp
  show ?thesis
  proof (cases e)
    case (Some err)
    with False det ok show ?thesis by (simp add: Prefetch_def st)
  next
    case None
    then have r: "ws_uploadReaders ws1 = 0"
      using detach_None [of fl now 0 ws d ws1 d1] det by simp
    obtain e2 d2 where dl: "DownloadToFile fl now ans (ws_StagingPath ws1) d1 = (e2, d2)"
      by (metis surj_pair)
    have ok2: "upload_ok (with_session (ws1, d2) u)"
      using upload_ok_download [OF ok r, of fl now ans] dl by simp
    with False det None dl r show ?thesis
      by (cases e2; cases "ws_File ws1")
        (auto simp: Prefetch_def st Let_def same_file_def intro!: upload_ok_change_same
          intro: upload_ok_same_file [OF ok2])
  qed
qed

lemma same_file_persist: "same_file st (persistAttributes fl st)"
  by (auto simp: persistAttributes_def persistSessionAttributes_def same_file_def stagedAttributes_def
      metadataChanged_def Let_def writePath_disk split: prod.splits sum.splits option.splits)

lemma same_file_trans: "same_file a b \<Longrightarrow> same_file b c \<Longrightarrow> same_file a c"
  by (auto simp: same_file_def split: prod.splits)

lemma same_file_update:
  assumes "\<And>d. same_file (fst st, d) (change (fst st), d)"
  shows "same_file st (updateAttributes fl change st)"
proof -
  obtain ws d where st: "st = (ws, d)" by (cases st)
  have "same_file (ws, d) ((change ws)\<lparr>ws_attributesSet := True\<rparr>, d)"
    using assms [of d] by (simp add: st same_file_def)
  from same_file_trans [OF this same_file_persist] show ?thesis
    by (simp add: updateAttributes_def st)
qed

lemma same_file_attrs:
  "same_file st (SetMode fl md st)" "same_file st (SetOwner fl uid gid st)"
  "same_file st (SetBirthTime fl t st)" "same_file st (SetWindowsAttributes fl flags st)"
  "same_file st (SetStreams fl strs st)" "same_file st (SetTimes fl t1 t2 st)"
  unfolding SetMode_def SetOwner_def SetBirthTime_def SetWindowsAttributes_def SetStreams_def SetTimes_def
  by (rule same_file_update, simp add: same_file_def Let_def)+

lemma same_file_seed:
  "same_file st (SeedAttributes fl attrs st)" "same_file st (SetCreationIfUnset fl t md st)"
  using same_file_trans [OF _ same_file_persist, of st "(setAttributesLocked attrs (fst st), snd st)" fl]
    same_file_trans [OF _ same_file_persist, of st
      "((let ws1 = (fst st)\<lparr>ws_btime := t\<rparr>; ws2 = (if md \<noteq> 0 then ws1\<lparr>ws_Mode := md\<rparr> else ws1)
         in ws2\<lparr>ws_attributesSet := True\<rparr>), snd st)" fl]
  by (auto simp: SeedAttributes_def SetCreationIfUnset_def setAttributesLocked_def same_file_def Let_def
      split: prod.splits)

lemma upload_ok_move:
  assumes "upload_ok (with_session (ws, d) u)"
  shows "upload_ok (with_session
    (snd (moveStagingFile new (os_Rename fl (ws_StagingPath ws) new) (ws, d))) u)"
proof (cases "os_Rename fl (ws_StagingPath ws) new d")
  case (Pair e d')
  show ?thesis
  proof (cases e)
    case None
    have "data_inode d' new = data_inode d (ws_StagingPath ws)" "dk_inodes d' = dk_inodes d"
      "dk_next d' = dk_next d"
      using os_Rename_None [of fl "ws_StagingPath ws" new d d' new] Pair None
        os_inodes(3,4) [of fl "ws_StagingPath ws" new d] by (auto intro: data_inode_cong)
        (simp add: data_inode_def)
    with assms Pair None show ?thesis
      by (simp add: moveStagingFile_def upload_ok_def names_ok_def snap_ok_def current_snaps_def)
  next
    case (Some err)
    with Pair have "d' = d" by (auto dest: os_Rename_Some)
    with Pair Some assms show ?thesis by (simp add: moveStagingFile_def)
  qed
qed

text \<open>Opening a snapshot adds it, with the bytes its file holds, and closing one marks it closed.\<close>

definition open_snapshot :: "faults \<Rightarrow> upload_state \<Rightarrow> upload_state" where
  "open_snapshot fl u =
     (case OpenUploadSnapshot fl [] (session_of u) of
        (Inl _, st) \<Rightarrow> with_session st u
      | (Inr s, st) \<Rightarrow>
          (with_session st u)\<lparr>up_snaps := (s, dk_inodes (snd st) (us_File s)) # up_snaps u\<rparr>)"

definition close_snapshot :: "nat \<Rightarrow> upload_state \<Rightarrow> upload_state" where
  "close_snapshot n u =
     (if n < length (up_snaps u)
      then let (s, bs) = up_snaps u ! n; (s', ws') = UploadSnapshot_Close s (up_ws u)
           in u\<lparr>up_ws := ws', up_snaps := (up_snaps u)[n := (s', bs)]\<rparr>
      else u)"

lemma upload_ok_open:
  assumes "upload_ok u"
  shows "upload_ok (open_snapshot fl u)"
proof -
  obtain ws d where wd: "up_ws u = ws" "up_disk u = d" by blast
  show ?thesis
    using assms
    by (cases "ws_File ws"; cases "data_inode d (ws_StagingPath ws)")
      (auto simp: open_snapshot_def OpenUploadSnapshot_def session_of_def wd with_session_def
        upload_ok_def names_ok_def snap_ok_def open_snaps_def current_snaps_def)
qed

lemma upload_ok_close:
  assumes "upload_ok u"
  shows "upload_ok (close_snapshot n u)"
proof (cases "n < length (up_snaps u)")
  case False
  with assms show ?thesis by (simp add: close_snapshot_def)
next
  case True
  obtain s bs where x: "up_snaps u ! n = (s, bs)" by (cases "up_snaps u ! n")
  obtain A B where xs: "up_snaps u = A @ (s, bs) # B" and n: "length A = n"
    using id_take_nth_drop [OF True] x True by (metis length_take min.absorb4)
  let ?ws = "up_ws u"
  show ?thesis
  proof (cases "us_closed s")
    case True
    have "(up_snaps u)[n := (s, bs)] = up_snaps u" using x by (metis list_update_id)
    with True assms \<open>n < length (up_snaps u)\<close> x show ?thesis
      by (simp add: close_snapshot_def UploadSnapshot_Close_def)
  next
    case False
    have s_ok: "snap_ok u (s, bs)"
      using assms False xs by (auto simp: upload_ok_def open_snaps_def)
    define ws' where "ws' = snd (UploadSnapshot_Close s ?ws)"
    have ws': "ws_File ws' = ws_File ?ws" "ws_StagingPath ws' = ws_StagingPath ?ws"
      "ws_fileGeneration ws' = ws_fileGeneration ?ws"
      by (auto simp: ws'_def UploadSnapshot_Close_def)
    define u' where "u' = u\<lparr>up_ws := ws', up_snaps := A @ (s\<lparr>us_closed := True\<rparr>, bs) # B\<rparr>"
    have u': "close_snapshot n u = u'"
      using True x False n
      by (auto simp: close_snapshot_def u'_def ws'_def xs UploadSnapshot_Close_def)
    have sub: "set (open_snaps u') \<subseteq> set (open_snaps u)"
      by (auto simp: open_snaps_def u'_def xs)
    have count: "int (length (current_snaps u')) = ws_uploadReaders ws'"
    proof -
      have c: "int (length (current_snaps u)) = ws_uploadReaders ?ws"
        using assms by (simp add: upload_ok_def)
      show ?thesis
        using c False
        by (cases "us_generation s = ws_fileGeneration ?ws")
          (auto simp: current_snaps_def open_snaps_def u'_def xs ws'_def UploadSnapshot_Close_def)
    qed
    have "snap_ok u' y" if "y \<in> set (open_snaps u')" for y
    proof -
      have "snap_ok u y" using assms sub that by (auto simp: upload_ok_def)
      then show ?thesis by (cases y) (simp add: snap_ok_def u'_def ws')
    qed
    moreover have "names_ok u'"
      using assms by (simp add: upload_ok_def names_ok_def u'_def ws')
    ultimately show ?thesis using count by (auto simp: upload_ok_def u' u'_def)
  qed
qed

section \<open>Any interleaving of session operations\<close>

inductive upload_step :: "upload_state \<Rightarrow> upload_state \<Rightarrow> bool" where
  st_write: "upload_step u (with_session (snd (write_locked fl k now data offset (session_of u))) u)"
| st_truncate: "upload_step u (with_session (snd (truncate_locked fl now sz (session_of u))) u)"
| st_prefetch: "upload_step u
    (with_session (snd (Prefetch fl now (DownloadToFile fl now ans) (session_of u))) u)"
| st_read: "upload_step u (with_session (snd (WriteSession_Read fl now len offset (session_of u))) u)"
| st_open: "upload_step u (open_snapshot fl u)"
| st_close: "upload_step u (close_snapshot n u)"
| st_attrs: "st \<in> {SetMode fl md (session_of u), SetOwner fl uid gid (session_of u),
      SetBirthTime fl t (session_of u), SetWindowsAttributes fl flags (session_of u),
      SetStreams fl strs (session_of u), SetTimes fl t t' (session_of u),
      SeedAttributes fl attrs (session_of u), SetCreationIfUnset fl t md (session_of u)} \<Longrightarrow>
    upload_step u (with_session st u)"
| st_move: "upload_step u (with_session
    (snd (moveStagingFile new (os_Rename fl (ws_StagingPath (up_ws u)) new) (session_of u))) u)"
| st_refs: "ws \<in> {IncrementRefCount (up_ws u), DecrementRefCount (up_ws u), metadataChanged (up_ws u),
      metadataCommitted v (up_ws u), snd (WriteSession_Close fl (up_ws u))} \<Longrightarrow>
    upload_step u (u\<lparr>up_ws := ws\<rparr>)"

inductive_cases upload_stepE: "upload_step u u'"

lemma upload_ok_File_None:
  assumes "upload_ok u" and "ws_File ws = ws_File (up_ws u) \<or> ws_File ws = None"
    and "ws_StagingPath ws = ws_StagingPath (up_ws u)" "ws_fileGeneration ws = ws_fileGeneration (up_ws u)"
    and "ws_uploadReaders ws = ws_uploadReaders (up_ws u)"
  shows "upload_ok (u\<lparr>up_ws := ws\<rparr>)"
  using assms(2)
proof
  assume "ws_File ws = ws_File (up_ws u)"
  with assms(1,3-5) show ?thesis
    by (auto simp: upload_ok_def names_ok_def snap_ok_def current_snaps_def open_snaps_def)
next
  assume "ws_File ws = None"
  with assms(1,3-5) show ?thesis
    by (auto simp: upload_ok_def names_ok_def snap_ok_def current_snaps_def open_snaps_def)
qed

lemma upload_ok_step:
  assumes "upload_step u u'" and "upload_ok u"
  shows "upload_ok u'"
proof -
  have ok: "upload_ok (with_session (session_of u) u)" using assms(2) by simp
  from assms(1) show ?thesis
  proof (cases rule: upload_step.cases)
    case (st_read fl now len offset)
    have "same_file (session_of u) (snd (WriteSession_Read fl now len offset (session_of u)))"
      by (auto simp: WriteSession_Read_def session_of_def same_file_def Let_def split: option.split)
    from upload_ok_same_file [OF ok this] st_read show ?thesis by simp
  next
    case (st_attrs st fl md uid gid t flags strs t' attrs)
    then have "same_file (session_of u) st"
      using same_file_attrs [of "session_of u" fl] same_file_seed [of "session_of u" fl] by auto
    from upload_ok_same_file [OF ok this] st_attrs show ?thesis by simp
  next
    case (st_refs ws v fl)
    then show ?thesis
      using upload_ok_File_None [OF assms(2), of ws]
      by (auto simp: IncrementRefCount_def DecrementRefCount_def metadataChanged_def
          metadataCommitted_def WriteSession_Close_def split: if_splits)
  next
    case (st_move new fl)
    then show ?thesis using upload_ok_move [of "up_ws u" "up_disk u" u new fl] ok
      by (simp add: session_of_def)
  qed (use ok assms(2) in \<open>auto intro: upload_ok_write upload_ok_truncate upload_ok_Prefetch
        upload_ok_open upload_ok_close\<close>)
qed

lemma detach_keeps:
  assumes "detachFromUploadsLocked fl now keep st = (e, st')"
  shows "ws_RefCount (fst st') = ws_RefCount (fst st) \<and> ws_StagingPath (fst st') = ws_StagingPath (fst st)"
  using assms by (cases st) (auto simp: detachFromUploadsLocked_def Let_def split: if_splits)

lemma change_keeps:
  "ws_RefCount (fst (snd (write_locked fl k now data offset st))) = ws_RefCount (fst st)"
  "ws_StagingPath (fst (snd (write_locked fl k now data offset st))) = ws_StagingPath (fst st)"
  "ws_RefCount (fst (snd (truncate_locked fl now sz st))) = ws_RefCount (fst st)"
  "ws_StagingPath (fst (snd (truncate_locked fl now sz st))) = ws_StagingPath (fst st)"
  using detach_keeps [of fl now "ws_Size (fst st)" st] detach_keeps [of fl now "min sz (ws_Size (fst st))" st]
  by (auto simp: write_locked_def truncate_locked_def Let_def split: prod.splits option.splits)

section \<open>Properties\<close>

lemma OpenCreate_data_inode:
  assumes "os_OpenCreate fl now p d = (Inr i, d1)"
    and "\<forall>i. data_inode d p = Some i \<longrightarrow> i < dk_next d"
  shows "data_inode d1 p = Some i \<and> i < dk_next d1"
  using assms by (auto simp: os_OpenCreate_def data_inode_def os_lookup_def
      split: if_splits option.splits dir_entry.splits)

lemma EnsurePathMetadata_disk:
  assumes "EnsurePathMetadata fl path p d = (e, d')"
  shows "data_inode d' p = data_inode d p \<and> dk_next d' = dk_next d \<and> dk_inodes d' = dk_inodes d"
  using assms writePath_disk
  by (auto simp: EnsurePathMetadata_def Let_def split: sum.splits stg_error.splits prod.splits if_splits)

lemma upload_ok_New:
  assumes "NewWriteSession fl now manager path p d = (Inr ws, d')"
    and "\<forall>i. data_inode d p = Some i \<longrightarrow> i < dk_next d"
  shows "upload_ok \<lparr>up_ws = ws, up_disk = d', up_snaps = []\<rparr>"
proof -
  obtain i d1 where op: "os_OpenCreate fl now p d = (Inr i, d1)"
    using assms(1) by (auto simp: NewWriteSession_def split: prod.splits sum.splits)
  have d1: "data_inode d1 p = Some i \<and> i < dk_next d1"
    by (rule OpenCreate_data_inode [OF op assms(2)])
  obtain e d2 where en: "EnsurePathMetadata fl path p d1 = (e, d2)" by (metis surj_pair)
  from EnsurePathMetadata_disk [OF en] d1 assms(1) op en show ?thesis
    by (auto simp: NewWriteSession_def Let_def upload_ok_def names_ok_def current_snaps_def
        open_snaps_def split: if_splits)
qed

lemma upload_ok_steps: "upload_step\<^sup>*\<^sup>* u u' \<Longrightarrow> upload_ok u \<Longrightarrow> upload_ok u'"
  by (induction rule: rtranclp_induct) (auto intro: upload_ok_step)

text \<open>
  C2: an upload never sees its bytes change. From a new session on, whatever sequence of writes,
  truncates, prefetches, attribute changes, renames, closes and other uploads follows, with
  any of the system calls failing, the file an open snapshot reads holds exactly the
  bytes it held when the snapshot was taken.
\<close>

theorem snapshot_immutable:
  assumes "NewWriteSession fl now manager path p d = (Inr ws, d')"
    and "\<forall>i. data_inode d p = Some i \<longrightarrow> i < dk_next d"
    and "upload_step\<^sup>*\<^sup>* \<lparr>up_ws = ws, up_disk = d', up_snaps = []\<rparr> u"
    and "(s, bs) \<in> set (up_snaps u)" "\<not> us_closed s"
  shows "dk_inodes (up_disk u) (us_File s) = bs"
proof -
  have "upload_ok u" by (rule upload_ok_steps [OF assms(3) upload_ok_New [OF assms(1,2)]])
  with assms(4,5) have "snap_ok u (s, bs)" by (auto simp: upload_ok_def open_snaps_def)
  then show ?thesis by (simp add: snap_ok_def)
qed

definition sample_session :: session_state where
  "sample_session =
     (case NewWriteSession no_faults 1 False ''/a'' ''x.data'' empty_disk of
        (Inr ws, d) \<Rightarrow> snd (write_locked no_faults 0 2 [1, 2, 3] 0 (ws, d)))"

definition sample_upload :: upload_state where
  "sample_upload =
     open_snapshot no_faults
       \<lparr>up_ws = fst sample_session, up_disk = snd sample_session, up_snaps = []\<rparr>"

definition sample_uploading :: upload_state where
  "sample_uploading =
     with_session (snd (write_locked no_faults 0 3 [9] 1 (session_of sample_upload))) sample_upload"

theorem snapshot_immutable_witness:
  "map (\<lambda>(s, bs). (bs, dk_inodes (up_disk sample_uploading) (us_File s))) (up_snaps sample_uploading) =
     [([1, 2, 3], [1, 2, 3])]"
proof -
  define ws where "ws = (case NewWriteSession no_faults 1 False ''/a'' ''x.data'' empty_disk of
    (Inr ws, d) \<Rightarrow> ws)"
  define d where "d = snd (NewWriteSession no_faults 1 False ''/a'' ''x.data'' empty_disk)"
  have new: "NewWriteSession no_faults 1 False ''/a'' ''x.data'' empty_disk = (Inr ws, d)"
    by (simp add: ws_def d_def NewWriteSession_def os_OpenCreate_def empty_disk_def os_lookup_def Let_def)
  let ?u0 = "\<lparr>up_ws = ws, up_disk = d, up_snaps = []\<rparr>"
  let ?u1 = "with_session (snd (write_locked no_faults 0 2 [1, 2, 3] 0 (session_of ?u0))) ?u0"
  have u1: "\<lparr>up_ws = fst sample_session, up_disk = snd sample_session, up_snaps = []\<rparr> = ?u1"
    unfolding sample_session_def new by (simp add: with_session_def session_of_def)
  have s1: "upload_step ?u0 ?u1" by (rule st_write)
  have s2: "upload_step ?u1 sample_upload"
    unfolding sample_upload_def u1 by (rule st_open)
  have s3: "upload_step sample_upload sample_uploading"
    unfolding sample_uploading_def by (rule st_write)
  have steps: "upload_step\<^sup>*\<^sup>* ?u0 sample_uploading"
    by (rule converse_rtranclp_into_rtranclp [OF s1 converse_rtranclp_into_rtranclp [OF s2
          r_into_rtranclp [of upload_step, OF s3]]])
  obtain s where s: "up_snaps sample_uploading = [(s, [1, 2, 3])]" "\<not> us_closed s"
  proof -
    have "map (\<lambda>(s, bs). (us_closed s, bs)) (up_snaps sample_uploading) = [(False, [1, 2, 3])]"
      by code_simp
    with that show ?thesis by (auto simp: map_eq_Cons_conv)
  qed
  have "dk_inodes (up_disk sample_uploading) (us_File s) = [1, 2, 3]"
    by (rule snapshot_immutable [OF new _ steps, of s "[1, 2, 3]"])
      (use s in \<open>auto simp: empty_disk_def data_inode_def os_lookup_def\<close>)
  with s show ?thesis by simp
qed

text \<open>An open session whose recorded size is the length of its file.\<close>

definition session_ok :: "session_state \<Rightarrow> bool" where
  "session_ok = (\<lambda>(ws, d). case ws_File ws of
     None \<Rightarrow> False | Some i \<Rightarrow> int (length (dk_inodes d i)) = ws_Size ws)"

definition staged_bytes :: "session_state \<Rightarrow> bytes" where
  "staged_bytes = (\<lambda>(ws, d). case ws_File ws of None \<Rightarrow> [] | Some i \<Rightarrow> dk_inodes d i)"

lemma session_okD:
  assumes "session_ok (ws, d)"
  obtains i where "ws_File ws = Some i" "int (length (dk_inodes d i)) = ws_Size ws"
    "staged_bytes (ws, d) = dk_inodes d i"
  using assms by (auto simp: session_ok_def staged_bytes_def split: option.splits)

lemma detach_no_faults:
  assumes "session_ok (ws, d)" and "keep \<le> ws_Size ws"
  shows "\<exists>ws' d'. detachFromUploadsLocked no_faults now keep (ws, d) = (None, (ws', d'))"
proof -
  obtain i where i: "ws_File ws = Some i" "int (length (dk_inodes d i)) = ws_Size ws"
    using assms(1) by (rule session_okD)
  have "int (length (take (nat keep) (dk_inodes d i))) \<ge> keep" if "keep > 0"
    using assms(2) i(2) that by simp
  with i show ?thesis
    by (auto simp: detachFromUploadsLocked_def Let_def split: if_splits)
qed

lemma detach_staged:
  assumes "session_ok (ws, d)" and "0 \<le> keep"
    and "detachFromUploadsLocked fl now keep (ws, d) = (None, (ws', d'))"
  obtains j where "ws_File ws' = Some j"
    "dk_inodes d' j = (if ws_uploadReaders ws = 0 then staged_bytes (ws, d)
       else take (nat keep) (staged_bytes (ws, d)))"
  using assms(1) detach_bytes [OF assms(3) _ assms(2)] by (metis session_okD)

lemma write_effect:
  assumes "session_ok (ws, d)" and "0 \<le> offset" and "data \<noteq> []"
  shows "\<exists>dropped ws' d'. write_locked no_faults k now data offset (ws, d) =
      ((length data, dropped, None), (ws', d')) \<and>
    staged_bytes (ws', d') = pwrite (staged_bytes (ws, d)) (nat offset) data \<and>
    session_ok (ws', d') \<and> ws_Dirty ws' \<and>
    fst (WriteSession_Read no_faults now' (length data) offset (ws', d')) = Inr data"
proof -
  obtain ws1 d1 where det: "detachFromUploadsLocked no_faults now (ws_Size ws) (ws, d) = (None, (ws1, d1))"
    using detach_no_faults [OF assms(1) order.refl] by blast
  have sz: "0 \<le> ws_Size ws" "length (staged_bytes (ws, d)) = nat (ws_Size ws)"
    using assms(1) by (auto elim!: session_okD)
  obtain j where j: "ws_File ws1 = Some j" "dk_inodes d1 j = staged_bytes (ws, d)"
    using detach_staged [OF assms(1) sz(1) det] sz(2) by (metis order.refl take_all)
  have ws1: "ws_Size ws1 = ws_Size ws"
    using detach_None [OF det] by simp
  let ?new = "pwrite (staged_bytes (ws, d)) (nat offset) data"
  have len: "int (length ?new) = max (ws_Size ws) (offset + int (length data))"
    using assms(2,3) sz by (simp add: length_pwrite)
  obtain dropped ws' d' where wr: "write_locked no_faults k now data offset (ws, d) =
      ((length data, dropped, None), (ws', d'))"
    and ws': "ws_File ws' = Some j" "dk_inodes d' j = ?new" "ws_Dirty ws'"
      "ws_Size ws' = max (ws_Size ws) (offset + int (length data))"
    using det j ws1 assms(2) by (auto simp: write_locked_def Let_def max_def)
  have "take (length data) (drop (nat offset) ?new) = data"
    by (rule pwrite_read_back [OF assms(3)])
  then have "fst (WriteSession_Read no_faults now' (length data) offset (ws', d')) = Inr data"
    using ws' assms(2,3) by (simp add: WriteSession_Read_def Let_def length_pwrite)
  with wr ws' len show ?thesis
    by (auto simp: staged_bytes_def session_ok_def)
qed

text \<open>
  C13: writing to a session whose recorded size is right, with or without an upload reading the
  staging file, gives exactly the bytes of a positional write (the gap after the old
  end filled with zeros), keeps the recorded size right, marks the session dirty, and
  reading the range back returns the data.
\<close>

theorem write_then_read:
  assumes "session_ok (ws, d)" and "0 \<le> offset" and "data \<noteq> []"
  shows "\<exists>dropped ws' d'. write_locked no_faults k now data offset (ws, d) =
      ((length data, dropped, None), (ws', d')) \<and>
    staged_bytes (ws', d') = pwrite (staged_bytes (ws, d)) (nat offset) data \<and>
    session_ok (ws', d') \<and> ws_Dirty ws' \<and>
    fst (WriteSession_Read no_faults now' (length data) offset (ws', d')) = Inr data"
  by (rule write_effect [OF assms])

lemma sample_session_ok: "session_ok sample_session" "staged_bytes sample_session = [1, 2, 3]"
  "session_ok (session_of sample_upload)"
  by code_simp+

theorem write_then_read_witness:
  "\<exists>r st. write_locked no_faults 0 9 [7] 5 (session_of sample_upload) = (r, st) \<and>
     staged_bytes st = [1, 2, 3, 0, 0, 7]"
proof -
  have "pwrite (staged_bytes (session_of sample_upload)) (nat 5) [7] = [1, 2, 3, 0, 0, 7]"
    by code_simp
  with write_then_read [of "fst (session_of sample_upload)" "snd (session_of sample_upload)" 5 "[7]" 0 9 9]
    sample_session_ok(3) show ?thesis by fastforce
qed

lemma truncate_effect:
  assumes "session_ok (ws, d)" and "0 \<le> sz"
  shows "\<exists>ws' d'. truncate_locked no_faults now sz (ws, d) = (None, (ws', d')) \<and>
    staged_bytes (ws', d') = ftruncate (staged_bytes (ws, d)) (nat sz) \<and> session_ok (ws', d')"
proof -
  let ?keep = "min sz (ws_Size ws)"
  obtain ws1 d1 where det: "detachFromUploadsLocked no_faults now ?keep (ws, d) = (None, (ws1, d1))"
    using detach_no_faults [OF assms(1), of ?keep now] by auto
  have len: "0 \<le> ws_Size ws" "length (staged_bytes (ws, d)) = nat (ws_Size ws)"
    using assms(1) by (auto elim!: session_okD)
  have keep: "0 \<le> ?keep" using assms(2) len(1) by simp
  obtain j where j: "ws_File ws1 = Some j" "dk_inodes d1 j = (if ws_uploadReaders ws = 0
      then staged_bytes (ws, d) else take (nat ?keep) (staged_bytes (ws, d)))"
    using detach_staged [OF assms(1) keep det] by metis
  have "ftruncate (take (nat ?keep) (staged_bytes (ws, d))) (nat sz) =
      ftruncate (staged_bytes (ws, d)) (nat sz)"
    using len assms(2) by (auto simp: ftruncate_def min_def)
  with j det assms(2) show ?thesis
    by (auto simp: truncate_locked_def Let_def staged_bytes_def session_ok_def)
qed

text \<open>
  C14: truncating a session whose recorded size is right, with or without an upload reading the
  staging file, leaves exactly the kept prefix, extended with zeros when the file grows.
\<close>

theorem truncate_staged:
  assumes "session_ok (ws, d)" and "0 \<le> sz"
  shows "\<exists>ws' d'. truncate_locked no_faults now sz (ws, d) = (None, (ws', d')) \<and>
    staged_bytes (ws', d') = ftruncate (staged_bytes (ws, d)) (nat sz) \<and> session_ok (ws', d')"
  by (rule truncate_effect [OF assms])

theorem truncate_staged_witness:
  "\<exists>st. truncate_locked no_faults 9 2 (session_of sample_upload) = (None, st) \<and> staged_bytes st = [1, 2]"
proof -
  have "ftruncate (staged_bytes (session_of sample_upload)) (nat 2) = [1, 2]"
    by code_simp
  with truncate_staged [of "fst (session_of sample_upload)" "snd (session_of sample_upload)" 2 9]
    sample_session_ok(3) show ?thesis by auto
qed

text \<open>
  C38: writing no bytes at an offset past the end records the offset as the session's size
  although the staging file keeps its length, so the size an upload is given is more than
  the bytes there are.
\<close>

theorem empty_write_size:
  assumes "session_ok (ws, d)" and "ws_Size ws < offset"
  shows "\<exists>r ws' d'. write_locked no_faults k now [] offset (ws, d) = (r, (ws', d')) \<and>
    ws_Size ws' = offset \<and> staged_bytes (ws', d') = staged_bytes (ws, d) \<and>
    int (length (staged_bytes (ws', d'))) < ws_Size ws'"
proof -
  obtain ws1 d1 where det: "detachFromUploadsLocked no_faults now (ws_Size ws) (ws, d) = (None, (ws1, d1))"
    using detach_no_faults [OF assms(1) order.refl] by blast
  have len: "0 \<le> ws_Size ws" "length (staged_bytes (ws, d)) = nat (ws_Size ws)"
    using assms(1) by (auto elim!: session_okD)
  obtain j where j: "ws_File ws1 = Some j" "dk_inodes d1 j = staged_bytes (ws, d)"
    using detach_staged [OF assms(1) len(1) det] len(2) by (metis order.refl take_all)
  with det detach_None [OF det] assms(2) len show ?thesis
    by (auto simp: write_locked_def Let_def staged_bytes_def pwrite_def)
qed

theorem empty_write_size_witness:
  "\<exists>r st. write_locked no_faults 0 9 [] 8 sample_session = (r, st) \<and>
     ws_Size (fst st) = 8 \<and> staged_bytes st = [1, 2, 3]"
proof -
  have "ws_Size (fst sample_session) < 8" by code_simp
  with empty_write_size [of "fst sample_session" "snd sample_session" 8 0 9] sample_session_ok(1,2)
  show ?thesis by fastforce
qed

text \<open>
  C39: a truncate that the system refuses while an upload reads the staging file has already
  dropped the bytes past the new end: the operation reports an error and the session keeps
  its size, but its file holds only the kept prefix.
\<close>

theorem failed_truncate_loses_bytes:
  assumes "session_ok (ws, d)" and "ws_uploadReaders ws \<noteq> 0" and "0 \<le> sz" "sz < ws_Size ws"
    and "fl = (\<lambda>op p. op = OpTruncate)"
  shows "\<exists>e ws' d'. truncate_locked fl now sz (ws, d) = (Some e, (ws', d')) \<and>
    ws_Size ws' = ws_Size ws \<and> staged_bytes (ws', d') = take (nat sz) (staged_bytes (ws, d))"
proof -
  obtain i where i: "ws_File ws = Some i" "int (length (dk_inodes d i)) = ws_Size ws"
    "staged_bytes (ws, d) = dk_inodes d i"
    using assms(1) by (rule session_okD)
  with assms(2-4) show ?thesis
    by (auto simp: truncate_locked_def detachFromUploadsLocked_def Let_def assms(5) staged_bytes_def)
qed

theorem failed_truncate_loses_bytes_witness:
  "\<exists>e st. truncate_locked (\<lambda>op p. op = OpTruncate) 9 1 (session_of sample_upload) = (Some e, st) \<and>
     ws_Size (fst st) = 3 \<and> staged_bytes st = [1]"
proof -
  have *: "ws_uploadReaders (fst (session_of sample_upload)) \<noteq> 0"
    "ws_Size (fst (session_of sample_upload)) = 3"
    "take (nat 1) (staged_bytes (session_of sample_upload)) = [1]"
    by code_simp+
  with failed_truncate_loses_bytes [of "fst (session_of sample_upload)" "snd (session_of sample_upload)"
      1 "\<lambda>op p. op = OpTruncate" 9] sample_session_ok(3) show ?thesis by fastforce
qed

end
