(* ===== verification/Dirty_Index.thy ===== *)
theory Dirty_Index
  imports Staging_Disk
begin

text \<open>
  The index of files not yet uploaded (\<^verbatim>\<open>src/internal/staging/metadata.go\<close>): dirty entries with
  their generations, the sync claims of the workers and the unresolved conflicts. Every method
  runs under the index's mutex and is one function; the time of day it reads is an argument.
\<close>

section \<open>The index and its operations\<close>

record DirtyFileIndex =
  di_dirty :: "(string, DirtyFileMetadata) gomap"
  di_syncing :: "(string, bool) gomap"
  di_conflicts :: "(string, ConflictMetadata) gomap"
  di_generation :: int

definition NewDirtyFileIndex :: DirtyFileIndex where
  "NewDirtyFileIndex = \<lparr>di_dirty = [], di_syncing = [], di_conflicts = [], di_generation = 0\<rparr>"

definition nextGenerationLocked :: "DirtyFileIndex \<Rightarrow> int \<times> DirtyFileIndex" where
  "nextGenerationLocked di =
     (let di' = di\<lparr>di_generation := di_generation di + 1\<rparr> in (di_generation di', di'))"

definition applyPathStateToDirtyMetadata ::
  "DirtyFileMetadata \<Rightarrow> PathMetadataState option \<Rightarrow> DirtyFileMetadata" where
  "applyPathStateToDirtyMetadata meta state =
     (case state of
        None \<Rightarrow> meta
      | Some s \<Rightarrow>
          let m1 = (if ps_ObjectKey s \<noteq> [] then meta\<lparr>dm_ObjectKey := ps_ObjectKey s\<rparr> else meta);
              m2 = m1\<lparr>dm_ObservedETag := ps_ObservedETag s, dm_ObservedSize := ps_ObservedSize s,
                      dm_ObservedLastModified := ps_ObservedLastModified s\<rparr>;
              m3 = (if ps_StagedFilePath s \<noteq> [] then m2\<lparr>dm_StagedPath := ps_StagedFilePath s\<rparr> else m2)
          in if ps_ConflictStatus s \<noteq> [] then m3\<lparr>dm_ConflictStatus := ps_ConflictStatus s\<rparr> else m3)"

definition MarkDirtyWithState ::
  "gotime \<Rightarrow> string \<Rightarrow> int \<Rightarrow> PathMetadataState option \<Rightarrow> DirtyFileIndex \<Rightarrow> DirtyFileIndex" where
  "MarkDirtyWithState now path sz state di =
     (if gm_has (di_conflicts di) path then di
      else let meta = (case gm_get (di_dirty di) path of
                         Some m \<Rightarrow> m
                       | None \<Rightarrow> zero_dirty\<lparr>dm_Path := path, dm_ObjectKey := objectKeyFromPath path,
                           dm_ConflictStatus := ConflictStatusNone, dm_DirtySince := now,
                           dm_SyncAttempts := 0\<rparr>);
               (g, di1) = nextGenerationLocked di;
               meta' = applyPathStateToDirtyMetadata
                 (meta\<lparr>dm_Size := sz, dm_LastModified := now, dm_LocalDirtyGeneration := g,
                       dm_recorded := (state \<noteq> None)\<rparr>) state
           in di1\<lparr>di_dirty := gm_set path meta' (di_dirty di1)\<rparr>)"

definition DirtyFileIndex_MarkDirty :: "gotime \<Rightarrow> string \<Rightarrow> int \<Rightarrow> DirtyFileIndex \<Rightarrow> DirtyFileIndex" where
  "DirtyFileIndex_MarkDirty now path sz di = MarkDirtyWithState now path sz None di"

definition MarkDirtyAgain ::
  "gotime \<Rightarrow> string \<Rightarrow> int \<Rightarrow> DirtyFileIndex \<Rightarrow> bool \<times> DirtyFileIndex" where
  "MarkDirtyAgain now path sz di =
     (case gm_get (di_dirty di) path of
        None \<Rightarrow> (False, di)
      | Some meta \<Rightarrow>
          if \<not> dm_recorded meta then (False, di)
          else let (g, di1) = nextGenerationLocked di
               in (True, di1\<lparr>di_dirty := gm_set path
                     (meta\<lparr>dm_Size := sz, dm_LastModified := now, dm_LocalDirtyGeneration := g\<rparr>)
                     (di_dirty di1)\<rparr>))"

definition MarkUnrecorded :: "string \<Rightarrow> DirtyFileIndex \<Rightarrow> DirtyFileIndex" where
  "MarkUnrecorded path di =
     (case gm_get (di_dirty di) path of
        None \<Rightarrow> di
      | Some meta \<Rightarrow> di\<lparr>di_dirty := gm_set path (meta\<lparr>dm_recorded := False\<rparr>) (di_dirty di)\<rparr>)"

definition DirtyFileIndex_MarkClean :: "string \<Rightarrow> DirtyFileIndex \<Rightarrow> DirtyFileIndex" where
  "DirtyFileIndex_MarkClean path di =
     di\<lparr>di_dirty := gm_del path (di_dirty di), di_syncing := gm_del path (di_syncing di)\<rparr>"

definition MarkCleanIfUnchanged ::
  "string \<Rightarrow> int \<Rightarrow> DirtyFileIndex \<Rightarrow> (bool \<times> bool) \<times> DirtyFileIndex" where
  "MarkCleanIfUnchanged path generation di =
     (let wasDirty = gm_has (di_dirty di) path
      in case gm_get (di_dirty di) path of
           Some meta \<Rightarrow>
             if dm_LocalDirtyGeneration meta \<noteq> generation then ((True, False), di)
             else ((wasDirty, True), DirtyFileIndex_MarkClean path di)
         | None \<Rightarrow> ((wasDirty, True), DirtyFileIndex_MarkClean path di))"

definition MarkConflicted :: "ConflictMetadata option \<Rightarrow> DirtyFileIndex \<Rightarrow> DirtyFileIndex" where
  "MarkConflicted meta di =
     (case meta of
        None \<Rightarrow> di
      | Some c \<Rightarrow>
          if cm_Path c = [] then di
          else di\<lparr>di_dirty := gm_del (cm_Path c) (di_dirty di),
                  di_syncing := gm_del (cm_Path c) (di_syncing di),
                  di_conflicts := gm_set (cm_Path c) c (di_conflicts di)\<rparr>)"

definition RestoreDirty :: "DirtyFileMetadata \<Rightarrow> DirtyFileIndex \<Rightarrow> DirtyFileIndex" where
  "RestoreDirty meta di =
     (if dm_Path meta = [] then di
      else if gm_has (di_conflicts di) (dm_Path meta) then di
      else let m1 = (if dm_ObjectKey meta = []
                     then meta\<lparr>dm_ObjectKey := objectKeyFromPath (dm_Path meta)\<rparr> else meta);
               (g, di1) = nextGenerationLocked di;
               m2 = m1\<lparr>dm_LocalDirtyGeneration := g, dm_recorded := True\<rparr>;
               m3 = (if dm_ConflictStatus m2 = [] then m2\<lparr>dm_ConflictStatus := ConflictStatusNone\<rparr> else m2)
           in di1\<lparr>di_dirty := gm_set (dm_Path meta) m3 (di_dirty di1)\<rparr>)"

definition Invalidate :: "string \<Rightarrow> DirtyFileIndex \<Rightarrow> DirtyFileIndex" where
  "Invalidate path di =
     (case gm_get (di_dirty di) path of
        None \<Rightarrow> di
      | Some meta \<Rightarrow>
          let (g, di1) = nextGenerationLocked di
          in di1\<lparr>di_dirty := gm_set path (meta\<lparr>dm_LocalDirtyGeneration := g\<rparr>) (di_dirty di1)\<rparr>)"

definition DropEntry :: "string \<Rightarrow> DirtyFileIndex \<Rightarrow> DirtyFileIndex" where
  "DropEntry path di = di\<lparr>di_dirty := gm_del path (di_dirty di)\<rparr>"

definition DirtyFileIndex_Rekey ::
  "gotime \<Rightarrow> string \<Rightarrow> string \<Rightarrow> string \<Rightarrow> DirtyFileIndex \<Rightarrow> DirtyFileIndex" where
  "DirtyFileIndex_Rekey now oldPath newPath stagedPath di =
     (let (moved0, dirty1) =
            (case gm_get (di_dirty di) oldPath of
               Some meta \<Rightarrow> (meta, gm_del oldPath (di_dirty di))
             | None \<Rightarrow> (zero_dirty\<lparr>dm_DirtySince := now, dm_ConflictStatus := ConflictStatusNone\<rparr>,
                 di_dirty di));
          (g, di1) = nextGenerationLocked di;
          moved = moved0\<lparr>dm_Path := newPath, dm_ObjectKey := objectKeyFromPath newPath,
            dm_StagedPath := stagedPath, dm_ObservedETag := [], dm_ObservedSize := 0,
            dm_ObservedLastModified := 0, dm_LocalDirtyGeneration := g, dm_recorded := True,
            dm_LastModified := now, dm_SyncAttempts := 0, dm_LastSyncError := None\<rparr>
      in di1\<lparr>di_dirty := gm_set newPath moved dirty1\<rparr>)"

definition IsSyncing :: "string \<Rightarrow> DirtyFileIndex \<Rightarrow> bool" where
  "IsSyncing path di = gm_or False (di_syncing di) path"

definition LockFile :: "string \<Rightarrow> DirtyFileIndex \<Rightarrow> bool \<times> DirtyFileIndex" where
  "LockFile path di =
     (if gm_or False (di_syncing di) path then (False, di)
      else (True, di\<lparr>di_syncing := gm_set path True (di_syncing di)\<rparr>))"

definition UnlockFile :: "string \<Rightarrow> DirtyFileIndex \<Rightarrow> DirtyFileIndex" where
  "UnlockFile path di = di\<lparr>di_syncing := gm_del path (di_syncing di)\<rparr>"

definition IsDirty :: "string \<Rightarrow> DirtyFileIndex \<Rightarrow> bool" where
  "IsDirty path di = gm_has (di_dirty di) path"

definition IsConflicted :: "string \<Rightarrow> DirtyFileIndex \<Rightarrow> bool" where
  "IsConflicted path di = gm_has (di_conflicts di) path"

definition DirtyFileIndex_GetDirtyFiles :: "DirtyFileIndex \<Rightarrow> DirtyFileMetadata list" where
  "DirtyFileIndex_GetDirtyFiles di = map snd (di_dirty di)"

definition DirtyFileIndex_GetConflicts :: "DirtyFileIndex \<Rightarrow> ConflictMetadata list" where
  "DirtyFileIndex_GetConflicts di = map snd (di_conflicts di)"

definition GetMetadata :: "string \<Rightarrow> DirtyFileIndex \<Rightarrow> DirtyFileMetadata option" where
  "GetMetadata path di = gm_get (di_dirty di) path"

definition IncrementSyncAttempts :: "string \<Rightarrow> string option \<Rightarrow> DirtyFileIndex \<Rightarrow> DirtyFileIndex" where
  "IncrementSyncAttempts path err di =
     (case gm_get (di_dirty di) path of
        None \<Rightarrow> di
      | Some meta \<Rightarrow> di\<lparr>di_dirty := gm_set path
          (meta\<lparr>dm_SyncAttempts := dm_SyncAttempts meta + 1, dm_LastSyncError := err\<rparr>) (di_dirty di)\<rparr>)"

definition DirtyFileIndex_Count :: "DirtyFileIndex \<Rightarrow> nat" where
  "DirtyFileIndex_Count di = length (di_dirty di)"

definition ConflictCount :: "DirtyFileIndex \<Rightarrow> nat" where
  "ConflictCount di = length (di_conflicts di)"

definition LastConflictTime :: "DirtyFileIndex \<Rightarrow> gotime" where
  "LastConflictTime di =
     fold (\<lambda>(path, meta) lst. if cm_DetectedAt meta > lst then cm_DetectedAt meta else lst)
       (di_conflicts di) 0"

definition SyncingCount :: "DirtyFileIndex \<Rightarrow> nat" where
  "SyncingCount di = length (di_syncing di)"

section \<open>Stamps that are never used twice\<close>

text \<open>
  What an upload relies on to tell whether the file it read is still the file that is staged:
  every change gives the entry a stamp above all stamps handed out before.
\<close>

locale stamped =
  fixes ok :: "'i \<Rightarrow> bool"
    and change :: "'i \<Rightarrow> 'i \<Rightarrow> bool"
    and stamp :: "string \<Rightarrow> 'i \<Rightarrow> int option"
    and content :: "string \<Rightarrow> 'i \<Rightarrow> 'c"
    and bound :: "'i \<Rightarrow> int"
  assumes ok_change: "ok i \<Longrightarrow> change i j \<Longrightarrow> ok j"
    and stamp_bound: "ok i \<Longrightarrow> stamp p i = Some g \<Longrightarrow> g \<le> bound i"
    and bound_mono: "change i j \<Longrightarrow> bound i \<le> bound j"
    and stamp_change: "ok i \<Longrightarrow> change i j \<Longrightarrow> stamp p j = Some g \<Longrightarrow>
      g > bound i \<or> (stamp p i = Some g \<and> content p j = content p i)"
begin

lemma ok_changes: "change\<^sup>*\<^sup>* i j \<Longrightarrow> ok i \<Longrightarrow> ok j"
  by (induction rule: rtranclp_induct) (auto intro: ok_change)

lemma bound_changes: "change\<^sup>*\<^sup>* i j \<Longrightarrow> bound i \<le> bound j"
  by (induction rule: rtranclp_induct) (auto dest: bound_mono)

lemma stamp_changes:
  "change\<^sup>*\<^sup>* i j \<Longrightarrow> ok i \<Longrightarrow> stamp p j = Some g \<Longrightarrow>
     g > bound i \<or> (stamp p i = Some g \<and> content p j = content p i)"
proof (induction arbitrary: g rule: rtranclp_induct)
  case base
  then show ?case by simp
next
  case (step y z)
  have "ok y" "bound i \<le> bound y"
    using ok_changes [OF step.hyps(1) step.prems(1)] bound_changes [OF step.hyps(1)] by auto
  from stamp_change [OF this(1) step.hyps(2) step.prems(2)] show ?case
  proof
    assume "bound y < g"
    with \<open>bound i \<le> bound y\<close> show ?thesis by simp
  next
    assume "stamp p y = Some g \<and> content p z = content p y"
    with step.IH [OF step.prems(1)] show ?thesis by auto
  qed
qed

text \<open>A stamp seen twice was there, with the same content, all the time in between.\<close>

lemma stamp_identifies:
  assumes "ok i" "change\<^sup>*\<^sup>* i j" "change\<^sup>*\<^sup>* j k"
    and "stamp p i = Some g" "stamp p k = Some g"
  shows "stamp p j = Some g \<and> content p j = content p i \<and> content p k = content p i"
proof -
  have j: "ok j" "bound i \<le> bound j"
    using ok_changes [OF assms(2,1)] bound_changes [OF assms(2)] by auto
  have le: "g \<le> bound i" by (rule stamp_bound [OF assms(1,4)])
  from stamp_changes [OF assms(3) j(1) assms(5)] le j(2)
  have jg: "stamp p j = Some g" "content p k = content p j" by auto
  from stamp_changes [OF assms(2,1) jg(1)] le have "content p j = content p i" by auto
  with jg show ?thesis by simp
qed

end

section \<open>The index hands out such stamps\<close>

definition di_stamp :: "string \<Rightarrow> DirtyFileIndex \<Rightarrow> int option" where
  "di_stamp path di = map_option dm_LocalDirtyGeneration (GetMetadata path di)"

text \<open>What an entry says of the staged file, leaving out the bookkeeping of sync attempts.\<close>

definition staged_part :: "DirtyFileMetadata \<Rightarrow> DirtyFileMetadata" where
  "staged_part m = m\<lparr>dm_SyncAttempts := 0, dm_LastSyncError := None, dm_recorded := False\<rparr>"

definition di_content :: "string \<Rightarrow> DirtyFileIndex \<Rightarrow> DirtyFileMetadata option" where
  "di_content path di = map_option staged_part (GetMetadata path di)"

definition di_ok :: "DirtyFileIndex \<Rightarrow> bool" where
  "di_ok di \<longleftrightarrow> 0 \<le> di_generation di \<and> gm_wf (di_dirty di) \<and> gm_wf (di_syncing di) \<and> gm_wf (di_conflicts di) \<and>
     (\<forall>path m. GetMetadata path di = Some m \<longrightarrow>
        dm_Path m = path \<and> 0 < dm_LocalDirtyGeneration m \<and> dm_LocalDirtyGeneration m \<le> di_generation di) \<and>
     (\<forall>p q mp mq. GetMetadata p di = Some mp \<longrightarrow> GetMetadata q di = Some mq \<longrightarrow>
        dm_LocalDirtyGeneration mp = dm_LocalDirtyGeneration mq \<longrightarrow> p = q)"

inductive di_step :: "DirtyFileIndex \<Rightarrow> DirtyFileIndex \<Rightarrow> bool" where
  "di_step di (MarkDirtyWithState now path sz state di)"
| "di_step di (snd (MarkDirtyAgain now path sz di))"
| "di_step di (MarkUnrecorded path di)"
| "di_step di (DirtyFileIndex_MarkClean path di)"
| "di_step di (snd (MarkCleanIfUnchanged path g di))"
| "di_step di (MarkConflicted c di)"
| "di_step di (RestoreDirty meta di)"
| "di_step di (Invalidate path di)"
| "di_step di (DropEntry path di)"
| "di_step di (DirtyFileIndex_Rekey now old new staged di)"
| "di_step di (snd (LockFile path di))"
| "di_step di (UnlockFile path di)"
| "di_step di (IncrementSyncAttempts path err di)"

inductive_cases di_stepE: "di_step di di'"

text \<open>
  Every mutation puts at most one entry into the index, with the generation it has just
  taken from the counter, keeps the other entries or drops them.
\<close>

definition di_fresh :: "DirtyFileIndex \<Rightarrow> DirtyFileIndex \<Rightarrow> bool" where
  "di_fresh di di' \<longleftrightarrow>
     gm_wf (di_dirty di') \<and> gm_wf (di_syncing di') \<and> gm_wf (di_conflicts di') \<and>
     (di_generation di' = di_generation di \<or> di_generation di' = di_generation di + 1) \<and>
     (\<exists>new. (\<forall>path m. GetMetadata path di' = Some m \<longrightarrow>
        (if Some path = new
         then dm_Path m = path \<and> dm_LocalDirtyGeneration m = di_generation di + 1 \<and>
              di_generation di' = di_generation di + 1
         else \<exists>m0. GetMetadata path di = Some m0 \<and> staged_part m = staged_part m0)))"

lemma staged_part_eqD:
  assumes "staged_part m = staged_part m0"
  shows "dm_Path m = dm_Path m0" "dm_LocalDirtyGeneration m = dm_LocalDirtyGeneration m0"
proof -
  have "dm_Path (staged_part m) = dm_Path (staged_part m0)"
    "dm_LocalDirtyGeneration (staged_part m) = dm_LocalDirtyGeneration (staged_part m0)"
    using assms by simp_all
  then show "dm_Path m = dm_Path m0" "dm_LocalDirtyGeneration m = dm_LocalDirtyGeneration m0"
    by (simp_all add: staged_part_def)
qed

lemma di_fresh_put:
  assumes "di_ok di" and "dm_Path m' = path" "dm_LocalDirtyGeneration m' = di_generation di + 1"
    and "gm_wf D" and "\<And>p m. gm_get D p = Some m \<Longrightarrow> p \<noteq> path \<Longrightarrow> gm_get (di_dirty di) p = Some m"
  shows "di_fresh di (di\<lparr>di_generation := di_generation di + 1, di_dirty := gm_set path m' D\<rparr>)"
  using assms unfolding di_fresh_def di_ok_def GetMetadata_def
  by (auto intro!: exI [of _ "Some path"])

lemma di_fresh_keep:
  assumes "di_ok di" and "di_generation di' = di_generation di"
    and "gm_wf (di_dirty di')" "gm_wf (di_syncing di')" "gm_wf (di_conflicts di')"
    and "\<And>p m. GetMetadata p di' = Some m \<Longrightarrow>
      \<exists>m0. GetMetadata p di = Some m0 \<and> staged_part m = staged_part m0"
  shows "di_fresh di di'"
  using assms unfolding di_fresh_def by (auto intro!: exI [of _ None])

lemma applyPathState_simps [simp]:
  "dm_Path (applyPathStateToDirtyMetadata m st) = dm_Path m"
  "dm_LocalDirtyGeneration (applyPathStateToDirtyMetadata m st) = dm_LocalDirtyGeneration m"
  "dm_Size (applyPathStateToDirtyMetadata m st) = dm_Size m"
  by (auto simp: applyPathStateToDirtyMetadata_def Let_def split: option.split)

lemma di_ok_Path: "di_ok di \<Longrightarrow> gm_get (di_dirty di) path = Some m \<Longrightarrow> dm_Path m = path"
  by (simp add: di_ok_def GetMetadata_def)

lemma di_ok_wf:
  "di_ok di \<Longrightarrow> gm_wf (di_dirty di) \<and> gm_wf (di_syncing di) \<and> gm_wf (di_conflicts di)"
  by (simp add: di_ok_def)

lemma di_fresh_refl: "di_ok di \<Longrightarrow> di_fresh di di"
  by (rule di_fresh_keep) (auto simp: di_ok_wf)

named_theorems di_fresh

lemma di_fresh_MarkDirtyWithState [di_fresh]:
  assumes "di_ok di"
  shows "di_fresh di (MarkDirtyWithState now path sz state di)"
proof (cases "gm_has (di_conflicts di) path")
  case True
  with assms show ?thesis by (simp add: MarkDirtyWithState_def di_fresh_refl)
next
  case False
  with assms show ?thesis
    by (auto simp: MarkDirtyWithState_def Let_def nextGenerationLocked_def di_ok_Path di_ok_wf
        split: option.split intro!: di_fresh_put)
qed

lemma di_fresh_MarkDirtyAgain [di_fresh]:
  "di_ok di \<Longrightarrow> di_fresh di (snd (MarkDirtyAgain now path sz di))"
  by (auto simp: MarkDirtyAgain_def Let_def nextGenerationLocked_def di_ok_Path di_ok_wf
      split: option.split intro!: di_fresh_put di_fresh_refl)

lemma di_fresh_RestoreDirty [di_fresh]: "di_ok di \<Longrightarrow> di_fresh di (RestoreDirty meta di)"
  by (auto simp: RestoreDirty_def Let_def nextGenerationLocked_def di_ok_wf
      intro!: di_fresh_put di_fresh_refl)

lemma di_fresh_Invalidate [di_fresh]: "di_ok di \<Longrightarrow> di_fresh di (Invalidate path di)"
  by (auto simp: Invalidate_def Let_def nextGenerationLocked_def di_ok_wf di_ok_Path
      split: option.split intro!: di_fresh_put di_fresh_refl)

lemma di_fresh_Rekey [di_fresh]: "di_ok di \<Longrightarrow> di_fresh di (DirtyFileIndex_Rekey now old new staged di)"
  by (auto simp: DirtyFileIndex_Rekey_def Let_def nextGenerationLocked_def di_ok_wf
      split: option.split intro!: di_fresh_put split: if_splits)

lemma di_fresh_others [di_fresh]:
  assumes "di_ok di"
  shows "di_fresh di (MarkUnrecorded path di)" "di_fresh di (DirtyFileIndex_MarkClean path di)"
    "di_fresh di (snd (MarkCleanIfUnchanged path g di))" "di_fresh di (MarkConflicted c di)"
    "di_fresh di (DropEntry path di)" "di_fresh di (snd (LockFile path di))"
    "di_fresh di (UnlockFile path di)" "di_fresh di (IncrementSyncAttempts path err di)"
  using di_ok_wf [OF assms]
  by (auto intro!: di_fresh_keep assms simp: GetMetadata_def staged_part_def MarkUnrecorded_def
      DirtyFileIndex_MarkClean_def MarkCleanIfUnchanged_def Let_def MarkConflicted_def DropEntry_def
      LockFile_def UnlockFile_def IncrementSyncAttempts_def split: option.splits if_splits)

lemma di_fresh_step: "di_ok di \<Longrightarrow> di_step di di' \<Longrightarrow> di_fresh di di'"
  by (erule di_stepE) (auto intro: di_fresh)

lemma di_fresh_ok:
  assumes "di_ok di" and "di_fresh di di'"
  shows "di_ok di'"
proof -
  obtain new where new: "\<And>path m. GetMetadata path di' = Some m \<Longrightarrow>
        (if Some path = new
         then dm_Path m = path \<and> dm_LocalDirtyGeneration m = di_generation di + 1 \<and>
              di_generation di' = di_generation di + 1
         else \<exists>m0. GetMetadata path di = Some m0 \<and> staged_part m = staged_part m0)"
    using assms(2) unfolding di_fresh_def by blast
  have old: "dm_Path m = path \<and> 0 < dm_LocalDirtyGeneration m \<and>
      dm_LocalDirtyGeneration m \<le> di_generation di \<and>
      (\<exists>m0. GetMetadata path di = Some m0 \<and> dm_LocalDirtyGeneration m0 = dm_LocalDirtyGeneration m)"
    if at: "GetMetadata path di' = Some m" and other: "Some path \<noteq> new" for path m
  proof -
    obtain m0 where m0: "GetMetadata path di = Some m0" "staged_part m = staged_part m0"
      using new [OF at] other by auto
    with assms(1) staged_part_eqD [OF m0(2)] show ?thesis by (auto simp: di_ok_def)
  qed
  have gen: "di_generation di \<le> di_generation di'" "gm_wf (di_dirty di')" "gm_wf (di_syncing di')"
      "gm_wf (di_conflicts di')" "0 \<le> di_generation di"
    using assms by (auto simp: di_fresh_def di_ok_def)
  have entry: "dm_Path m = path \<and> 0 < dm_LocalDirtyGeneration m \<and> dm_LocalDirtyGeneration m \<le> di_generation di'"
    if "GetMetadata path di' = Some m" for path m
    using new [OF that] old [OF that] gen by (cases "Some path = new") auto
  have "p = q"
    if "GetMetadata p di' = Some mp" "GetMetadata q di' = Some mq"
      "dm_LocalDirtyGeneration mp = dm_LocalDirtyGeneration mq" for p q mp mq
    using new [OF that(1)] new [OF that(2)] old [OF that(1)] old [OF that(2)] that(3) assms(1)
    by (cases "Some p = new"; cases "Some q = new") (auto simp: di_ok_def)
  with gen entry show ?thesis unfolding di_ok_def by (auto intro: order.trans)
qed

lemma di_fresh_stamp:
  assumes "di_fresh di di'" and "di_stamp p di' = Some g"
  shows "g > di_generation di \<or> (di_stamp p di = Some g \<and> di_content p di' = di_content p di)"
proof -
  obtain m where m: "GetMetadata p di' = Some m" "dm_LocalDirtyGeneration m = g"
    using assms(2) by (auto simp: di_stamp_def)
  obtain new where "if Some p = new
      then dm_Path m = p \<and> dm_LocalDirtyGeneration m = di_generation di + 1 \<and>
           di_generation di' = di_generation di + 1
      else \<exists>m0. GetMetadata p di = Some m0 \<and> staged_part m = staged_part m0"
    using assms(1) m(1) unfolding di_fresh_def by blast
  then show ?thesis
    using m by (auto simp: di_stamp_def di_content_def split: if_splits dest: staged_part_eqD)
qed

interpretation dirty_stamps: stamped di_ok di_step di_stamp di_content di_generation
proof
  show "di_ok i \<Longrightarrow> di_step i j \<Longrightarrow> di_ok j" for i j
    by (rule di_fresh_ok [OF _ di_fresh_step])
  show "di_ok i \<Longrightarrow> di_stamp p i = Some g \<Longrightarrow> g \<le> di_generation i" for i p g
    by (auto simp: di_ok_def di_stamp_def)
  show "di_ok i \<Longrightarrow> di_step i j \<Longrightarrow> di_stamp p j = Some g \<Longrightarrow>
      g > di_generation i \<or> (di_stamp p i = Some g \<and> di_content p j = di_content p i)" for i j p g
    by (rule di_fresh_stamp [OF di_fresh_step])
  show "di_step i j \<Longrightarrow> di_generation i \<le> di_generation j" for i j
    by (erule di_stepE)
      (auto simp: MarkDirtyWithState_def MarkDirtyAgain_def MarkUnrecorded_def
        DirtyFileIndex_MarkClean_def MarkCleanIfUnchanged_def MarkConflicted_def RestoreDirty_def
        Invalidate_def DropEntry_def DirtyFileIndex_Rekey_def LockFile_def UnlockFile_def
        IncrementSyncAttempts_def nextGenerationLocked_def Let_def split: option.split)
qed

lemma di_ok_New: "di_ok NewDirtyFileIndex"
  by (simp add: di_ok_def NewDirtyFileIndex_def GetMetadata_def)

section \<open>Properties\<close>


definition sample_index :: DirtyFileIndex where
  "sample_index = MarkDirtyWithState 5 ''/a'' 3 None NewDirtyFileIndex"


end
