(* ===== verification/Sync_Protocol.thy ===== *)
theory Sync_Protocol
  imports Upload_Isolation Dirty_Index
begin

text \<open>
  Writers and the sync worker on one path, interleaved. A client's write changes the session's
  bytes under the session lock and then marks the path dirty, two separate steps
  (\<^verbatim>\<open>writeLocked\<close> and \<^verbatim>\<open>truncate\<close> of \<^verbatim>\<open>src/internal/vfs/filesystem.go\<close>); a sync reads the entry's generation, takes a
  snapshot, uploads it and marks the path clean if the generation is unchanged, each a step
  of its own (\<^verbatim>\<open>syncFileLocked\<close> of \<^verbatim>\<open>src/internal/staging/sync_worker.go\<close>). Syncs of one path are serialized by
  its object lock, so there is one job. The steps are the operations of the session and
  of the index; entries of other paths change at any time.
\<close>

section \<open>States\<close>

datatype sync_job =
  JIdle
| JGen int
| JSnap int UploadSnapshot
| JUploaded int UploadSnapshot
| JClean UploadSnapshot

text \<open>
  \<open>y_wr\<close> counts the changes made to the staged bytes and not yet marked dirty, that is, the
  writes no client has been told about. \<open>y_acc\<close> is the staged content when the last write was
  marked dirty, the content clients have been promised, and \<open>y_later\<close> what unfinished writes
  have made of it since.
\<close>

record sync_state =
  y_up :: "upload_state option"
  y_disk :: Disk
  y_di :: DirtyFileIndex
  y_obj :: "bytes option"
  y_job :: sync_job
  y_wr :: nat
  y_acc :: "bytes option"
  y_later :: "bytes list"

definition y_dirty :: "string \<Rightarrow> sync_state \<Rightarrow> bool" where
  "y_dirty p y = IsDirty p (y_di y)"

definition y_staged :: "sync_state \<Rightarrow> bytes" where
  "y_staged y = (case y_up y of None \<Rightarrow> [] | Some u \<Rightarrow> staged_bytes (session_of u))"

text \<open>Marking a path dirty after a change, as the manager does: again, or with a state.\<close>

definition y_mark :: "gotime \<Rightarrow> string \<Rightarrow> int \<Rightarrow> PathMetadataState option \<Rightarrow> DirtyFileIndex \<Rightarrow> DirtyFileIndex" where
  "y_mark now p sz state di =
     (case MarkDirtyAgain now p sz di of
        (True, di') \<Rightarrow> di'
      | (False, _) \<Rightarrow> MarkDirtyWithState now p sz state di)"

text \<open>What an upload sends: the first \<^verbatim>\<open>Size\<close> bytes of the snapshot's file.\<close>

definition uploaded_bytes :: "upload_state \<Rightarrow> UploadSnapshot \<Rightarrow> bytes" where
  "uploaded_bytes u s = take (nat (us_Size s)) (dk_inodes (up_disk u) (us_File s))"

inductive sync_step :: "string \<Rightarrow> string \<Rightarrow> sync_state \<Rightarrow> sync_state \<Rightarrow> bool" for p sp where
  open_new: "y_up y = None \<Longrightarrow> NewWriteSession fl now True p sp (y_disk y) = (Inr ws, d) \<Longrightarrow>
    sync_step p sp y (y\<lparr>y_up := Some \<lparr>up_ws = ws, up_disk = d, up_snaps = []\<rparr>\<rparr>)"
| open_again: "y_up y = Some u \<Longrightarrow>
    sync_step p sp y (y\<lparr>y_up := Some (u\<lparr>up_ws := IncrementRefCount (up_ws u)\<rparr>)\<rparr>)"
| close_handle: "y_up y = Some u \<Longrightarrow> int (y_wr y) < ws_RefCount (up_ws u) \<Longrightarrow>
    sync_step p sp y (y\<lparr>y_up := Some (u\<lparr>up_ws := DecrementRefCount (up_ws u)\<rparr>)\<rparr>)"
| change_write: "y_up y = Some u \<Longrightarrow> int (y_wr y) < ws_RefCount (up_ws u) \<Longrightarrow>
    data \<noteq> [] \<Longrightarrow> 0 \<le> offset \<Longrightarrow>
    u' = with_session (snd (write_locked no_faults k now data offset (session_of u))) u \<Longrightarrow>
    sync_step p sp y (y\<lparr>y_up := Some u', y_wr := y_wr y + 1,
      y_later := y_later y @ [staged_bytes (session_of u')]\<rparr>)"
| change_truncate: "y_up y = Some u \<Longrightarrow> int (y_wr y) < ws_RefCount (up_ws u) \<Longrightarrow> 0 \<le> sz \<Longrightarrow>
    u' = with_session (snd (truncate_locked no_faults now sz (session_of u))) u \<Longrightarrow>
    sync_step p sp y (y\<lparr>y_up := Some u', y_wr := y_wr y + 1,
      y_later := y_later y @ [staged_bytes (session_of u')]\<rparr>)"
| mark: "y_up y = Some u \<Longrightarrow> y_wr y = Suc n \<Longrightarrow> \<not> IsConflicted p (y_di y) \<Longrightarrow>
    sync_step p sp y (y\<lparr>y_di := y_mark now p (ws_Size (up_ws u)) state (y_di y), y_wr := n,
      y_acc := Some (staged_bytes (session_of u)), y_later := []\<rparr>)"
| sync_start: "y_job y = JIdle \<Longrightarrow> GetMetadata p (y_di y) = Some m \<Longrightarrow>
    sync_step p sp y (y\<lparr>y_job := JGen (dm_LocalDirtyGeneration m)\<rparr>)"
| sync_snapshot: "y_job y = JGen g \<Longrightarrow> y_up y = Some u \<Longrightarrow>
    OpenUploadSnapshot fl [] (session_of u) = (Inr s, st) \<Longrightarrow>
    sync_step p sp y (y\<lparr>y_up := Some (open_snapshot fl u), y_job := JSnap g s\<rparr>)"
| sync_upload: "y_job y = JSnap g s \<Longrightarrow> y_up y = Some u \<Longrightarrow>
    sync_step p sp y (y\<lparr>y_obj := Some (uploaded_bytes u s), y_job := JUploaded g s\<rparr>)"
| sync_failed: "sync_step p sp y (y\<lparr>y_job := JIdle\<rparr>)"
| sync_clean: "y_job y = JUploaded g s \<Longrightarrow>
    MarkCleanIfUnchanged p g (y_di y) = ((wasDirty, clean), di) \<Longrightarrow>
    sync_step p sp y (y\<lparr>y_di := di, y_job := (if clean then JClean s else JIdle)\<rparr>)"
| sync_cleanup: "y_job y = JClean s \<Longrightarrow> y_up y = Some u \<Longrightarrow> \<not> y_dirty p y \<Longrightarrow>
    \<not> ws_RefCount (up_ws u) > 0 \<Longrightarrow> os_Remove fl sp (up_disk u) = (None, d) \<Longrightarrow>
    sync_step p sp y (y\<lparr>y_up := None, y_disk := d, y_job := JIdle\<rparr>)"
| close_snap: "y_job y = JIdle \<Longrightarrow> y_up y = Some u \<Longrightarrow>
    sync_step p sp y (y\<lparr>y_up := Some (close_snapshot n u)\<rparr>)"
| other: "di_step (y_di y) di \<Longrightarrow> di_stamp p di = di_stamp p (y_di y) \<Longrightarrow>
    sync_step p sp y (y\<lparr>y_di := di\<rparr>)"

inductive_cases sync_stepE: "sync_step p sp y y'"

definition sync_init :: "Disk \<Rightarrow> bytes option \<Rightarrow> sync_state" where
  "sync_init d obj =
     \<lparr>y_up = None, y_disk = d, y_di = NewDirtyFileIndex, y_obj = obj, y_job = JIdle, y_wr = 0,
      y_acc = None, y_later = []\<rparr>"

section \<open>The invariant\<close>

definition snap_in :: "upload_state \<Rightarrow> UploadSnapshot \<Rightarrow> bytes \<Rightarrow> bool" where
  "snap_in u s bs \<longleftrightarrow> (s, bs) \<in> set (up_snaps u) \<and> \<not> us_closed s \<and> us_Size s = int (length bs)"

text \<open>The contents an object may have when the path is clean: the promised one, or a later one.\<close>

definition y_contents :: "sync_state \<Rightarrow> bytes set" where
  "y_contents y = set_option (y_acc y) \<union> set (y_later y)"

text \<open>
  What a job knows while the entry still carries the generation it read: its snapshot holds a
  content from since the last marked write.
\<close>

definition job_ok :: "string \<Rightarrow> sync_state \<Rightarrow> bool" where
  "job_ok p y \<longleftrightarrow>
     (case y_job y of
        JIdle \<Rightarrow> True
      | JGen g \<Rightarrow> y_dirty p y \<and> g \<le> di_generation (y_di y)
      | JSnap g s \<Rightarrow> y_dirty p y \<and> g \<le> di_generation (y_di y) \<and>
          (\<exists>u bs. y_up y = Some u \<and> snap_in u s bs \<and>
             (di_stamp p (y_di y) = Some g \<longrightarrow> bs \<in> y_contents y))
      | JUploaded g s \<Rightarrow> y_dirty p y \<and> g \<le> di_generation (y_di y) \<and>
          (di_stamp p (y_di y) = Some g \<longrightarrow> (\<exists>bs \<in> y_contents y. y_obj y = Some bs))
      | JClean s \<Rightarrow> True)"

definition session_inv :: "string \<Rightarrow> sync_state \<Rightarrow> bool" where
  "session_inv sp y \<longleftrightarrow>
     (case y_up y of
        None \<Rightarrow> y_wr y = 0 \<and> (\<forall>i. data_inode (y_disk y) sp = Some i \<longrightarrow> i < dk_next (y_disk y))
      | Some u \<Rightarrow> upload_ok u \<and> session_ok (session_of u) \<and> ws_StagingPath (up_ws u) = sp \<and>
          int (y_wr y) \<le> ws_RefCount (up_ws u))"

definition content_inv :: "string \<Rightarrow> sync_state \<Rightarrow> bool" where
  "content_inv p y \<longleftrightarrow>
     (y_dirty p y \<longrightarrow> (\<exists>a. y_acc y = Some a \<and> y_up y \<noteq> None \<and> y_staged y = last (a # y_later y))) \<and>
     (y_wr y = 0 \<longrightarrow> y_later y = []) \<and>
     (\<not> y_dirty p y \<and> y_acc y \<noteq> None \<longrightarrow> (\<exists>b \<in> y_contents y. y_obj y = Some b))"

definition sync_inv :: "string \<Rightarrow> string \<Rightarrow> sync_state \<Rightarrow> bool" where
  "sync_inv p sp y \<longleftrightarrow> di_ok (y_di y) \<and> session_inv sp y \<and> job_ok p y \<and> content_inv p y"

lemma y_dirty_stamp: "y_dirty p y \<longleftrightarrow> di_stamp p (y_di y) \<noteq> None"
  by (simp add: y_dirty_def IsDirty_def gm_has_def di_stamp_def GetMetadata_def)

lemma y_mark_effect:
  assumes "di_ok di" and "\<not> IsConflicted p di"
  shows "di_ok (y_mark now p sz state di) \<and>
    di_stamp p (y_mark now p sz state di) = Some (di_generation di + 1) \<and>
    di_generation (y_mark now p sz state di) = di_generation di + 1"
proof -
  have "di_ok (snd (MarkDirtyAgain now p sz di))" "di_ok (MarkDirtyWithState now p sz state di)"
    using assms(1) by (auto intro!: di_fresh_ok [OF assms(1)] di_fresh)
  then show ?thesis
    using assms(2)
    by (auto simp: y_mark_def MarkDirtyAgain_def MarkDirtyWithState_def IsConflicted_def di_stamp_def
        GetMetadata_def nextGenerationLocked_def Let_def split: option.splits if_splits)
qed

section \<open>Every step keeps it\<close>

lemma session_of_upd [simp]: "session_of (u\<lparr>up_ws := ws\<rparr>) = (ws, up_disk u)"
  by (simp add: session_of_def)

lemma write_step_effect:
  assumes "upload_ok u" "session_ok (session_of u)" "data \<noteq> []" "0 \<le> offset"
    and "u' = with_session (snd (write_locked no_faults k now data offset (session_of u))) u"
  shows "upload_ok u' \<and> session_ok (session_of u') \<and> ws_StagingPath (up_ws u') = ws_StagingPath (up_ws u) \<and>
    ws_RefCount (up_ws u') = ws_RefCount (up_ws u) \<and> up_snaps u' = up_snaps u"
proof -
  have "upload_ok u'" using upload_ok_write [of "session_of u" u] assms(1) by (simp add: assms(5))
  moreover have "session_ok (session_of u')"
    using write_effect [of "up_ws u" "up_disk u" offset data k now 0] assms(2-4)
    by (auto simp: assms(5) session_of_def)
  ultimately show ?thesis
    using change_keeps(1,2) [of no_faults k now data offset "session_of u"]
    by (simp add: assms(5) session_of_def)
qed

lemma truncate_step_effect:
  assumes "upload_ok u" "session_ok (session_of u)" "0 \<le> sz"
    and "u' = with_session (snd (truncate_locked no_faults now sz (session_of u))) u"
  shows "upload_ok u' \<and> session_ok (session_of u') \<and> ws_StagingPath (up_ws u') = ws_StagingPath (up_ws u) \<and>
    ws_RefCount (up_ws u') = ws_RefCount (up_ws u) \<and> up_snaps u' = up_snaps u"
proof -
  have "upload_ok u'" using upload_ok_truncate [of "session_of u" u] assms(1) by (simp add: assms(4))
  moreover have "session_ok (session_of u')"
    using truncate_effect [of "up_ws u" "up_disk u" sz now] assms(2,3)
    by (auto simp: assms(4) session_of_def)
  ultimately show ?thesis
    using change_keeps(3,4) [of no_faults now sz "session_of u"]
    by (simp add: assms(4) session_of_def)
qed

lemma open_step_effect:
  assumes "upload_ok u" "session_ok (session_of u)"
    and "OpenUploadSnapshot fl [] (session_of u) = (Inr s, st)"
  shows "session_ok (session_of (open_snapshot fl u)) \<and>
    staged_bytes (session_of (open_snapshot fl u)) = staged_bytes (session_of u) \<and>
    ws_StagingPath (up_ws (open_snapshot fl u)) = ws_StagingPath (up_ws u) \<and>
    ws_RefCount (up_ws (open_snapshot fl u)) = ws_RefCount (up_ws u) \<and>
    snap_in (open_snapshot fl u) s (staged_bytes (session_of u))"
proof -
  obtain i where i: "ws_File (up_ws u) = Some i" "int (length (dk_inodes (up_disk u) i)) = ws_Size (up_ws u)"
    using assms(2) by (auto simp: session_of_def elim: session_okD)
  have "data_inode (up_disk u) (ws_StagingPath (up_ws u)) = Some i"
    using assms(1) i(1) by (simp add: upload_ok_def names_ok_def)
  with i assms(3) show ?thesis
    by (auto simp: open_snapshot_def OpenUploadSnapshot_def session_of_def with_session_def session_ok_def
        staged_bytes_def snap_in_def split: if_splits)
qed

text \<open>A change of the staged bytes, by a writer that has not yet marked the path.\<close>

lemma sync_inv_change:
  assumes "sync_inv p sp y" "y_up y = Some u" "int (y_wr y) < ws_RefCount (up_ws u)"
    and "upload_ok u'" "session_ok (session_of u')" "ws_StagingPath (up_ws u') = ws_StagingPath (up_ws u)"
      "ws_RefCount (up_ws u') = ws_RefCount (up_ws u)" "up_snaps u' = up_snaps u"
  shows "sync_inv p sp (y\<lparr>y_up := Some u', y_wr := y_wr y + 1,
    y_later := y_later y @ [staged_bytes (session_of u')]\<rparr>)"
  using assms
  by (auto simp: sync_inv_def session_inv_def content_inv_def job_ok_def y_dirty_def y_staged_def
      y_contents_def snap_in_def split: sync_job.splits)

lemma sync_inv_mark:
  assumes "sync_inv p sp y" "y_up y = Some u" "y_wr y = Suc n" "\<not> IsConflicted p (y_di y)"
  shows "sync_inv p sp (y\<lparr>y_di := y_mark now p (ws_Size (up_ws u)) state (y_di y), y_wr := n,
    y_acc := Some (staged_bytes (session_of u)), y_later := []\<rparr>)"
proof -
  have ok: "di_ok (y_di y)" using assms(1) by (simp add: sync_inv_def)
  note m = y_mark_effect [OF ok assms(4), of now "ws_Size (up_ws u)" state]
  show ?thesis
    using assms m
    by (auto simp: sync_inv_def session_inv_def content_inv_def job_ok_def y_dirty_stamp y_staged_def
        y_contents_def split: sync_job.splits)
qed

lemma sync_inv_clean:
  assumes "sync_inv p sp y" "y_job y = JUploaded g s"
    and "MarkCleanIfUnchanged p g (y_di y) = ((wasDirty, clean), di)"
  shows "sync_inv p sp (y\<lparr>y_di := di, y_job := (if clean then JClean s else JIdle)\<rparr>)"
proof -
  have ok: "di_ok (y_di y)" using assms(1) by (simp add: sync_inv_def)
  have "di = snd (MarkCleanIfUnchanged p g (y_di y))" using assms(3) by simp
  then have ok': "di_ok di" using di_fresh_ok [OF ok di_fresh_others(3) [OF ok, of p g]] by simp
  show ?thesis
  proof (cases "di_stamp p (y_di y) = Some g")
    case True
    then have "clean" "di_stamp p di = None"
      using assms(3) by (auto simp: MarkCleanIfUnchanged_def Let_def di_stamp_def GetMetadata_def
          DirtyFileIndex_MarkClean_def split: option.splits if_splits)
    with assms(1,2) True ok' show ?thesis
      by (auto simp: sync_inv_def session_inv_def content_inv_def job_ok_def y_dirty_stamp y_staged_def
          y_contents_def)
  next
    case False
    then have "\<not> clean" "di = y_di y"
      using assms by (auto simp: MarkCleanIfUnchanged_def Let_def di_stamp_def GetMetadata_def
          sync_inv_def job_ok_def y_dirty_stamp split: option.splits if_splits)
    with assms(1,2) ok' show ?thesis
      by (auto simp: sync_inv_def session_inv_def content_inv_def job_ok_def y_dirty_stamp y_staged_def
          y_contents_def)
  qed
qed

lemma upload_ok_NewSession:
  assumes "NewWriteSession fl now True p sp d = (Inr ws, d')"
    and "\<forall>i. data_inode d sp = Some i \<longrightarrow> i < dk_next d"
  shows "session_inv sp (y\<lparr>y_up := Some \<lparr>up_ws = ws, up_disk = d', up_snaps = []\<rparr>, y_wr := 0\<rparr>)"
proof -
  obtain i d1 where op: "os_OpenCreate fl now sp d = (Inr i, d1)"
    using assms(1) by (auto simp: NewWriteSession_def split: prod.splits sum.splits)
  obtain e d2 where en: "EnsurePathMetadata fl p sp d1 = (e, d2)" by (metis surj_pair)
  have "dk_inodes d2 = dk_inodes d1" using EnsurePathMetadata_disk [OF en] by simp
  with assms(1) op en show ?thesis
    using upload_ok_New [OF assms]
    by (auto simp: session_inv_def NewWriteSession_def Let_def session_ok_def session_of_def
        split: if_splits)
qed

lemma sync_inv_refs:
  assumes "sync_inv p sp y" "y_up y = Some u" "ws = up_ws u\<lparr>ws_RefCount := r\<rparr>" "int (y_wr y) \<le> r"
  shows "sync_inv p sp (y\<lparr>y_up := Some (u\<lparr>up_ws := ws\<rparr>)\<rparr>)"
proof -
  have "upload_ok (u\<lparr>up_ws := ws\<rparr>)"
    using assms(1-3) by (intro upload_ok_File_None) (auto simp: sync_inv_def session_inv_def)
  moreover have "session_ok (ws, up_disk u) = session_ok (session_of u)"
    "staged_bytes (ws, up_disk u) = staged_bytes (session_of u)"
    using assms(3) by (auto simp: session_ok_def staged_bytes_def session_of_def split: option.splits)
  moreover have "snap_in (u\<lparr>up_ws := ws\<rparr>) s bs = snap_in u s bs" for s bs
    by (simp add: snap_in_def)
  ultimately show ?thesis
    using assms
    by (auto simp: sync_inv_def session_inv_def content_inv_def job_ok_def y_dirty_def y_staged_def
        y_contents_def split: sync_job.splits)
qed

lemma sync_inv_step:
  assumes "sync_step p sp y y'" and "sync_inv p sp y"
  shows "sync_inv p sp y'"
  using assms(1)
proof (cases rule: sync_step.cases)
  case (open_new fl now ws d)
  have "\<not> y_dirty p y" "y_wr y = 0" "\<forall>i. data_inode (y_disk y) sp = Some i \<longrightarrow> i < dk_next (y_disk y)"
    using assms(2) open_new(2) by (auto simp: sync_inv_def content_inv_def session_inv_def)
  moreover from upload_ok_NewSession [OF open_new(3) this(3), of y] this(2)
  have "session_inv sp y'" by (simp add: open_new(1) session_inv_def)
  ultimately show ?thesis
    using assms(2) open_new
    by (auto simp: sync_inv_def content_inv_def job_ok_def y_dirty_def y_contents_def
        split: sync_job.splits)
next
  case (open_again u)
  have "int (y_wr y) \<le> ws_RefCount (up_ws u)"
    using assms(2) open_again(2) by (simp add: sync_inv_def session_inv_def)
  then show ?thesis
    using sync_inv_refs [OF assms(2) open_again(2), of _ "ws_RefCount (up_ws u) + 1"] open_again(1)
    by (simp add: IncrementRefCount_def)
next
  case (close_handle u)
  then show ?thesis
    using sync_inv_refs [OF assms(2) close_handle(2), of _ "ws_RefCount (up_ws u) - 1"]
    by (simp add: DecrementRefCount_def)
next
  case (change_write u data offset u' k now)
  have "upload_ok u" "session_ok (session_of u)"
    using assms(2) change_write(2) by (auto simp: sync_inv_def session_inv_def)
  from write_step_effect [OF this change_write(4,5,6)] show ?thesis
    unfolding change_write(1) by (elim conjE) (rule sync_inv_change [OF assms(2) change_write(2,3)])
next
  case (change_truncate u sz u' now)
  have "upload_ok u" "session_ok (session_of u)"
    using assms(2) change_truncate(2) by (auto simp: sync_inv_def session_inv_def)
  from truncate_step_effect [OF this change_truncate(4,5)] show ?thesis
    unfolding change_truncate(1) by (elim conjE) (rule sync_inv_change [OF assms(2) change_truncate(2,3)])
next
  case (mark u n now state)
  then show ?thesis using sync_inv_mark [OF assms(2) mark(2,3,4)] by simp
next
  case (sync_start m)
  then have "dm_LocalDirtyGeneration m \<le> di_generation (y_di y)" "y_dirty p y"
    using assms(2) by (auto simp: sync_inv_def di_ok_def y_dirty_stamp di_stamp_def)
  with assms(2) sync_start show ?thesis
    by (auto simp: sync_inv_def session_inv_def content_inv_def job_ok_def y_dirty_def y_staged_def
        y_contents_def)
next
  case (sync_snapshot g u fl s st)
  have u: "upload_ok u" "session_ok (session_of u)"
    using assms(2) sync_snapshot(3) by (auto simp: sync_inv_def session_inv_def)
  from open_step_effect [OF u sync_snapshot(4)] upload_ok_open [OF u(1)] assms(2) sync_snapshot
  show ?thesis
    by (fastforce simp: sync_inv_def session_inv_def content_inv_def job_ok_def y_dirty_def y_staged_def
        y_contents_def)
next
  case (sync_upload g s u)
  obtain bs where bs: "snap_in u s bs" "di_stamp p (y_di y) = Some g \<longrightarrow> bs \<in> y_contents y"
    using assms(2) sync_upload by (auto simp: sync_inv_def job_ok_def)
  have "dk_inodes (up_disk u) (us_File s) = bs"
    using assms(2) sync_upload(3) bs(1)
    by (auto simp: sync_inv_def session_inv_def upload_ok_def snap_in_def open_snaps_def snap_ok_def)
  then have "uploaded_bytes u s = bs"
    using bs(1) by (simp add: uploaded_bytes_def snap_in_def)
  with assms(2) sync_upload bs(2) show ?thesis
    by (auto simp: sync_inv_def session_inv_def content_inv_def job_ok_def y_dirty_def y_staged_def
        y_contents_def)
next
  case sync_failed
  with assms(2) show ?thesis
    by (cases "y_up y") (auto simp: sync_inv_def session_inv_def content_inv_def job_ok_def y_dirty_def y_staged_def
        y_contents_def)
next
  case (sync_clean g s wasDirty clean di)
  then show ?thesis using sync_inv_clean [OF assms(2)] by simp
next
  case (sync_cleanup s u fl d)
  have inv: "upload_ok u" "ws_StagingPath (up_ws u) = sp" "int (y_wr y) \<le> ws_RefCount (up_ws u)"
    using assms(2) sync_cleanup(3) by (auto simp: sync_inv_def session_inv_def)
  have "data_inode d sp = None"
    using os_Remove_None [OF sync_cleanup(6), of sp] by (simp add: data_inode_def)
  with assms(2) sync_cleanup inv show ?thesis
    by (auto simp: sync_inv_def session_inv_def content_inv_def job_ok_def y_dirty_def y_staged_def
        y_contents_def)
next
  case (close_snap u n)
  have keep: "ws_File (up_ws (close_snapshot n u)) = ws_File (up_ws u)"
    "ws_Size (up_ws (close_snapshot n u)) = ws_Size (up_ws u)"
    "ws_StagingPath (up_ws (close_snapshot n u)) = ws_StagingPath (up_ws u)"
    "ws_RefCount (up_ws (close_snapshot n u)) = ws_RefCount (up_ws u)"
    "up_disk (close_snapshot n u) = up_disk u"
    by (auto simp: close_snapshot_def UploadSnapshot_Close_def Let_def split: prod.splits)
  then have "session_ok (session_of (close_snapshot n u)) = session_ok (session_of u)"
    "staged_bytes (session_of (close_snapshot n u)) = staged_bytes (session_of u)"
    by (auto simp: session_ok_def staged_bytes_def session_of_def split: option.splits)
  with assms(2) close_snap keep upload_ok_close [of u n] show ?thesis
    by (auto simp: sync_inv_def session_inv_def content_inv_def job_ok_def y_dirty_def y_staged_def
        y_contents_def)
next
  case (other di)
  have "di_ok di" "di_generation (y_di y) \<le> di_generation di"
    using assms(2) other dirty_stamps.ok_change dirty_stamps.bound_mono by (auto simp: sync_inv_def)
  with assms(2) other show ?thesis
    by (cases "y_up y") (auto simp: sync_inv_def session_inv_def content_inv_def job_ok_def y_dirty_stamp
        y_staged_def y_contents_def split: sync_job.splits)
qed

section \<open>Properties\<close>

lemma sync_inv_init:
  assumes "\<forall>i. data_inode d sp = Some i \<longrightarrow> i < dk_next d"
  shows "sync_inv p sp (sync_init d obj)"
  using assms
  by (auto simp: sync_inv_def sync_init_def session_inv_def job_ok_def content_inv_def y_dirty_def
      IsDirty_def NewDirtyFileIndex_def gm_has_def di_ok_New)
    (simp add: di_ok_def GetMetadata_def)

lemma sync_inv_steps: "(sync_step p sp)\<^sup>*\<^sup>* y y' \<Longrightarrow> sync_inv p sp y \<Longrightarrow> sync_inv p sp y'"
  by (induction rule: rtranclp_induct) (auto intro: sync_inv_step)

text \<open>
  C1: no accepted write is lost. However writers, closes and syncs of a path are interleaved, with
  uploads failing at any point: once a write has been marked dirty, its content is either still
  staged in an open session with the path queued for upload, or in the object store. When no
  write is under way that content is exactly the one last accepted; with writes under
  way the staged bytes, or the object, may already include what those
  have done on top of it.
\<close>

theorem no_accepted_write_lost:
  assumes "\<forall>i. data_inode d sp = Some i \<longrightarrow> i < dk_next d"
    and "(sync_step p sp)\<^sup>*\<^sup>* (sync_init d obj) y" and "y_acc y = Some a"
  shows "((y_dirty p y \<and> y_up y \<noteq> None \<and> y_staged y = last (a # y_later y)) \<or>
      (\<not> y_dirty p y \<and> (\<exists>b \<in> insert a (set (y_later y)). y_obj y = Some b))) \<and>
    (y_wr y = 0 \<longrightarrow> (y_dirty p y \<and> y_staged y = a) \<or> y_obj y = Some a)"
proof -
  have "content_inv p y"
    using sync_inv_steps [OF assms(2) sync_inv_init [OF assms(1)]] by (simp add: sync_inv_def)
  with assms(3) show ?thesis
    by (auto simp: content_inv_def y_contents_def)
qed

text \<open>A file is created, written, synced and marked clean.\<close>

definition run_u0 :: upload_state where
  "run_u0 = (case NewWriteSession no_faults 1 True ''/a'' ''x.data'' empty_disk of
     (Inr ws, d) \<Rightarrow> \<lparr>up_ws = ws, up_disk = d, up_snaps = []\<rparr>)"

definition run_u1 :: upload_state where
  "run_u1 = with_session (snd (write_locked no_faults 0 2 [7] 0 (session_of run_u0))) run_u0"

definition run_mark :: sync_state where
  "run_mark = (sync_init empty_disk None)
     \<lparr>y_up := Some run_u1, y_di := y_mark 3 ''/a'' (ws_Size (up_ws run_u1)) None NewDirtyFileIndex,
      y_acc := Some (staged_bytes (session_of run_u1))\<rparr>"

definition run_snap :: UploadSnapshot where
  "run_snap = projr (fst (OpenUploadSnapshot no_faults [] (session_of run_u1)))"

definition run_clean :: sync_state where
  "run_clean = run_mark
     \<lparr>y_up := Some (open_snapshot no_faults run_u1),
      y_obj := Some (uploaded_bytes (open_snapshot no_faults run_u1) run_snap),
      y_di := snd (MarkCleanIfUnchanged ''/a'' 1 (y_di run_mark)), y_job := JClean run_snap\<rparr>"

lemma run_sessions:
  "\<not> isl (fst (NewWriteSession no_faults 1 True ''/a'' ''x.data'' empty_disk)) \<and> ws_RefCount (up_ws run_u0) = 1"
  "\<not> isl (fst (OpenUploadSnapshot no_faults [] (session_of run_u1))) \<and> staged_bytes (session_of run_u1) = [7]"
  by code_simp+

lemma run_index:
  "map_option dm_LocalDirtyGeneration (GetMetadata ''/a'' (y_di run_mark)) = Some 1"
  "fst (MarkCleanIfUnchanged ''/a'' 1 (y_di run_mark)) = (True, True)"
  "\<not> y_dirty ''/a'' run_clean"
  by (simp_all add: run_mark_def run_clean_def y_mark_def MarkDirtyAgain_def MarkDirtyWithState_def
      NewDirtyFileIndex_def nextGenerationLocked_def GetMetadata_def MarkCleanIfUnchanged_def Let_def
      y_dirty_def IsDirty_def gm_has_def DirtyFileIndex_MarkClean_def)

lemma run_steps: "(sync_step ''/a'' ''x.data'')\<^sup>*\<^sup>* (sync_init empty_disk None) run_clean"
proof -
  let ?step = "sync_step ''/a'' ''x.data''" and ?y0 = "sync_init empty_disk None"
  let ?y1 = "?y0\<lparr>y_up := Some run_u0\<rparr>"
  let ?y2 = "?y0\<lparr>y_up := Some run_u1, y_wr := 1, y_later := [staged_bytes (session_of run_u1)]\<rparr>"
  let ?y5 = "run_mark\<lparr>y_up := Some (open_snapshot no_faults run_u1), y_job := JSnap 1 run_snap\<rparr>"
  let ?y6 = "?y5\<lparr>y_obj := Some (uploaded_bytes (open_snapshot no_faults run_u1) run_snap),
      y_job := JUploaded 1 run_snap\<rparr>"
  obtain ws d where new: "NewWriteSession no_faults 1 True ''/a'' ''x.data'' empty_disk = (Inr ws, d)"
    using run_sessions(1) by (metis isl_def prod.collapse sum.exhaust)
  have 1: "?step ?y0 ?y1"
    using open_new [of ?y0 no_faults 1 "''/a''" "''x.data''" ws d] new by (simp add: sync_init_def run_u0_def)
  have 2: "?step ?y1 ?y2"
    using change_write [of ?y1 run_u0 "[7]" 0 run_u1 0 2 "''/a''" "''x.data''"] run_sessions(1)
    by (simp add: run_u1_def sync_init_def)
  have 3: "?step ?y2 run_mark"
    using mark [of ?y2 run_u1 0 "''/a''" "''x.data''" 3 None]
    by (simp add: run_mark_def sync_init_def IsConflicted_def NewDirtyFileIndex_def gm_has_def)
  have 4: "?step run_mark (run_mark\<lparr>y_job := JGen 1\<rparr>)"
    using sync_start [of run_mark "''/a''" _ "''x.data''"] run_index(1)
    by (auto simp: map_option_eq_Some run_mark_def sync_init_def)
  obtain st where "OpenUploadSnapshot no_faults [] (session_of run_u1) = (Inr run_snap, st)"
    using run_sessions(2) by (metis prod.collapse run_snap_def sum.collapse(2))
  then have 5: "?step (run_mark\<lparr>y_job := JGen 1\<rparr>) ?y5"
    using sync_snapshot [of "run_mark\<lparr>y_job := JGen 1\<rparr>" 1 run_u1 no_faults run_snap st]
    by (simp add: run_mark_def)
  have 6: "?step ?y5 ?y6"
    using sync_upload [of ?y5 1 run_snap] by simp
  have 7: "?step ?y6 run_clean"
    using sync_clean [of ?y6 1 run_snap "''/a''" True True "snd (MarkCleanIfUnchanged ''/a'' 1 (y_di run_mark))" "''x.data''"]
      run_index(2) by (simp add: run_clean_def prod_eq_iff)
  show ?thesis
    using 1 2 3 4 5 6 7 by (meson converse_rtranclp_into_rtranclp rtranclp.rtrancl_refl)
qed

theorem no_accepted_write_lost_witness:
  "y_acc run_clean = Some [7] \<and> y_obj run_clean = Some [7]"
proof -
  have a: "y_acc run_clean = Some [7]" and "y_wr run_clean = 0"
    using run_sessions(2) by (simp_all add: run_clean_def run_mark_def sync_init_def)
  with no_accepted_write_lost [OF _ run_steps a] run_index(3) show ?thesis
    by (simp add: empty_disk_def data_inode_def os_lookup_def)
qed

end
