(* ===== verification/Backpressure.thy ===== *)
theory Backpressure
  imports Staging_Disk
begin

text \<open>
  The staging configuration and the backpressure on writes
  (\<^verbatim>\<open>StagingConfig\<close> of \<^verbatim>\<open>src/internal/config/config.go\<close>; \<^verbatim>\<open>ReserveWrite\<close> and the pressure calculation of
  \<^verbatim>\<open>src/internal/staging/manager.go\<close>). A duration of the configuration is empty, not parsable, or the
  duration \<^verbatim>\<open>time.ParseDuration\<close> gives. \<^verbatim>\<open>ReserveWrite\<close> polls: what it finds each time it takes the
  pressure lock (the time, the staged bytes, the reserved bytes and the free disk space) is a
  list of observations, and running out of them means it is still waiting.
\<close>

section \<open>Configuration\<close>

datatype dur_setting = DurUnset | DurBad | Dur duration

record StagingConfig =
  sc_Enabled :: bool
  sc_RootDir :: string
  sc_SyncThresholdMB :: int
  sc_MaxDirtyAge :: dur_setting
  sc_MaxStagingSizeGB :: int
  sc_SyncWorkerCount :: int
  sc_MaxSyncRetries :: int
  sc_RetryBackoffInit :: dur_setting
  sc_RetryBackoffMax :: dur_setting
  sc_CleanAfterSync :: bool
  sc_BackpressureEnabled :: bool
  sc_BackpressureMode :: string
  sc_BackpressureHighWatermarkPct :: int
  sc_BackpressureCritWatermarkPct :: int
  sc_BackpressureWaitTimeout :: dur_setting
  sc_BackpressureCheckInterval :: dur_setting

definition parsed_duration :: "dur_setting \<Rightarrow> duration option" where
  "parsed_duration s = (case s of Dur d \<Rightarrow> Some d | _ \<Rightarrow> None)"

definition GetBackpressureWaitTimeout :: "StagingConfig \<Rightarrow> duration option" where
  "GetBackpressureWaitTimeout cfg = parsed_duration (sc_BackpressureWaitTimeout cfg)"

definition GetBackpressureCheckInterval :: "StagingConfig \<Rightarrow> duration option" where
  "GetBackpressureCheckInterval cfg = parsed_duration (sc_BackpressureCheckInterval cfg)"

definition PressureLevelNormal :: string where "PressureLevelNormal = ''normal''"
definition PressureLevelHigh :: string where "PressureLevelHigh = ''high''"
definition PressureLevelCritical :: string where "PressureLevelCritical = ''critical''"
definition BackpressureModeBlock :: string where "BackpressureModeBlock = ''block''"
definition BackpressureModeFailFast :: string where "BackpressureModeFailFast = ''fail_fast''"

definition normalizeBackpressureConfig :: "StagingConfig \<Rightarrow> StagingConfig" where
  "normalizeBackpressureConfig cfg =
     cfg\<lparr>sc_BackpressureMode :=
           (if sc_BackpressureMode cfg = [] then BackpressureModeBlock else sc_BackpressureMode cfg),
         sc_BackpressureHighWatermarkPct :=
           (if sc_BackpressureHighWatermarkPct cfg = 0 then 80 else sc_BackpressureHighWatermarkPct cfg),
         sc_BackpressureCritWatermarkPct :=
           (if sc_BackpressureCritWatermarkPct cfg = 0 then 95 else sc_BackpressureCritWatermarkPct cfg),
         sc_BackpressureWaitTimeout :=
           (if sc_BackpressureWaitTimeout cfg = DurUnset then Dur (30 * second)
            else sc_BackpressureWaitTimeout cfg),
         sc_BackpressureCheckInterval :=
           (if sc_BackpressureCheckInterval cfg = DurUnset then Dur (250 * millisecond)
            else sc_BackpressureCheckInterval cfg)\<rparr>"

section \<open>Pressure\<close>

record PressureState =
  pr_UsedBytes :: int
  pr_AvailableBytes :: int
  pr_QuotaBytes :: int
  pr_HighWatermarkBytes :: int
  pr_CriticalWatermarkBytes :: int
  pr_ProjectedBytes :: int
  pr_Level :: string

text \<open>What one look at the staging area finds; the free disk space is missing when \<^verbatim>\<open>statfs\<close> fails.\<close>

record pressure_obs =
  ob_now :: gotime
  ob_total :: int
  ob_reserved :: int
  ob_disk :: "int option"

definition pressureStateLocked :: "StagingConfig \<Rightarrow> pressure_obs \<Rightarrow> int \<Rightarrow> PressureState" where
  "pressureStateLocked cfg ob growthBytes =
     (let quotaBytes = sc_MaxStagingSizeGB cfg * 1024 * 1024 * 1024;
          usedBytes = ob_total ob + ob_reserved ob;
          projectedBytes = usedBytes + growthBytes;
          quotaAvailable = (if quotaBytes - usedBytes < 0 then 0 else quotaBytes - usedBytes);
          availableBytes = (case ob_disk ob of
             Some a \<Rightarrow> if a < quotaAvailable then a else quotaAvailable | None \<Rightarrow> quotaAvailable);
          highBytes = (if quotaBytes > 0
             then quotaBytes * sc_BackpressureHighWatermarkPct cfg div 100 else quotaBytes);
          criticalBytes = (if quotaBytes > 0
             then quotaBytes * sc_BackpressureCritWatermarkPct cfg div 100 else quotaBytes);
          level = (if quotaBytes > 0
             then if projectedBytes \<ge> criticalBytes \<or> growthBytes > availableBytes
                  then PressureLevelCritical
                  else if projectedBytes \<ge> highBytes then PressureLevelHigh else PressureLevelNormal
             else PressureLevelNormal)
      in \<lparr>pr_UsedBytes = usedBytes, pr_AvailableBytes = availableBytes, pr_QuotaBytes = quotaBytes,
          pr_HighWatermarkBytes = highBytes, pr_CriticalWatermarkBytes = criticalBytes,
          pr_ProjectedBytes = projectedBytes, pr_Level = level\<rparr>)"

definition CurrentPressure :: "StagingConfig \<Rightarrow> pressure_obs \<Rightarrow> PressureState" where
  "CurrentPressure cfg ob = pressureStateLocked cfg ob 0"

section \<open>Reserving a write\<close>

text \<open>One round of the loop: refuse, wait, or grant.\<close>

datatype reserve_decision = Reject | Wait duration | Grant

definition reserve_round ::
  "StagingConfig \<Rightarrow> duration \<Rightarrow> duration \<Rightarrow> gotime \<Rightarrow> int \<Rightarrow> pressure_obs \<Rightarrow> reserve_decision" where
  "reserve_round cfg timeout checkInterval deadline growthBytes ob =
     (let state = pressureStateLocked cfg ob growthBytes;
          md0 = to_lower (sc_BackpressureMode cfg);
          md = (if md0 = [] then BackpressureModeBlock else md0)
      in if \<not> sc_BackpressureEnabled cfg
         then if pr_ProjectedBytes state > pr_QuotaBytes state then Reject else Grant
         else if pr_Level state = PressureLevelCritical \<or> pr_ProjectedBytes state > pr_QuotaBytes state
         then Reject
         else if pr_Level state = PressureLevelHigh \<and> md = BackpressureModeBlock
         then if timeout \<le> 0 \<or> ob_now ob > deadline then Reject
              else Wait (if deadline - ob_now ob < checkInterval then deadline - ob_now ob else checkInterval)
         else Grant)"

fun reserve_loop ::
  "StagingConfig \<Rightarrow> duration \<Rightarrow> duration \<Rightarrow> gotime \<Rightarrow> int \<Rightarrow> pressure_obs list
     \<Rightarrow> ((stg_error + int) \<times> int) option" where
  "reserve_loop cfg timeout checkInterval deadline growthBytes [] = None"
| "reserve_loop cfg timeout checkInterval deadline growthBytes (ob # obs) =
     (case reserve_round cfg timeout checkInterval deadline growthBytes ob of
        Reject \<Rightarrow> Some (Inl ENoSpc, ob_reserved ob)
      | Grant \<Rightarrow> Some (Inr growthBytes, ob_reserved ob + growthBytes)
      | Wait _ \<Rightarrow> reserve_loop cfg timeout checkInterval deadline growthBytes obs)"

text \<open>
  \<^verbatim>\<open>ReserveWrite\<close> returns the bytes its release function gives back, and the reserved
  bytes after the call. \<open>start\<close> and \<open>reserved\<close> are the time and the reserved bytes at the call.
\<close>

definition ReserveWrite ::
  "StagingConfig option \<Rightarrow> (unit \<Rightarrow> bool) option \<Rightarrow> gotime \<Rightarrow> int \<Rightarrow> pressure_obs list \<Rightarrow> int \<Rightarrow> int
     \<Rightarrow> ((stg_error + int) \<times> int) option" where
  "ReserveWrite config bucketFull start reserved obs requestedBytes0 growthBytes0 =
     (let requestedBytes = (if requestedBytes0 < 0 then 0 else requestedBytes0);
          growthBytes = (if growthBytes0 < 0 then 0 else growthBytes0)
      in case config of
           None \<Rightarrow> Some (Inr 0, reserved)
         | Some cfg \<Rightarrow>
             if sc_MaxStagingSizeGB cfg \<le> 0 then Some (Inr 0, reserved)
             else if requestedBytes > 0 \<and> (case bucketFull of None \<Rightarrow> False | Some f \<Rightarrow> f ())
             then Some (Inl ENoSpc, reserved)
             else let timeout = (case GetBackpressureWaitTimeout cfg of Some t \<Rightarrow> t | None \<Rightarrow> 0);
                      checkInterval = (case GetBackpressureCheckInterval cfg of
                         Some t \<Rightarrow> if t \<le> 0 then 250 * millisecond else t
                       | None \<Rightarrow> 250 * millisecond)
                  in reserve_loop cfg timeout checkInterval (start + timeout) growthBytes obs)"

definition releaseReservation :: "int \<Rightarrow> int \<Rightarrow> int" where
  "releaseReservation n reserved =
     (if n \<le> 0 then reserved else if n > reserved then 0 else reserved - n)"

section \<open>Properties\<close>

lemma reserve_loop_Grant:
  assumes "reserve_loop cfg timeout ci deadline growth obs = Some (Inr n, reserved')"
  shows "\<exists>ob \<in> set obs. n = growth \<and> reserved' = ob_reserved ob + growth \<and>
    reserve_round cfg timeout ci deadline growth ob = Grant"
  using assms by (induction obs) (auto split: reserve_decision.splits)

lemma reserve_loop_Some:
  assumes "ob \<in> set obs" and "\<And>w. reserve_round cfg timeout ci deadline growth ob \<noteq> Wait w"
  shows "\<exists>r. reserve_loop cfg timeout ci deadline growth obs = Some r"
  using assms by (induction obs) (auto split: reserve_decision.splits)

lemma round_not_Wait:
  "timeout \<le> 0 \<or> ob_now ob > deadline \<Longrightarrow> reserve_round cfg timeout ci deadline growth ob \<noteq> Wait w"
  by (auto simp: reserve_round_def Let_def)

lemma round_Grant_levels:
  assumes "reserve_round cfg timeout ci deadline growth ob = Grant" and "sc_MaxStagingSizeGB cfg > 0"
  shows "ob_total ob + ob_reserved ob + growth \<le> sc_MaxStagingSizeGB cfg * 1073741824"
    and "sc_BackpressureEnabled cfg \<Longrightarrow>
      ob_total ob + ob_reserved ob + growth <
        sc_MaxStagingSizeGB cfg * 1073741824 * sc_BackpressureCritWatermarkPct cfg div 100"
    and "sc_BackpressureEnabled cfg \<Longrightarrow> ob_disk ob = Some free \<Longrightarrow> growth \<le> free"
  using assms
  by (auto simp: reserve_round_def pressureStateLocked_def Let_def PressureLevelCritical_def
      PressureLevelHigh_def PressureLevelNormal_def split: if_splits option.splits)

lemma ReserveWrite_grant:
  assumes "ReserveWrite (Some cfg) full start reserved obs requested growth = Some (Inr n, reserved')"
    and "sc_MaxStagingSizeGB cfg > 0"
  obtains ob timeout ci deadline where "ob \<in> set obs" "n = max 0 growth" "reserved' = ob_reserved ob + n"
    "reserve_round cfg timeout ci deadline n ob = Grant"
proof -
  let ?g = "if growth < 0 then 0 else growth"
  obtain timeout ci deadline where "reserve_loop cfg timeout ci deadline ?g obs = Some (Inr n, reserved')"
    using assms by (auto simp: ReserveWrite_def Let_def split: if_splits)
  from reserve_loop_Grant [OF this] that show ?thesis by (auto simp: max_def split: if_splits)
qed


definition sample_config :: StagingConfig where
  "sample_config = normalizeBackpressureConfig
     \<lparr>sc_Enabled = True, sc_RootDir = ''/s'', sc_SyncThresholdMB = 1, sc_MaxDirtyAge = Dur minute,
      sc_MaxStagingSizeGB = 1, sc_SyncWorkerCount = 1, sc_MaxSyncRetries = 3,
      sc_RetryBackoffInit = Dur second, sc_RetryBackoffMax = Dur minute, sc_CleanAfterSync = True,
      sc_BackpressureEnabled = True, sc_BackpressureMode = [], sc_BackpressureHighWatermarkPct = 0,
      sc_BackpressureCritWatermarkPct = 0, sc_BackpressureWaitTimeout = DurUnset,
      sc_BackpressureCheckInterval = DurUnset\<rparr>"

definition sample_obs :: "gotime \<Rightarrow> int \<Rightarrow> pressure_obs" where
  "sample_obs now tot = \<lparr>ob_now = now, ob_total = tot, ob_reserved = 7, ob_disk = None\<rparr>"


text \<open>
  C18: backpressure never holds a write for longer than its timeout: once a look at the staging area
  happens after the deadline, or at the first look when there is no timeout, the reservation is
  granted or refused.
\<close>

theorem ReserveWrite_returns:
  assumes "ob \<in> set obs"
    and "ob_now ob > start + (case GetBackpressureWaitTimeout cfg of Some t \<Rightarrow> t | None \<Rightarrow> 0) \<or>
      (case GetBackpressureWaitTimeout cfg of Some t \<Rightarrow> t | None \<Rightarrow> 0) \<le> 0"
  shows "\<exists>r. ReserveWrite (Some cfg) full start reserved obs requested growth = Some r"
  using reserve_loop_Some [OF assms(1) round_not_Wait] assms(2)
  by (auto simp: ReserveWrite_def Let_def)

theorem ReserveWrite_returns_witness:
  "\<exists>r. ReserveWrite (Some sample_config) None 0 7
     [sample_obs 1 900000000, sample_obs (31 * second) 900000000] 10 10 = Some r"
proof -
  have "GetBackpressureWaitTimeout sample_config = Some (30 * second)" by code_simp
  then show ?thesis
    by (intro ReserveWrite_returns [of "sample_obs (31 * second) 900000000"])
      (simp_all add: sample_obs_def)
qed

section \<open>Reservations held at once\<close>

text \<open>
  The reserved bytes while several writes hold reservations: a grant adds its bytes, and
  each release function is run once.
\<close>

inductive reservations :: "int list \<Rightarrow> int \<Rightarrow> bool" where
  none: "reservations [] 0"
| grant: "reservations held reserved \<Longrightarrow>
    ReserveWrite cfg full start reserved obs requested growth = Some (Inr n, reserved') \<Longrightarrow>
    (\<And>ob. ob \<in> set obs \<Longrightarrow> ob_reserved ob = reserved) \<Longrightarrow>
    reservations (n # held) reserved'"
| release: "reservations (pre @ n # post) reserved \<Longrightarrow>
    reservations (pre @ post) (releaseReservation n reserved)"

lemma ReserveWrite_amount:
  assumes "ReserveWrite cfg full start reserved obs requested growth = Some (Inr n, reserved')"
    and "\<And>ob. ob \<in> set obs \<Longrightarrow> ob_reserved ob = reserved"
  shows "0 \<le> n \<and> reserved' = reserved + n"
proof (cases cfg)
  case None
  with assms show ?thesis by (simp add: ReserveWrite_def)
next
  case (Some c)
  show ?thesis
  proof (cases "sc_MaxStagingSizeGB c > 0")
    case True
    from assms(1) [unfolded Some] True show ?thesis
      by (rule ReserveWrite_grant) (use assms(2) in auto)
  next
    case False
    with assms Some show ?thesis by (auto simp: ReserveWrite_def)
  qed
qed

lemma sum_list_nonneg': "(\<And>n. n \<in> set ns \<Longrightarrow> 0 \<le> n) \<Longrightarrow> 0 \<le> sum_list (ns :: int list)"
  by (induction ns) auto



end
