(* ===== verification/Staging_Manager.thy ===== *)
theory Staging_Manager
  imports Dirty_Index Write_Session Backpressure
begin

text \<open>
  The staging manager (\<^verbatim>\<open>src/internal/staging/manager.go\<close>) with the delete tombstones
  (\<^verbatim>\<open>tombstone.go\<close>) and the discarding of sessions (\<^verbatim>\<open>session_discard.go\<close>). Sessions are shared by pointer in
  the code (a worker keeps one while the map drops it), so the manager holds a
  heap of sessions and the map holds their addresses. The names in the staging directory come
  from the SHA-256 hash of the path, which is a field of the manager: the model works for
  every hash function, and a statement that needs distinct paths to have distinct
  hashes says so. Gauges and log lines have no counterpart.
\<close>

section \<open>State and names\<close>

record StagingManager =
  sm_config :: StagingConfig
  sm_stagingRoot :: string
  sm_hash :: "string \<Rightarrow> string"
  sm_sessions :: "(string, nat) gomap"
  sm_heap :: "nat \<Rightarrow> WriteSession"
  sm_nextSession :: nat
  sm_dirtyIndex :: DirtyFileIndex
  sm_tombstones :: "(string, TombstoneState) gomap"
  sm_reservedBytes :: int
  sm_renameTargets :: "(string, int) gomap"
  sm_disk :: Disk

definition activeDir :: "StagingManager \<Rightarrow> string" where
  "activeDir sm = sm_stagingRoot sm @ ''/active''"

definition stagingFilePath :: "StagingManager \<Rightarrow> string \<Rightarrow> string" where
  "stagingFilePath sm path = activeDir sm @ ''/'' @ sm_hash sm path @ ''.data''"

definition tombstoneDir :: "StagingManager \<Rightarrow> string" where
  "tombstoneDir sm = sm_stagingRoot sm @ ''/tombstones''"

definition tombstoneFilePath :: "StagingManager \<Rightarrow> string \<Rightarrow> string" where
  "tombstoneFilePath sm path = tombstoneDir sm @ ''/'' @ sm_hash sm path @ ''.tombstone.json''"

definition sessionAt :: "string \<Rightarrow> StagingManager \<Rightarrow> nat option" where
  "sessionAt path sm = gm_get (sm_sessions sm) path"

definition session_at :: "string \<Rightarrow> StagingManager \<Rightarrow> WriteSession option" where
  "session_at path sm = map_option (sm_heap sm) (sessionAt path sm)"

definition upd_session :: "nat \<Rightarrow> (WriteSession \<Rightarrow> WriteSession) \<Rightarrow> StagingManager \<Rightarrow> StagingManager" where
  "upd_session sid f sm = sm\<lparr>sm_heap := (sm_heap sm)(sid := f (sm_heap sm sid))\<rparr>"

definition upd_index :: "(DirtyFileIndex \<Rightarrow> DirtyFileIndex) \<Rightarrow> StagingManager \<Rightarrow> StagingManager" where
  "upd_index f sm = sm\<lparr>sm_dirtyIndex := f (sm_dirtyIndex sm)\<rparr>"

text \<open>Running an operation of a session on the session and the disk.\<close>

definition run_session ::
  "nat \<Rightarrow> (session_state \<Rightarrow> 'a \<times> session_state) \<Rightarrow> StagingManager \<Rightarrow> 'a \<times> StagingManager" where
  "run_session sid f sm =
     (case f (sm_heap sm sid, sm_disk sm) of
        (r, (ws, d)) \<Rightarrow> (r, sm\<lparr>sm_heap := (sm_heap sm)(sid := ws), sm_disk := d\<rparr>))"

definition remove_name :: "faults \<Rightarrow> string \<Rightarrow> StagingManager \<Rightarrow> stg_error option \<times> StagingManager" where
  "remove_name fl p sm =
     (case os_Remove fl p (sm_disk sm) of (e, d) \<Rightarrow> (ignore_not_exist e, sm\<lparr>sm_disk := d\<rparr>))"

section \<open>Tombstones\<close>

definition writeTombstoneState ::
  "faults \<Rightarrow> string \<Rightarrow> TombstoneState \<Rightarrow> Disk \<Rightarrow> stg_error option \<times> Disk" where
  "writeTombstoneState fl p state d = replace_doc fl p (TombstoneDoc state) False d"

definition addTombstone ::
  "faults \<Rightarrow> gotime \<Rightarrow> string \<Rightarrow> StagingManager \<Rightarrow> (stg_error + TombstoneState) \<times> StagingManager" where
  "addTombstone fl now path sm =
     (let tomb = \<lparr>ts_Version = tombstoneVersion, ts_Path = path, ts_ObjectKey = objectKeyFromPath path,
                  ts_CreatedAt = now\<rparr>
      in case writeTombstoneState fl (tombstoneFilePath sm path) tomb (sm_disk sm) of
           (Some e, d) \<Rightarrow> (Inl (EPersist e), sm\<lparr>sm_disk := d\<rparr>)
         | (None, d) \<Rightarrow>
             (Inr tomb, sm\<lparr>sm_disk := d, sm_tombstones := gm_set path tomb (sm_tombstones sm)\<rparr>))"

definition TryLockSync :: "string \<Rightarrow> StagingManager \<Rightarrow> bool \<times> StagingManager" where
  "TryLockSync path sm =
     (case LockFile path (sm_dirtyIndex sm) of (b, di) \<Rightarrow> (b, sm\<lparr>sm_dirtyIndex := di\<rparr>))"

definition UnlockSync :: "string \<Rightarrow> StagingManager \<Rightarrow> StagingManager" where
  "UnlockSync path sm = upd_index (UnlockFile path) sm"

definition HasPendingDelete :: "string \<Rightarrow> StagingManager \<Rightarrow> bool" where
  "HasPendingDelete path sm = gm_has (sm_tombstones sm) path"

definition PendingDeleteCount :: "StagingManager \<Rightarrow> nat" where
  "PendingDeleteCount sm = length (sm_tombstones sm)"

definition PendingDeletes :: "StagingManager \<Rightarrow> TombstoneState list" where
  "PendingDeletes sm = map snd (sm_tombstones sm)"

definition ResolvePendingDelete :: "faults \<Rightarrow> string \<Rightarrow> StagingManager \<Rightarrow> StagingManager" where
  "ResolvePendingDelete fl path sm =
     (if \<not> gm_has (sm_tombstones sm) path then sm
      else (case remove_name fl (tombstoneFilePath sm path) sm of
              (Some _, sm1) \<Rightarrow> sm1
            | (None, sm1) \<Rightarrow> sm1\<lparr>sm_tombstones := gm_del path (sm_tombstones sm1)\<rparr>))"

definition CancelPendingDelete :: "faults \<Rightarrow> string \<Rightarrow> StagingManager \<Rightarrow> bool \<times> StagingManager" where
  "CancelPendingDelete fl path sm =
     (if \<not> gm_has (sm_tombstones sm) path then (False, sm)
      else (case remove_name fl (tombstoneFilePath sm path) sm of
              (Some _, sm1) \<Rightarrow> (False, sm1)
            | (None, sm1) \<Rightarrow> (True, sm1\<lparr>sm_tombstones := gm_del path (sm_tombstones sm1)\<rparr>)))"

section \<open>Sidecars of dirty paths\<close>

definition recordDirtyPathLocked ::
  "faults \<Rightarrow> gotime \<Rightarrow> string \<Rightarrow> StagedAttributes option \<Rightarrow> StagingManager
     \<Rightarrow> (stg_error + PathMetadataState) \<times> StagingManager" where
  "recordDirtyPathLocked fl now path attrs sm =
     (let stagingPath = stagingFilePath sm path;
          metadataPath = pathMetadataPath stagingPath;
          record_state = (\<lambda>state0.
            let s1 = state0\<lparr>ps_OriginalPath := path, ps_StagedFilePath := stagingPath,
                            ps_ConflictStatus := ConflictStatusNone\<rparr>;
                s2 = (if is_zero_time (ps_DirtySince s1) then s1\<lparr>ps_DirtySince := now\<rparr> else s1);
                s3 = (if attrs \<noteq> None then s2\<lparr>ps_Attributes := attrs\<rparr> else s2)
            in case writePathMetadataState fl metadataPath (Some s3) (sm_disk sm) of
                 (Some e, _, d) \<Rightarrow> (Inl e, sm\<lparr>sm_disk := d\<rparr>)
               | (None, s4, d) \<Rightarrow> (Inr (the s4), sm\<lparr>sm_disk := d\<rparr>))
      in case readPathMetadataState fl metadataPath (sm_disk sm) of
           Inl ENotExist \<Rightarrow>
             record_state (zero_path_state\<lparr>ps_Version := pathMetadataVersion,
               ps_ObjectKey := objectKeyFromPath path\<rparr>)
         | Inl e \<Rightarrow> (Inl e, sm)
         | Inr state \<Rightarrow> record_state state)"

definition removePathMetadata :: "faults \<Rightarrow> string \<Rightarrow> StagingManager \<Rightarrow> stg_error option \<times> StagingManager" where
  "removePathMetadata fl path sm = remove_name fl (pathMetadataPath (stagingFilePath sm path)) sm"

definition sidecarMissing :: "string \<Rightarrow> string \<Rightarrow> StagingManager \<Rightarrow> bool" where
  "sidecarMissing path stagingPath sm =
     (os_lookup (sm_disk sm) (pathMetadataPath stagingPath) = None \<and> IsDirty path (sm_dirtyIndex sm))"

definition commitPathMetadata ::
  "faults \<Rightarrow> gotime \<Rightarrow> string \<Rightarrow> string \<Rightarrow> nat \<Rightarrow> StagingManager \<Rightarrow> stg_error option \<times> StagingManager" where
  "commitPathMetadata fl now path stagingPath sid sm =
     (let metadataPath = pathMetadataPath stagingPath;
          commit_state = (\<lambda>state sm1.
            if ps_Committed state then (None, sm1)
            else (case writePathMetadataState fl metadataPath (Some (state\<lparr>ps_Committed := True\<rparr>)) (sm_disk sm1) of
                    (e, _, d) \<Rightarrow> (e, sm1\<lparr>sm_disk := d\<rparr>)))
      in case readPathMetadataState fl metadataPath (sm_disk sm) of
           Inl ENotExist \<Rightarrow>
             if \<not> IsDirty path (sm_dirtyIndex sm) then (None, sm)
             else (case recordDirtyPathLocked fl now path
                          (sessionAttributesIfSet (Some (sm_heap sm sid))) sm of
                     (Inl e, sm1) \<Rightarrow> (Some (ENoMetadata e), sm1)
                   | (Inr state, sm1) \<Rightarrow> commit_state state sm1)
         | Inl e \<Rightarrow> (Some (ENoMetadata e), sm)
         | Inr state \<Rightarrow> commit_state state sm)"

definition CommitPath ::
  "faults \<Rightarrow> gotime \<Rightarrow> (session_state \<Rightarrow> session_state) list \<Rightarrow> string \<Rightarrow> StagingManager
     \<Rightarrow> stg_error option \<times> StagingManager" where
  "CommitPath fl now rounds path sm =
     (case sessionAt path sm of
        None \<Rightarrow> (None, sm)
      | Some sid \<Rightarrow>
          (case run_session sid (syncToDisk fl rounds) sm of
             ((stagingPath, uncommitted, err), sm1) \<Rightarrow>
               if err \<noteq> None \<or> stagingPath = [] then (err, sm1)
               else if uncommitted = 0 \<and> \<not> sidecarMissing path stagingPath sm1 then (None, sm1)
               else (case commitPathMetadata fl now path stagingPath sid sm1 of
                       (Some e, sm2) \<Rightarrow> (Some e, sm2)
                     | (None, sm2) \<Rightarrow>
                         (case syncDir fl (activeDir sm2) of
                            Some e \<Rightarrow> (Some e, sm2)
                          | None \<Rightarrow>
                              (None, if uncommitted \<noteq> 0
                                     then upd_session sid (metadataCommitted uncommitted) sm2 else sm2)))))"

section \<open>Sessions\<close>

text \<open>A new session is put on the heap at the next address.\<close>

definition new_session ::
  "faults \<Rightarrow> gotime \<Rightarrow> string \<Rightarrow> StagingManager \<Rightarrow> (stg_error + nat) \<times> StagingManager" where
  "new_session fl now path sm =
     (case NewWriteSession fl now True path (stagingFilePath sm path) (sm_disk sm) of
        (Inl e, d) \<Rightarrow> (Inl e, sm\<lparr>sm_disk := d\<rparr>)
      | (Inr ws, d) \<Rightarrow>
          (Inr (sm_nextSession sm),
           sm\<lparr>sm_disk := d, sm_heap := (sm_heap sm)(sm_nextSession sm := ws),
              sm_nextSession := sm_nextSession sm + 1\<rparr>))"

definition GetOrCreateSession ::
  "faults \<Rightarrow> gotime \<Rightarrow> string \<Rightarrow> StagingManager \<Rightarrow> (stg_error + nat) \<times> StagingManager" where
  "GetOrCreateSession fl now path sm =
     (if IsConflicted path (sm_dirtyIndex sm) then (Inl EConflicted, sm)
      else let sm1 = snd (CancelPendingDelete fl path sm)
           in case sessionAt path sm1 of
                Some sid \<Rightarrow> (Inr sid, upd_session sid IncrementRefCount sm1)
              | None \<Rightarrow>
                  (case new_session fl now path sm1 of
                     (Inl e, sm2) \<Rightarrow> (Inl e, sm2)
                   | (Inr sid, sm2) \<Rightarrow>
                       (Inr sid, sm2\<lparr>sm_sessions := gm_set path sid (sm_sessions sm2)\<rparr>)))"

definition ReleaseSession :: "string \<Rightarrow> StagingManager \<Rightarrow> StagingManager" where
  "ReleaseSession path sm =
     (case sessionAt path sm of
        None \<Rightarrow> sm
      | Some sid \<Rightarrow> upd_session sid DecrementRefCount sm)"

definition GetSession :: "string \<Rightarrow> StagingManager \<Rightarrow> nat option" where
  "GetSession path sm =
     (if IsConflicted path (sm_dirtyIndex sm) then None else sessionAt path sm)"

definition AcquireSession :: "string \<Rightarrow> StagingManager \<Rightarrow> nat option \<times> StagingManager" where
  "AcquireSession path sm =
     (if IsConflicted path (sm_dirtyIndex sm) then (None, sm)
      else (case sessionAt path sm of
              None \<Rightarrow> (None, sm)
            | Some sid \<Rightarrow> (Some sid, upd_session sid IncrementRefCount sm)))"

definition GetSessionsInDirectory :: "string \<Rightarrow> StagingManager \<Rightarrow> nat list" where
  "GetSessionsInDirectory dirPath sm =
     (let pre = (if dirPath \<noteq> ''/'' \<and> \<not> has_suffix dirPath ''/'' then dirPath @ ''/'' else dirPath)
      in map snd (filter (\<lambda>(path, sid).
           \<not> IsConflicted path (sm_dirtyIndex sm) \<and>
           has_prefix path pre \<and> length path > length pre \<and>
           CHR ''/'' \<notin> set (trim_prefix path pre)) (sm_sessions sm)))"

definition GetTotalStagingSize :: "StagingManager \<Rightarrow> int" where
  "GetTotalStagingSize sm = sum_list (map (\<lambda>(path, sid). ws_Size (sm_heap sm sid)) (sm_sessions sm))"

text \<open>
  \<^verbatim>\<open>Write\<close> and \<^verbatim>\<open>Truncate\<close> of a session: the reservation, the change under the session lock and the
  release. \<open>None\<close> means that backpressure still holds the call.
\<close>

definition WriteSession_Write ::
  "faults \<Rightarrow> nat \<Rightarrow> gotime \<Rightarrow> (unit \<Rightarrow> bool) option \<Rightarrow> pressure_obs list \<Rightarrow> nat \<Rightarrow> bytes \<Rightarrow> int
     \<Rightarrow> StagingManager \<Rightarrow> ((nat \<times> stg_error option) \<times> StagingManager) option" where
  "WriteSession_Write fl k now full obs sid data offset sm =
     (let ws = sm_heap sm sid;
          growthBytes = offset + int (length data) - ws_Size ws;
          do_write = (\<lambda>n sm1.
            let ((cnt, droppedTime, err), sm2) = run_session sid (write_locked fl k now data offset) sm1;
                sm3 = (if droppedTime
                       then snd (run_session sid (\<lambda>st. ((), persistAttributes fl st)) sm2) else sm2)
            in ((cnt, err), sm3\<lparr>sm_reservedBytes := releaseReservation n (sm_reservedBytes sm3)\<rparr>))
      in if \<not> ws_Manager ws then Some (do_write 0 sm)
         else (case ReserveWrite (Some (sm_config sm)) full now (sm_reservedBytes sm) obs
                      (int (length data)) growthBytes of
                 None \<Rightarrow> None
               | Some (Inl e, r) \<Rightarrow> Some ((0, Some e), sm\<lparr>sm_reservedBytes := r\<rparr>)
               | Some (Inr n, r) \<Rightarrow> Some (do_write n (sm\<lparr>sm_reservedBytes := r\<rparr>))))"

definition WriteSession_Truncate ::
  "faults \<Rightarrow> gotime \<Rightarrow> (unit \<Rightarrow> bool) option \<Rightarrow> pressure_obs list \<Rightarrow> nat \<Rightarrow> int
     \<Rightarrow> StagingManager \<Rightarrow> (stg_error option \<times> StagingManager) option" where
  "WriteSession_Truncate fl now full obs sid sz sm =
     (let ws = sm_heap sm sid;
          grow = sz - ws_Size ws;
          do_truncate = (\<lambda>n sm1.
            let (err, sm2) = run_session sid (truncate_locked fl now sz) sm1
            in (err, sm2\<lparr>sm_reservedBytes := releaseReservation n (sm_reservedBytes sm2)\<rparr>))
      in if \<not> (ws_Manager ws \<and> sz > ws_Size ws) then Some (do_truncate 0 sm)
         else (case ReserveWrite (Some (sm_config sm)) full now (sm_reservedBytes sm) obs grow grow of
                 None \<Rightarrow> None
               | Some (Inl e, r) \<Rightarrow> Some (Some e, sm\<lparr>sm_reservedBytes := r\<rparr>)
               | Some (Inr n, r) \<Rightarrow> Some (do_truncate n (sm\<lparr>sm_reservedBytes := r\<rparr>))))"

section \<open>Marking paths dirty and clean\<close>

definition markPathDirty ::
  "faults \<Rightarrow> gotime \<Rightarrow> string \<Rightarrow> int \<Rightarrow> StagingManager \<Rightarrow> stg_error option \<times> StagingManager" where
  "markPathDirty fl now path sz sm =
     (let session = sessionAt path sm;
          attrs = sessionAttributesIfSet (session_at path sm)
      in case MarkDirtyAgain now path sz (sm_dirtyIndex sm) of
           (True, di) \<Rightarrow> (None, sm\<lparr>sm_dirtyIndex := di\<rparr>)
         | (False, _) \<Rightarrow>
             (case recordDirtyPathLocked fl now path attrs sm of
                (Inl e, sm1) \<Rightarrow> (Some e, upd_index (MarkDirtyWithState now path sz None) sm1)
              | (Inr state, sm1) \<Rightarrow>
                  let sm2 = (case session of None \<Rightarrow> sm1 | Some sid \<Rightarrow> upd_session sid metadataChanged sm1)
                  in (None, upd_index (MarkDirtyWithState now path sz (Some state)) sm2)))"

definition StagingManager_MarkDirty ::
  "faults \<Rightarrow> gotime \<Rightarrow> string \<Rightarrow> int \<Rightarrow> StagingManager \<Rightarrow> stg_error option \<times> StagingManager" where
  "StagingManager_MarkDirty fl now path sz sm =
     (if IsConflicted path (sm_dirtyIndex sm) then (None, sm)
      else (case MarkDirtyAgain now path sz (sm_dirtyIndex sm) of
              (True, di) \<Rightarrow> (None, sm\<lparr>sm_dirtyIndex := di\<rparr>)
            | (False, _) \<Rightarrow>
                (case markPathDirty fl now path sz sm of
                   (e, sm1) \<Rightarrow> (map_option EPersist e, sm1))))"

text \<open>A failure to remove the sidecar of a clean path is only logged.\<close>

definition dropDirtyEntry :: "faults \<Rightarrow> string \<Rightarrow> StagingManager \<Rightarrow> StagingManager" where
  "dropDirtyEntry fl path sm =
     snd (removePathMetadata fl path (upd_index (DirtyFileIndex_MarkClean path) sm))"

definition StagingManager_MarkClean :: "faults \<Rightarrow> string \<Rightarrow> StagingManager \<Rightarrow> StagingManager" where
  "StagingManager_MarkClean fl path sm =
     snd (removePathMetadata fl path (upd_index (DirtyFileIndex_MarkClean path) sm))"

definition ForgetDirty :: "faults \<Rightarrow> string \<Rightarrow> StagingManager \<Rightarrow> StagingManager" where
  "ForgetDirty fl path sm = dropDirtyEntry fl path sm"

definition markCleanIfUnchanged ::
  "faults \<Rightarrow> string \<Rightarrow> int \<Rightarrow> StagingManager \<Rightarrow> bool \<times> StagingManager" where
  "markCleanIfUnchanged fl path generation sm =
     (case MarkCleanIfUnchanged path generation (sm_dirtyIndex sm) of
        ((wasDirty, clean), di) \<Rightarrow>
          let sm1 = sm\<lparr>sm_dirtyIndex := di\<rparr>
          in (clean, if wasDirty \<and> clean then snd (removePathMetadata fl path sm1) else sm1))"

definition SyncQueueStats :: "gotime \<Rightarrow> StagingManager \<Rightarrow> int \<times> int \<times> duration" where
  "SyncQueueStats now sm =
     fold (\<lambda>m (depth, totalBytes, oldestAge).
        (depth + 1, totalBytes + dm_Size m,
         if is_zero_time (dm_DirtySince m) then oldestAge
         else if now - dm_DirtySince m > oldestAge then now - dm_DirtySince m else oldestAge))
       (DirtyFileIndex_GetDirtyFiles (sm_dirtyIndex sm)) (0, 0, 0)"

definition ConflictStats :: "StagingManager \<Rightarrow> int \<times> string list \<times> gotime" where
  "ConflictStats sm =
     (let conflicts = DirtyFileIndex_GetConflicts (sm_dirtyIndex sm)
      in (int (length conflicts), sort (map cm_Path conflicts),
          fold (\<lambda>c lst. if cm_DetectedAt c > lst then cm_DetectedAt c else lst) conflicts 0))"

section \<open>Removing sessions\<close>

definition removeSessionLocked ::
  "faults \<Rightarrow> string \<Rightarrow> bool \<Rightarrow> StagingManager \<Rightarrow> (nat option \<times> stg_error option) \<times> StagingManager" where
  "removeSessionLocked fl path deleteStagingFile sm =
     (case sessionAt path sm of
        None \<Rightarrow> ((None, None), sm)
      | Some sid \<Rightarrow>
          if \<not> stagingPathIs (stagingFilePath sm path) (sm_heap sm sid) then ((None, None), sm)
          else let sm1 = sm\<lparr>sm_sessions := gm_del path (sm_sessions sm)\<rparr>
               in if \<not> deleteStagingFile then ((Some sid, None), sm1)
                  else (case remove_name fl (stagingFilePath sm1 path) sm1 of
                          (Some e, sm2) \<Rightarrow> ((Some sid, Some e), sm2)
                        | (None, sm2) \<Rightarrow> ((Some sid, None), dropDirtyEntry fl path sm2)))"

definition closeRemovedSession :: "faults \<Rightarrow> nat option \<Rightarrow> StagingManager \<Rightarrow> StagingManager" where
  "closeRemovedSession fl session sm =
     (case session of
        None \<Rightarrow> sm
      | Some sid \<Rightarrow> upd_session sid (\<lambda>ws. snd (WriteSession_Close fl ws)) sm)"

definition CleanupSession ::
  "faults \<Rightarrow> string \<Rightarrow> bool \<Rightarrow> StagingManager \<Rightarrow> stg_error option \<times> StagingManager" where
  "CleanupSession fl path deleteStagingFile sm =
     (if deleteStagingFile \<and> IsDirty path (sm_dirtyIndex sm) \<and> IsSyncing path (sm_dirtyIndex sm)
      then (Some EActiveSync, sm)
      else (case removeSessionLocked fl path deleteStagingFile sm of
              ((session, err), sm1) \<Rightarrow> (err, closeRemovedSession fl session sm1)))"

definition discardDeletedStaging ::
  "faults \<Rightarrow> string \<Rightarrow> StagingManager \<Rightarrow> (bool \<times> stg_error option) \<times> StagingManager" where
  "discardDeletedStaging fl path sm =
     (if \<not> HasPendingDelete path sm then ((False, None), sm)
      else (case removeSessionLocked fl path True (dropDirtyEntry fl path sm) of
              ((session, err), sm1) \<Rightarrow> ((True, err), closeRemovedSession fl session sm1)))"

definition cleanupSyncedSession ::
  "faults \<Rightarrow> string \<Rightarrow> nat \<Rightarrow> StagingManager \<Rightarrow> (bool \<times> stg_error option) \<times> StagingManager" where
  "cleanupSyncedSession fl path sid sm =
     (let stagingPath = stagingFilePath sm path
      in if sessionAt path sm \<noteq> Some sid \<or> ws_RefCount (sm_heap sm sid) > 0 \<or>
            gm_or 0 (sm_renameTargets sm) path > 0 \<or> IsDirty path (sm_dirtyIndex sm) \<or>
            \<not> stagingPathIs stagingPath (sm_heap sm sid)
         then ((False, None), sm)
         else (case remove_name fl stagingPath (sm\<lparr>sm_sessions := gm_del path (sm_sessions sm)\<rparr>) of
                 (err, sm1) \<Rightarrow>
                   let sm2 = snd (remove_name fl (pathMetadataPath stagingPath) sm1);
                       sm3 = closeRemovedSession fl (Some sid) sm2
                   in ((err = None, err), sm3)))"

definition beginRenameOnto :: "string \<Rightarrow> StagingManager \<Rightarrow> StagingManager" where
  "beginRenameOnto path sm =
     sm\<lparr>sm_renameTargets := gm_set path (gm_or 0 (sm_renameTargets sm) path + 1) (sm_renameTargets sm)\<rparr>"

definition endRenameOnto :: "string \<Rightarrow> StagingManager \<Rightarrow> StagingManager" where
  "endRenameOnto path sm =
     (let n = gm_or 0 (sm_renameTargets sm) path - 1
      in sm\<lparr>sm_renameTargets :=
              (if n \<le> 0 then gm_del path (gm_set path n (sm_renameTargets sm))
               else gm_set path n (sm_renameTargets sm))\<rparr>)"

definition Shutdown :: "faults \<Rightarrow> StagingManager \<Rightarrow> StagingManager" where
  "Shutdown fl sm =
     (fold (\<lambda>(path, sid). upd_session sid (\<lambda>ws. snd (WriteSession_Close fl ws))) (sm_sessions sm) sm)
       \<lparr>sm_sessions := []\<rparr>"

definition RegisterPendingDelete ::
  "faults \<Rightarrow> gotime \<Rightarrow> string \<Rightarrow> StagingManager \<Rightarrow> (stg_error + bool) \<times> StagingManager" where
  "RegisterPendingDelete fl now path sm =
     (case addTombstone fl now path sm of
        (Inl e, sm1) \<Rightarrow> (Inl e, sm1)
      | (Inr _, sm1) \<Rightarrow>
          (case TryLockSync path sm1 of
             (False, sm2) \<Rightarrow> (Inr False, sm2)
           | (True, sm2) \<Rightarrow> (Inr True, UnlockSync path (snd (discardDeletedStaging fl path sm2)))))"

section \<open>Sessions that hold no data\<close>

definition ReleaseSessionDiscardingIfEmpty :: "faults \<Rightarrow> string \<Rightarrow> StagingManager \<Rightarrow> StagingManager" where
  "ReleaseSessionDiscardingIfEmpty fl path sm =
     (case sessionAt path sm of
        None \<Rightarrow> sm
      | Some sid \<Rightarrow>
          let sm1 = upd_session sid DecrementRefCount sm;
              ws = sm_heap sm1 sid
          in if ws_RefCount ws > 0 \<or> IsDirty path (sm_dirtyIndex sm1) \<or> \<not> hasNoStagedData ws then sm1
             else let sm2 = sm1\<lparr>sm_sessions := gm_del path (sm_sessions sm1)\<rparr>;
                      sm3 = closeRemovedSession fl (Some sid) sm2;
                      sm4 = snd (remove_name fl (ws_StagingPath ws) sm3)
                  in snd (remove_name fl (pathMetadataPath (ws_StagingPath ws)) sm4))"

record DiscardedSession =
  ds_Size :: int
  ds_Attributes :: StagedAttributes

definition DiscardUnwrittenSession ::
  "faults \<Rightarrow> string \<Rightarrow> StagingManager \<Rightarrow> (DiscardedSession option \<times> bool) \<times> StagingManager" where
  "DiscardUnwrittenSession fl path sm =
     (if IsConflicted path (sm_dirtyIndex sm) then ((None, False), sm)
      else (case sessionAt path sm of
              None \<Rightarrow> ((None, \<not> IsDirty path (sm_dirtyIndex sm)), sm)
            | Some sid \<Rightarrow>
                let ws = sm_heap sm sid
                in if ws_RefCount ws > 0 \<or> \<not> holdsNoWrittenData ws then ((None, False), sm)
                   else let sm1 = sm\<lparr>sm_sessions := gm_del path (sm_sessions sm)\<rparr>;
                            sm2 = upd_index (DropEntry path) sm1;
                            sm3 = closeRemovedSession fl (Some sid) sm2;
                            sm4 = snd (remove_name fl (ws_StagingPath ws) sm3);
                            sm5 = snd (remove_name fl (pathMetadataPath (ws_StagingPath ws)) sm4)
                        in ((Some \<lparr>ds_Size = ws_Size ws, ds_Attributes = attributesLocked ws\<rparr>, True), sm5)))"

definition RestoreUnwrittenSession ::
  "faults \<Rightarrow> gotime \<Rightarrow> string \<Rightarrow> DiscardedSession \<Rightarrow> StagingManager \<Rightarrow> stg_error option \<times> StagingManager" where
  "RestoreUnwrittenSession fl now path discarded sm =
     (if sessionAt path sm \<noteq> None then (None, sm)
      else (case new_session fl now path sm of
              (Inl e, sm1) \<Rightarrow> (Some e, sm1)
            | (Inr sid, sm1) \<Rightarrow>
                let ws = sm_heap sm1 sid
                in if ds_Size discarded < 0 \<or> fl OpTruncate (ws_StagingPath ws)
                   then (Some (EOs OpTruncate (ws_StagingPath ws)), closeRemovedSession fl (Some sid) sm1)
                   else let i = the (ws_File ws);
                            d = set_inode i (ftruncate (dk_inodes (sm_disk sm1) i) (nat (ds_Size discarded)))
                                  now (sm_disk sm1);
                            ws' = restoreAttributes (ds_Attributes discarded)
                                    (ws\<lparr>ws_Size := ds_Size discarded, ws_Dirty := True, ws_RefCount := 0\<rparr>);
                            sm2 = sm1\<lparr>sm_disk := d, sm_heap := (sm_heap sm1)(sid := ws'),
                                      sm_sessions := gm_set path sid (sm_sessions sm1)\<rparr>;
                            (err, sm3) = StagingManager_MarkDirty fl now path (ds_Size discarded) sm2;
                            sm4 = snd (run_session sid (\<lambda>st. ((), persistAttributes fl st)) sm3)
                        in (err, sm4)))"

section \<open>Rebuilding a session\<close>

definition RecoverSessionFromStaging ::
  "faults \<Rightarrow> gotime \<Rightarrow> string \<Rightarrow> StagingManager \<Rightarrow> (stg_error + nat) \<times> StagingManager" where
  "RecoverSessionFromStaging fl now path sm =
     (let stagingPath = stagingFilePath sm path
      in case data_inode (sm_disk sm) stagingPath of
           None \<Rightarrow> (Inl ENotExist, sm)
         | Some i \<Rightarrow>
             if fl OpStat stagingPath then (Inl (EOs OpStat stagingPath), sm)
             else let infoSize = int (length (dk_inodes (sm_disk sm) i));
                      modTime = dk_mtime (sm_disk sm) i
                  in case sessionAt path sm of
                       Some sid \<Rightarrow> (Inr sid, sm)
                     | None \<Rightarrow>
                         (case new_session fl now path sm of
                            (Inl e, sm1) \<Rightarrow> (Inl e, sm1)
                          | (Inr sid, sm1) \<Rightarrow>
                              let ws = sm_heap sm1 sid;
                                  ws1 = (case readPathMetadataState fl (pathMetadataPath stagingPath) (sm_disk sm1) of
                                      Inr state \<Rightarrow> (case ps_Attributes state of
                                           Some a \<Rightarrow> restoreAttributes a ws | None \<Rightarrow> ws)
                                    | Inl _ \<Rightarrow> ws);
                                  ws2 = ws1\<lparr>ws_Size := infoSize, ws_Dirty := True, ws_RefCount := 0,
                                            ws_LastWrite := modTime, ws_LastAccess := modTime\<rparr>
                              in (Inr sid, sm1\<lparr>sm_heap := (sm_heap sm1)(sid := ws2),
                                               sm_sessions := gm_set path sid (sm_sessions sm1)\<rparr>)))"

end
