(* ===== verification/Go_Text.thy ===== *)
theory Go_Text
  imports Go_Prelude
begin

text \<open>
  Numbers and times as text: the formatting and parsing functions of Go's \<^verbatim>\<open>strconv\<close> and
  \<^verbatim>\<open>time\<close> packages that the gateway stores metadata with. Times are formatted in UTC. The
  lemmas are the round trips.
\<close>

section \<open>Digits\<close>

definition digit_char :: "nat \<Rightarrow> char" where
  "digit_char n = char_of (if n < 10 then 48 + n else 87 + n)"

definition digit_val :: "char \<Rightarrow> nat option" where
  "digit_val c =
     (let n = of_char c :: nat
      in if 48 \<le> n \<and> n \<le> 57 then Some (n - 48)
         else if 97 \<le> n \<and> n \<le> 122 then Some (n - 87)
         else if 65 \<le> n \<and> n \<le> 90 then Some (n - 55)
         else None)"

lemma digit_val_char [simp]: "n < 36 \<Longrightarrow> digit_val (digit_char n) = Some n"
  by (auto simp: digit_val_def digit_char_def Let_def)

function digits :: "nat \<Rightarrow> nat \<Rightarrow> string" where
  "digits b n = (if b < 2 \<or> n < b then [digit_char n] else digits b (n div b) @ [digit_char (n mod b)])"
  by pat_completeness auto

termination digits
  by (relation "measure snd") auto

declare digits.simps [simp del]

primrec parse_digits :: "nat \<Rightarrow> nat \<Rightarrow> string \<Rightarrow> nat option" where
  "parse_digits b acc [] = Some acc"
| "parse_digits b acc (c # cs) =
     (case digit_val c of
        None \<Rightarrow> None
      | Some d \<Rightarrow> if d \<ge> b then None else parse_digits b (acc * b + d) cs)"

lemma parse_digits_append:
  "parse_digits b acc (xs @ ys) = Option.bind (parse_digits b acc xs) (\<lambda>a. parse_digits b a ys)"
  by (induction xs arbitrary: acc) (auto split: option.split)

lemma parse_digits_digits:
  "2 \<le> b \<Longrightarrow> b \<le> 36 \<Longrightarrow> parse_digits b 0 (digits b n) = Some n"
proof (induction b n rule: digits.induct)
  case (1 b n)
  show ?case
  proof (cases "n < b")
    case True
    with 1 show ?thesis by (simp add: digits.simps [of b n])
  next
    case False
    with 1 have "parse_digits b 0 (digits b (n div b)) = Some (n div b)" by simp
    moreover have "n mod b < b" using 1(2) by simp
    then have "\<not> b \<le> n mod b" "n mod b < 36" using 1(3) by linarith+
    ultimately show ?thesis using False 1(2,3) by (simp add: digits.simps [of b n] parse_digits_append)
  qed
qed

lemma digits_not_Nil [simp]: "digits b n \<noteq> []"
  by (subst digits.simps) simp

lemma digits_chars: "2 \<le> b \<Longrightarrow> b \<le> 36 \<Longrightarrow> c \<in> set (digits b n) \<Longrightarrow> \<exists>d < b. c = digit_char d"
proof (induction b n rule: digits.induct)
  case (1 b n)
  show ?case
  proof (cases "n < b")
    case True
    with 1 show ?thesis by (auto simp: digits.simps [of b n])
  next
    case False
    then have "c \<in> set (digits b (n div b)) \<or> c = digit_char (n mod b)"
      using 1(2-4) by (auto simp: digits.simps [of b n])
    moreover have "n mod b < b" using 1 by simp
    ultimately show ?thesis using 1 False by (metis not_less)
  qed
qed

section \<open>\<open>strconv\<close>\<close>

definition FormatInt :: "int \<Rightarrow> nat \<Rightarrow> string" where
  "FormatInt i b = (if i < 0 then CHR ''-'' # digits b (nat (- i)) else digits b (nat i))"

definition Itoa :: "int \<Rightarrow> string" where
  "Itoa i = FormatInt i 10"

definition ParseUint :: "string \<Rightarrow> nat \<Rightarrow> nat \<Rightarrow> nat option" where
  "ParseUint s b bits =
     (if s = [] then None
      else (case parse_digits b 0 s of None \<Rightarrow> None | Some n \<Rightarrow> if n < 2 ^ bits then Some n else None))"

text \<open>\<^verbatim>\<open>strconv.Atoi\<close> on a platform with 64-bit integers.\<close>

definition Atoi :: "string \<Rightarrow> int option" where
  "Atoi s =
     (let (neg, t) = (case s of c # cs \<Rightarrow> if c = CHR ''-'' then (True, cs)
                                          else if c = CHR ''+'' then (False, cs) else (False, s)
                               | [] \<Rightarrow> (False, []))
      in if t = [] then None
         else (case parse_digits 10 0 t of
                 None \<Rightarrow> None
               | Some n \<Rightarrow>
                   if neg then (if n \<le> 2 ^ 63 then Some (- int n) else None)
                   else (if n < 2 ^ 63 then Some (int n) else None)))"

lemma ParseUint_digits [simp]:
  "2 \<le> b \<Longrightarrow> b \<le> 36 \<Longrightarrow> ParseUint (digits b n) b bits = (if n < 2 ^ bits then Some n else None)"
  by (simp add: ParseUint_def parse_digits_digits)

lemma digits_hd: "hd (digits 10 n) \<noteq> CHR ''-'' \<and> hd (digits 10 n) \<noteq> CHR ''+''"
proof -
  have "hd (digits 10 n) \<in> set (digits 10 n)" by simp
  then obtain d where "d < 10" "hd (digits 10 n) = digit_char d"
    using digits_chars [of 10 "hd (digits 10 n)" n] by auto
  then have "digit_val (hd (digits 10 n)) = Some d" by simp
  moreover have "digit_val (CHR ''-'') = None" "digit_val (CHR ''+'') = None" by code_simp+
  ultimately show ?thesis by auto
qed

lemma Atoi_Itoa: "- (2 ^ 63) \<le> i \<Longrightarrow> i < 2 ^ 63 \<Longrightarrow> Atoi (Itoa i) = Some i"
proof -
  assume i: "- (2 ^ 63) \<le> i" "i < 2 ^ 63"
  obtain c cs where d: "digits 10 (nat i) = c # cs" by (metis digits_not_Nil list.exhaust)
  then have "c \<noteq> CHR ''-''" "c \<noteq> CHR ''+''" using digits_hd [of "nat i"] by auto
  with i d show ?thesis
    by (auto simp: Atoi_def Itoa_def FormatInt_def parse_digits_digits Let_def nat_less_iff nat_le_iff)
      (use parse_digits_digits [of 10 "nat i"] in \<open>auto simp: nat_less_iff\<close>)
qed

section \<open>Fixed width\<close>

definition pad :: "nat \<Rightarrow> nat \<Rightarrow> string" where
  "pad w n = replicate (w - length (digits 10 n)) (CHR ''0'') @ digits 10 n"

lemma digits_length: "n < 10 ^ w \<Longrightarrow> 0 < w \<Longrightarrow> length (digits 10 n) \<le> w"
proof (induction w arbitrary: n)
  case (Suc w)
  show ?case
  proof (cases "n < 10")
    case True
    then show ?thesis by (simp add: digits.simps)
  next
    case False
    with Suc.prems have "n div 10 < 10 ^ w" "0 < w"
      by (auto simp: less_mult_imp_div_less mult.commute) (cases w; simp)
    with Suc.IH have "length (digits 10 (n div 10)) \<le> w" by simp
    with False show ?thesis by (simp add: digits.simps [of 10 n])
  qed
qed simp

lemma length_pad [simp]: "n < 10 ^ w \<Longrightarrow> 0 < w \<Longrightarrow> length (pad w n) = w"
  using digits_length [of n w] by (simp add: pad_def)

lemma parse_zeros: "parse_digits 10 0 (replicate k (CHR ''0'') @ s) = parse_digits 10 0 s"
proof (induction k)
  case (Suc k)
  have "digit_val (CHR ''0'') = Some 0" by code_simp
  with Suc show ?case by simp
qed simp

lemma parse_pad [simp]: "parse_digits 10 0 (pad w n) = Some n"
  by (simp add: pad_def parse_zeros parse_digits_digits)

text \<open>Taking a number of exactly \<open>w\<close> digits off a string, and a given character.\<close>

definition take_num :: "nat \<Rightarrow> string \<Rightarrow> (nat \<times> string) option" where
  "take_num w s =
     (if length s < w then None
      else map_option (\<lambda>n. (n, drop w s)) (parse_digits 10 0 (take w s)))"

definition take_char :: "char \<Rightarrow> string \<Rightarrow> string option" where
  "take_char c s = (case s of x # xs \<Rightarrow> if x = c then Some xs else None | [] \<Rightarrow> None)"

lemma take_num_pad [simp]: "n < 10 ^ w \<Longrightarrow> 0 < w \<Longrightarrow> take_num w (pad w n @ s) = Some (n, s)"
  by (simp add: take_num_def)

lemma take_char_Cons [simp]: "take_char c (x # xs) = (if x = c then Some xs else None)" "take_char c [] = None"
  by (simp_all add: take_char_def)

section \<open>Calendar\<close>

text \<open>
  Days are counted from 1 January of year 1, the zero of \<^verbatim>\<open>time.Time\<close>. \<open>civil\<close> splits off
  cycles of 400, 100, 4 and 1 years as \<^verbatim>\<open>time.Time.abs\<close> does.
\<close>

definition is_leap :: "int \<Rightarrow> bool" where
  "is_leap y \<longleftrightarrow> y mod 4 = 0 \<and> (y mod 100 \<noteq> 0 \<or> y mod 400 = 0)"

definition daysBefore :: "int \<Rightarrow> int" where
  "daysBefore m = [0, 31, 59, 90, 120, 151, 181, 212, 243, 273, 304, 334, 365] ! nat m"

definition daysIn :: "int \<Rightarrow> int \<Rightarrow> int" where
  "daysIn m y = (if m = 2 \<and> is_leap y then 29 else daysBefore m - daysBefore (m - 1))"

definition year_yday :: "int \<Rightarrow> int \<times> int" where
  "year_yday d =
     (let n400 = d div 146097; d1 = d mod 146097;
          n100 = d1 div 36524 - d1 div 36524 div 4; d2 = d1 - 36524 * n100;
          n4 = d2 div 1461; d3 = d2 - 1461 * n4;
          n1 = d3 div 365 - d3 div 365 div 4; d4 = d3 - 365 * n1
      in (400 * n400 + 100 * n100 + 4 * n4 + n1 + 1, d4))"

definition month_day :: "bool \<Rightarrow> int \<Rightarrow> int \<times> int" where
  "month_day leap yday =
     (if leap \<and> yday = 59 then (2, 29)
      else let d = (if leap \<and> yday > 59 then yday - 1 else yday);
               m = d div 31
           in if d \<ge> daysBefore (m + 1) then (m + 2, d - daysBefore (m + 1) + 1)
              else (m + 1, d - daysBefore m + 1))"

definition civil :: "int \<Rightarrow> int \<times> int \<times> int" where
  "civil d = (let (y, yday) = year_yday d; (m, dd) = month_day (is_leap y) yday in (y, m, dd))"

definition year_start :: "int \<Rightarrow> int" where
  "year_start y = 365 * (y - 1) + (y - 1) div 4 - (y - 1) div 100 + (y - 1) div 400"

definition days_of :: "int \<Rightarrow> int \<Rightarrow> int \<Rightarrow> int" where
  "days_of y m d = year_start y + daysBefore (m - 1) + (if is_leap y \<and> m > 2 then 1 else 0) + d - 1"

lemma year_yday_spec:
  assumes "year_yday d = (y, yd)"
  shows "d = year_start y + yd" "0 \<le> yd" "yd < 365 + (if is_leap y then 1 else 0)"
proof -
  define n400 d1 where n400: "n400 = d div 146097" and d1: "d1 = d mod 146097"
  define n100 d2 where n100: "n100 = d1 div 36524 - d1 div 36524 div 4" and d2: "d2 = d1 - 36524 * n100"
  define n4 d3 where n4: "n4 = d2 div 1461" and d3: "d3 = d2 - 1461 * n4"
  define n1 where n1: "n1 = d3 div 365 - d3 div 365 div 4"
  have y: "y = 400 * n400 + 100 * n100 + 4 * n4 + n1 + 1" and yd: "yd = d3 - 365 * n1"
    using assms unfolding year_yday_def Let_def n400 [symmetric] d1 [symmetric] n100 [symmetric] d2 [symmetric]
      n4 [symmetric] d3 [symmetric] n1 [symmetric] by simp_all
  have D: "d = 146097 * n400 + d1" "0 \<le> d1" "d1 < 146097" by (simp_all add: n400 d1)
  have "d1 div 36524 \<in> {0, 1, 2, 3, 4}" "d1 = 36524 * (d1 div 36524) + d1 mod 36524"
    "0 \<le> d1 mod 36524" "d1 mod 36524 < 36524"
    using D(2,3) by auto
  then have b100: "0 \<le> n100" "n100 \<le> 3" "0 \<le> d2" "d2 < 36524 + (if n100 = 3 then 1 else 0)"
    using D(3) by (auto simp: n100 d2)
  have b4: "0 \<le> n4" "n4 \<le> 24" "0 \<le> d3" "d3 < 1461" "n4 = 24 \<Longrightarrow> d3 < 1460 + (if n100 = 3 then 1 else 0)"
    using b100(3,4) by (auto simp: n4 d3 minus_mult_div_eq_mod split: if_splits)
  have "d3 div 365 \<in> {0, 1, 2, 3, 4}" "d3 = 365 * (d3 div 365) + d3 mod 365"
    "0 \<le> d3 mod 365" "d3 mod 365 < 365"
    using b4(3,4) by auto
  then have b1: "0 \<le> n1" "n1 \<le> 3" "0 \<le> yd" "yd < 365 + (if n1 = 3 then 1 else 0)"
    "n1 = 3 \<Longrightarrow> n4 = 24 \<Longrightarrow> n100 \<noteq> 3 \<Longrightarrow> yd < 365"
    using b4(4,5) by (auto simp: n1 yd split: if_splits)
  from b100 b4 b1 have B: "0 \<le> n100" "n100 \<le> 3" "0 \<le> n4" "n4 \<le> 24" "0 \<le> n1" "n1 \<le> 3" "0 \<le> yd"
    "yd < 365 + (if n1 = 3 \<and> (n4 \<noteq> 24 \<or> n100 = 3) then 1 else 0)" by (auto split: if_splits)
  have q: "(y - 1) div 4 = 100 * n400 + 25 * n100 + n4" "(y - 1) div 100 = 4 * n400 + n100" "(y - 1) div 400 = n400"
    using B y int_div_pos_eq [of "y - 1" 4 "100 * n400 + 25 * n100 + n4" n1]
      int_div_pos_eq [of "y - 1" 100 "4 * n400 + n100" "4 * n4 + n1"]
      int_div_pos_eq [of "y - 1" 400 n400 "100 * n100 + 4 * n4 + n1"] by linarith+
  show "d = year_start y + yd" using D(1) d2 d3 yd q y by (simp add: year_start_def)
  show "0 \<le> yd" using B by simp
  have "is_leap y" if n: "n1 = 3 \<and> (n4 \<noteq> 24 \<or> n100 = 3)"
  proof -
    have "y = 4 * (100 * n400 + 25 * n100 + n4 + 1)" using n y by simp
    then have "y mod 4 = 0" by simp
    moreover have "y mod 100 = 4 * n4 + 4" if "n4 \<noteq> 24"
      using that n y B by (intro int_mod_pos_eq [where q = "4 * n400 + n100"]) auto
    moreover have "y mod 400 = 0" if "n4 = 24"
      using that n y by (intro int_mod_pos_eq [where q = "n400 + 1"]) auto
    ultimately show ?thesis using B(3,4) by (cases "n4 = 24") (auto simp: is_leap_def)
  qed
  then show "yd < 365 + (if is_leap y then 1 else 0)" using B(8) by (auto split: if_splits)
qed

lemma daysBefore_simps:
  "daysBefore 0 = 0" "daysBefore 1 = 31" "daysBefore 2 = 59" "daysBefore 3 = 90" "daysBefore 4 = 120"
  "daysBefore 5 = 151" "daysBefore 6 = 181" "daysBefore 7 = 212" "daysBefore 8 = 243" "daysBefore 9 = 273"
  "daysBefore 10 = 304" "daysBefore 11 = 334" "daysBefore 12 = 365"
  by code_simp+

lemma small_int_cases:
  fixes k :: int
  assumes "0 \<le> k" "k \<le> 11"
  obtains "k = 0" | "k = 1" | "k = 2" | "k = 3" | "k = 4" | "k = 5" | "k = 6" | "k = 7" | "k = 8" | "k = 9"
    | "k = 10" | "k = 11"
proof -
  have "k = 0 \<or> k = 1 \<or> k = 2 \<or> k = 3 \<or> k = 4 \<or> k = 5 \<or> k = 6 \<or> k = 7 \<or> k = 8 \<or> k = 9 \<or> k = 10 \<or> k = 11"
    using assms by arith
  then show thesis using that by blast
qed

lemma month_day_spec:
  assumes "month_day leap yd = (m, d)" "0 \<le> yd" "yd < 365 + (if leap then 1 else 0)"
    and "leap \<longleftrightarrow> is_leap y"
  shows "1 \<le> m \<and> m \<le> 12 \<and> 1 \<le> d \<and> d \<le> daysIn m y \<and>
    yd = daysBefore (m - 1) + (if leap \<and> m > 2 then 1 else 0) + d - 1"
proof (cases "leap \<and> yd = 59")
  case True
  then show ?thesis using assms by (auto simp: month_day_def daysIn_def daysBefore_simps)
next
  case False
  define e where "e = (if leap \<and> yd > 59 then yd - 1 else yd)"
  have e: "0 \<le> e" "e < 365" "yd = e + (if leap \<and> e \<ge> 59 then 1 else 0)"
    using assms False by (auto simp: e_def split: if_splits)
  define k where "k = e div 31"
  have md: "(m, d) = (if e \<ge> daysBefore (k + 1) then (k + 2, e - daysBefore (k + 1) + 1)
      else (k + 1, e - daysBefore k + 1))"
    using assms(1) False unfolding month_day_def Let_def e_def [symmetric] k_def by (simp split: if_splits)
  have k: "31 * k \<le> e" "e < 31 * k + 31" "0 \<le> k" "k \<le> 11"
    using e(1,2) by (auto simp: k_def)
  from k(3,4) show ?thesis
    by (cases rule: small_int_cases)
      (use md e(2,3) k(1,2) assms(4) in \<open>simp_all add: daysBefore_simps daysIn_def split: if_splits\<close>)
qed

lemma civil_spec:
  assumes "civil dy = (y, m, d)"
  shows "days_of y m d = dy" "1 \<le> m" "m \<le> 12" "1 \<le> d" "d \<le> daysIn m y"
proof -
  obtain yd where yd: "year_yday dy = (y, yd)" "month_day (is_leap y) yd = (m, d)"
    using assms by (auto simp: civil_def Let_def split: prod.splits)
  note ys = year_yday_spec [OF yd(1)]
  have "1 \<le> m \<and> m \<le> 12 \<and> 1 \<le> d \<and> d \<le> daysIn m y \<and>
      yd = daysBefore (m - 1) + (if is_leap y \<and> m > 2 then 1 else 0) + d - 1"
    by (rule month_day_spec [OF yd(2) ys(2,3)]) simp
  with ys(1) show "days_of y m d = dy" "1 \<le> m" "m \<le> 12" "1 \<le> d" "d \<le> daysIn m y"
    by (auto simp: days_of_def)
qed

lemma daysIn_le: "1 \<le> m \<Longrightarrow> m \<le> 12 \<Longrightarrow> daysIn m y \<le> 31"
proof -
  assume "1 \<le> m" "m \<le> 12"
  then have "0 \<le> m - 1" "m - 1 \<le> 11" by simp_all
  then show ?thesis
    by (cases rule: small_int_cases) (simp_all add: daysIn_def daysBefore_simps)
qed

section \<open>Formatting and parsing times\<close>

text \<open>
  \<open>off\<close> is the offset of the time's location from UTC in minutes. \<open>format_date\<close> and
  \<open>format_clock\<close> are the parts of a layout the gateway uses, with their separators.
\<close>

definition format_date :: "string \<Rightarrow> int \<Rightarrow> string" where
  "format_date sep dy = (case civil dy of (y, m, d) \<Rightarrow> pad 4 (nat y) @ sep @ pad 2 (nat m) @ sep @ pad 2 (nat d))"

definition format_clock :: "string \<Rightarrow> int \<Rightarrow> string" where
  "format_clock sep sod =
     pad 2 (nat (sod div 3600)) @ sep @ pad 2 (nat (sod div 60 mod 60)) @ sep @ pad 2 (nat (sod mod 60))"

definition format_zone :: "int \<Rightarrow> string" where
  "format_zone off =
     (if off = 0 then ''Z''
      else (if off < 0 then ''-'' else ''+'') @ pad 2 (nat (\<bar>off\<bar> div 60)) @ '':'' @ pad 2 (nat (\<bar>off\<bar> mod 60)))"

definition format_frac :: "nat \<Rightarrow> string" where
  "format_frac ns =
     (if ns = 0 then [] else CHR ''.'' # rev (dropWhile (\<lambda>c. c = CHR ''0'') (rev (pad 9 ns))))"

definition format_RFC3339 :: "int \<Rightarrow> gotime \<Rightarrow> string" where
  "format_RFC3339 off t =
     (let secs = t div second + off * 60
      in format_date ''-'' (secs div 86400) @ ''T'' @ format_clock '':'' (secs mod 86400) @ format_zone off)"

definition format_RFC3339Nano :: "int \<Rightarrow> gotime \<Rightarrow> string" where
  "format_RFC3339Nano off t =
     (let secs = t div second + off * 60
      in format_date ''-'' (secs div 86400) @ ''T'' @ format_clock '':'' (secs mod 86400)
         @ format_frac (nat (t mod second)) @ format_zone off)"

definition is_digit :: "char \<Rightarrow> bool" where
  "is_digit c = (case digit_val c of None \<Rightarrow> False | Some d \<Rightarrow> d < 10)"

text \<open>A number of one or two digits, as \<^verbatim>\<open>time.Parse\<close> reads the hour.\<close>

definition take_hour :: "string \<Rightarrow> (nat \<times> string) option" where
  "take_hour s =
     (case s of c1 # c2 # _ \<Rightarrow> if is_digit c2 then take_num 2 s else take_num 1 s | _ \<Rightarrow> take_num 1 s)"

text \<open>An optional fraction of a second; digits after the ninth are dropped.\<close>

definition take_frac :: "string \<Rightarrow> (nat \<times> string) option" where
  "take_frac s =
     (case s of
        c1 # c2 # _ \<Rightarrow>
          if (c1 = CHR ''.'' \<or> c1 = CHR '','') \<and> is_digit c2 then
            let ds = takeWhile is_digit (tl s); used = take 9 ds
            in map_option (\<lambda>n. (n * 10 ^ (9 - length used), drop (length ds) (tl s))) (parse_digits 10 0 used)
          else Some (0, s)
      | _ \<Rightarrow> Some (0, s))"

definition take_zone :: "string \<Rightarrow> (int \<times> string) option" where
  "take_zone s =
     (case s of
        [] \<Rightarrow> None
      | c # r \<Rightarrow>
          if c = CHR ''Z'' then Some (0, r)
          else if c = CHR ''+'' \<or> c = CHR ''-'' then
            Option.bind (take_num 2 r) (\<lambda>(hh, r1).
            Option.bind (take_char (CHR '':'') r1) (\<lambda>r2.
            Option.bind (take_num 2 r2) (\<lambda>(mm, r3).
              if hh > 24 \<or> mm > 60 then None
              else Some ((if c = CHR ''-'' then -1 else 1) * (int hh * 60 + int mm), r3))))
          else None)"

definition parse_RFC3339 :: "string \<Rightarrow> gotime option" where
  "parse_RFC3339 s =
     Option.bind (take_num 4 s) (\<lambda>(y, s).
     Option.bind (take_char (CHR ''-'') s) (\<lambda>s.
     Option.bind (take_num 2 s) (\<lambda>(m, s).
     Option.bind (take_char (CHR ''-'') s) (\<lambda>s.
     Option.bind (take_num 2 s) (\<lambda>(d, s).
     Option.bind (take_char (CHR ''T'') s) (\<lambda>s.
     Option.bind (take_hour s) (\<lambda>(hh, s).
     Option.bind (take_char (CHR '':'') s) (\<lambda>s.
     Option.bind (take_num 2 s) (\<lambda>(mi, s).
     Option.bind (take_char (CHR '':'') s) (\<lambda>s.
     Option.bind (take_num 2 s) (\<lambda>(ss, s).
     Option.bind (take_frac s) (\<lambda>(ns, s).
     Option.bind (take_zone s) (\<lambda>(off, s).
       if s \<noteq> [] \<or> m < 1 \<or> m > 12 \<or> d < 1 \<or> int d > daysIn (int m) (int y) \<or> hh \<ge> 24 \<or> mi \<ge> 60 \<or> ss \<ge> 60
       then None
       else Some ((days_of (int y) (int m) (int d) * 86400 + int hh * 3600 + int mi * 60 + int ss - off * 60)
              * second + int ns))))))))))))))"

lemma is_digit_pad: "c \<in> set (pad w n) \<Longrightarrow> is_digit c"
proof -
  assume "c \<in> set (pad w n)"
  then consider "c = CHR ''0''" | "c \<in> set (digits 10 n)" by (auto simp: pad_def)
  then show ?thesis
  proof cases
    case 1
    have "is_digit (CHR ''0'')" by code_simp
    with 1 show ?thesis by simp
  next
    case 2
    then obtain d where "d < 10" "c = digit_char d" using digits_chars [of 10 c n] by auto
    then show ?thesis by (simp add: is_digit_def)
  qed
qed

lemma take_hour_pad:
  assumes "n < 100" shows "take_hour (pad 2 n @ s) = Some (n, s)"
proof -
  have "length (pad 2 n) = 2" using assms by simp
  then obtain c1 c2 where c: "pad 2 n = [c1, c2]" by (metis (no_types) length_0_conv length_Suc_conv numeral_2_eq_2)
  then have "is_digit c2" using is_digit_pad [of c2 2 n] by simp
  then show ?thesis using take_num_pad [of n 2 s] assms c by (simp add: take_hour_def)
qed

lemma parse_append_zeros:
  "parse_digits 10 acc xs = Some a \<Longrightarrow> parse_digits 10 acc (xs @ replicate k (CHR ''0'')) = Some (a * 10 ^ k)"
proof (induction k arbitrary: a)
  case (Suc k)
  have "digit_val (CHR ''0'') = Some 0" by code_simp
  with Suc show ?case by (simp add: replicate_append_same [symmetric] parse_digits_append del: replicate_append_same)
qed simp

lemma parse_digits_some: "\<forall>c \<in> set xs. is_digit c \<Longrightarrow> \<exists>a. parse_digits 10 acc xs = Some a"
  by (induction xs arbitrary: acc) (auto simp: is_digit_def split: option.splits)

lemma takeWhile_replicate: "takeWhile (\<lambda>c. c = x) xs = replicate (length (takeWhile (\<lambda>c. c = x) xs)) x"
  by (induction xs) auto

lemma strip_zeros:
  "\<exists>k. xs = rev (dropWhile (\<lambda>c. c = x) (rev xs)) @ replicate k x"
proof -
  have "rev xs = takeWhile (\<lambda>c. c = x) (rev xs) @ dropWhile (\<lambda>c. c = x) (rev xs)" by simp
  then have "xs = rev (dropWhile (\<lambda>c. c = x) (rev xs)) @ rev (takeWhile (\<lambda>c. c = x) (rev xs))"
    by (metis rev_append rev_rev_ident)
  then show ?thesis by (metis rev_replicate takeWhile_replicate)
qed

lemma take_frac_none: "c \<noteq> CHR ''.'' \<Longrightarrow> c \<noteq> CHR '','' \<Longrightarrow> take_frac (c # cs) = Some (0, c # cs)"
  by (cases cs) (simp_all add: take_frac_def)

lemma take_frac_some:
  "is_digit c \<Longrightarrow> takeWhile is_digit (c # cs) = ds \<Longrightarrow> length ds \<le> 9 \<Longrightarrow> parse_digits 10 0 ds = Some a \<Longrightarrow>
    take_frac (CHR ''.'' # c # cs) = Some (a * 10 ^ (9 - length ds), drop (length ds) (c # cs))"
  unfolding take_frac_def list.case list.sel by (simp add: Let_def)

lemma take_frac_format:
  assumes "ns < 10 ^ 9" "s \<noteq> []" "\<not> is_digit (hd s)" "hd s \<noteq> CHR ''.''" "hd s \<noteq> CHR '',''"
  shows "take_frac (format_frac ns @ s) = Some (ns, s)"
proof (cases "ns = 0")
  case True
  obtain c cs where "s = c # cs" "c \<noteq> CHR ''.''" "c \<noteq> CHR '',''" using assms(2,4,5) by (cases s) auto
  with True show ?thesis by (simp add: format_frac_def take_frac_none)
next
  case False
  define x where "x = rev (dropWhile (\<lambda>c. c = CHR ''0'') (rev (pad 9 ns)))"
  obtain k where x: "pad 9 ns = x @ replicate k (CHR ''0'')"
    using strip_zeros [of "pad 9 ns" "CHR ''0''"] unfolding x_def by (elim exE)
  have dig: "\<forall>c \<in> set x. is_digit c"
    using is_digit_pad [of _ 9 ns] by (simp add: x)
  obtain a where a: "parse_digits 10 0 x = Some a" using parse_digits_some [OF dig, of 0] by (elim exE)
  have "Some (a * 10 ^ k) = parse_digits 10 0 (pad 9 ns)"
    using parse_append_zeros [OF a, of k] by (simp only: x)
  then have ns: "ns = a * 10 ^ k" by (simp only: parse_pad option.inject)
  have "length (pad 9 ns) = 9" using assms(1) by (simp del: power_numeral)
  then have len: "length x + k = 9" by (simp add: x)
  have "x \<noteq> []" using a ns False by auto
  then obtain c cs where c: "x = c # cs" by (cases x) simp_all
  then have tw: "takeWhile is_digit (c # cs @ s) = c # cs"
    using dig assms(2,3) takeWhile_append2 [of x is_digit s] by (cases s) auto
  have "take_frac (CHR ''.'' # c # cs @ s) = Some (a * 10 ^ (9 - length (c # cs)), drop (length (c # cs)) (c # cs @ s))"
    using dig a len c by (intro take_frac_some [OF _ tw]) auto
  moreover have "9 - length (c # cs) = k" using len c by simp
  moreover have "format_frac ns = CHR ''.'' # c # cs"
    using False c unfolding format_frac_def x_def by simp
  ultimately show ?thesis using ns by simp
qed

lemma take_zone_format:
  assumes "\<bar>off\<bar> \<le> 1440" shows "take_zone (format_zone off) = Some (off, [])"
proof (cases "off = 0")
  case True
  then show ?thesis by (simp add: format_zone_def take_zone_def)
next
  case False
  define h mm where hm: "h = \<bar>off\<bar> div 60" "mm = \<bar>off\<bar> mod 60"
  have b: "0 \<le> h" "h \<le> 24" "0 \<le> mm" "mm < 60" "h * 60 + mm = \<bar>off\<bar>" using assms by (auto simp: hm)
  have "format_zone off = (if off < 0 then ''-'' else ''+'') @ pad 2 (nat h) @ '':'' @ pad 2 (nat mm)"
    using False by (simp add: format_zone_def hm)
  then show ?thesis
    using b False take_num_pad [of "nat mm" 2 "[]"] by (auto simp: take_zone_def)
qed

lemma zone_hd: "format_zone off \<noteq> [] \<and> \<not> is_digit (hd (format_zone off)) \<and>
    hd (format_zone off) \<noteq> CHR ''.'' \<and> hd (format_zone off) \<noteq> CHR '',''"
proof -
  have "\<not> is_digit (CHR ''Z'')" "\<not> is_digit (CHR ''+'')" "\<not> is_digit (CHR ''-'')" by code_simp+
  then show ?thesis by (simp add: format_zone_def)
qed

text \<open>Times in the years 0 to 9999, which four digits can hold.\<close>

definition year_ok :: "int \<Rightarrow> gotime \<Rightarrow> bool" where
  "year_ok off t \<longleftrightarrow> (let y = fst (civil ((t div second + off * 60) div 86400)) in 0 \<le> y \<and> y \<le> 9999)"

lemma parse_RFC3339_parts:
  assumes "y < 10000" "1 \<le> m" "m \<le> 12" "1 \<le> d" "int d \<le> daysIn (int m) (int y)"
    and "hh < 24" "mi < 60" "ss < 60" "take_frac r = Some (ns, r')" "take_zone r' = Some (off, [])"
  shows "parse_RFC3339 (pad 4 y @ ''-'' @ pad 2 m @ ''-'' @ pad 2 d @ ''T'' @ pad 2 hh @ '':'' @ pad 2 mi
      @ '':'' @ pad 2 ss @ r) =
    Some ((days_of (int y) (int m) (int d) * 86400 + int hh * 3600 + int mi * 60 + int ss - off * 60)
      * second + int ns)"
proof -
  have "d < 100" using assms(2,3,5) daysIn_le [of "int m" "int y"] by simp
  then have "\<And>s. take_num 4 (pad 4 y @ s) = Some (y, s)" "\<And>s. take_num 2 (pad 2 m @ s) = Some (m, s)"
    "\<And>s. take_num 2 (pad 2 d @ s) = Some (d, s)" "\<And>s. take_num 2 (pad 2 mi @ s) = Some (mi, s)"
    "\<And>s. take_num 2 (pad 2 ss @ s) = Some (ss, s)" "\<And>s. take_hour (pad 2 hh @ s) = Some (hh, s)"
    using assms(1-8) take_hour_pad by auto
  then show ?thesis
    unfolding parse_RFC3339_def append_Cons append_Nil
    by (simp only: bind.bind_lunit take_char_Cons prod.case if_True refl assms(9,10))
      (use assms(1-8) in simp)
qed

lemma clock_sum:
  fixes sod :: int
  shows "sod div 3600 * 3600 + sod div 60 mod 60 * 60 + sod mod 60 = sod"
proof -
  have "sod div 3600 = sod div 60 div 60" using zdiv_zmult2_eq [of 60 sod 60] by simp
  then show ?thesis using div_mult_mod_eq [of sod 60] div_mult_mod_eq [of "sod div 60" 60] by linarith
qed

lemma parse_parts:
  assumes "year_ok off t" "\<bar>off\<bar> \<le> 1440" "ns < 10 ^ 9"
  shows "parse_RFC3339
    (let secs = t div second + off * 60
     in format_date ''-'' (secs div 86400) @ ''T'' @ format_clock '':'' (secs mod 86400)
        @ format_frac ns @ format_zone off) = Some (t div second * second + int ns)"
proof -
  let ?secs = "t div second + off * 60"
  obtain y m d where c: "civil (?secs div 86400) = (y, m, d)" by (metis prod_cases3)
  note cs = civil_spec [OF c]
  define sod where "sod = ?secs mod 86400"
  define hh mi ss where hms: "hh = nat (sod div 3600)" "mi = nat (sod div 60 mod 60)" "ss = nat (sod mod 60)"
  have sod: "0 \<le> sod" "sod < 86400" by (simp_all add: sod_def)
  have hmi: "int hh = sod div 3600" "int mi = sod div 60 mod 60" "int ss = sod mod 60"
    using sod(1) by (simp_all add: hms pos_imp_zdiv_nonneg_iff)
  have lt: "hh < 24" "mi < 60" "ss < 60"
    using sod hmi pos_mod_bound [of 60 "sod div 60"] pos_mod_bound [of 60 sod] by linarith+
  have ymd: "int (nat y) = y" "int (nat m) = m" "int (nat d) = d" "nat y < 10000"
    using assms(1) c cs by (auto simp: year_ok_def Let_def)
  have "take_frac (format_frac ns @ format_zone off) = Some (ns, format_zone off)"
    by (rule take_frac_format) (use assms(3) zone_hd in auto)
  then have "parse_RFC3339 (pad 4 (nat y) @ ''-'' @ pad 2 (nat m) @ ''-'' @ pad 2 (nat d) @ ''T'' @ pad 2 hh
      @ '':'' @ pad 2 mi @ '':'' @ pad 2 ss @ format_frac ns @ format_zone off) =
    Some ((days_of y m d * 86400 + int hh * 3600 + int mi * 60 + int ss - off * 60) * second + int ns)"
    using parse_RFC3339_parts [of "nat y" "nat m" "nat d" hh mi ss _ ns] take_zone_format [OF assms(2)] cs ymd lt
    by simp
  moreover have "days_of y m d * 86400 + int hh * 3600 + int mi * 60 + int ss - off * 60 = t div second"
    using clock_sum [of sod] cs(1) div_mult_mod_eq [of ?secs 86400] unfolding hmi sod_def by linarith
  ultimately show ?thesis
    by (simp add: format_date_def c format_clock_def flip: sod_def hms)
qed

lemma parse_format_RFC3339:
  "year_ok off t \<Longrightarrow> \<bar>off\<bar> \<le> 1440 \<Longrightarrow> parse_RFC3339 (format_RFC3339 off t) = Some (t - t mod second)"
  using parse_parts [of off t 0]
  by (simp add: format_RFC3339_def format_frac_def Let_def minus_mod_eq_div_mult)

lemma parse_format_RFC3339Nano:
  "year_ok off t \<Longrightarrow> \<bar>off\<bar> \<le> 1440 \<Longrightarrow> parse_RFC3339 (format_RFC3339Nano off t) = Some t"
  using parse_parts [of off t "nat (t mod second)"]
  by (simp add: format_RFC3339Nano_def Let_def)

end
