(* ===== verification/Go_Path.thy ===== *)
theory Go_Path
  imports Go_Prelude
begin

text \<open>
  Slash-separated paths: the functions of Go's \<^verbatim>\<open>path\<close> package the gateway uses, the path
  translation of \<^verbatim>\<open>src/internal/posix/path.go\<close> and the key of the lock table
  (\<^verbatim>\<open>Key\<close> of \<^verbatim>\<open>src/internal/lock/manager.go\<close>). \<open>comps\<close> gives the components of a path after
  cleaning; the lemmas relate every operation to them.
\<close>

section \<open>Splitting and joining\<close>

fun split_on :: "char \<Rightarrow> string \<Rightarrow> string list" where
  "split_on c [] = [[]]"
| "split_on c (x # xs) =
     (if x = c then [] # split_on c xs
      else (case split_on c xs of [] \<Rightarrow> [[x]] | w # ws \<Rightarrow> (x # w) # ws))"

fun join_on :: "char \<Rightarrow> string list \<Rightarrow> string" where
  "join_on c [] = []"
| "join_on c [w] = w"
| "join_on c (w # ws) = w @ c # join_on c ws"

lemma split_on_not_Nil [simp]: "split_on c s \<noteq> []"
  by (induction s) (auto split: list.splits)

lemma join_split_on: "join_on c (split_on c s) = s"
proof (induction s)
  case (Cons x s)
  obtain w ws where "split_on c s = w # ws" by (metis list.exhaust split_on_not_Nil)
  with Cons show ?case by (cases ws) auto
qed simp

lemma split_on_free: "w \<in> set (split_on c s) \<Longrightarrow> c \<notin> set w"
  by (induction s arbitrary: w) (auto split: list.splits if_splits)

lemma split_on_id: "c \<notin> set w \<Longrightarrow> split_on c w = [w]"
  by (induction w) auto

lemma split_on_append: "c \<notin> set w \<Longrightarrow> split_on c (w @ c # s) = w # split_on c s"
  by (induction w) (auto split: list.splits)

lemma split_join_on:
  "ws \<noteq> [] \<Longrightarrow> (\<And>w. w \<in> set ws \<Longrightarrow> c \<notin> set w) \<Longrightarrow> split_on c (join_on c ws) = ws"
proof (induction c ws rule: join_on.induct)
  case (2 c w)
  then show ?case by (simp add: split_on_id)
next
  case (3 c w v va)
  have "split_on c (join_on c (v # va)) = v # va" using 3 by auto
  then show ?case using 3(3) by (simp add: split_on_append)
qed simp

lemma join_on_snoc: "ws \<noteq> [] \<Longrightarrow> join_on c (ws @ [w]) = join_on c ws @ c # w"
  by (induction c ws rule: join_on.induct) auto

lemma join_on_append: "us \<noteq> [] \<Longrightarrow> vs \<noteq> [] \<Longrightarrow> join_on c (us @ vs) = join_on c us @ c # join_on c vs"
proof (induction c us rule: join_on.induct)
  case (2 c w)
  then show ?case by (cases vs) auto
qed auto

lemma set_join_on: "set (join_on c ws) \<subseteq> insert c (\<Union>(set ` set ws))"
  by (induction c ws rule: join_on.induct) auto

section \<open>\<open>path.Clean\<close>\<close>

definition clean_step :: "bool \<Rightarrow> string \<Rightarrow> string list \<Rightarrow> string list" where
  "clean_step rooted c st =
     (if c = [] \<or> c = ''.'' then st
      else if c = ''..'' then
        (case st of
           t # ts \<Rightarrow> if t = ''..'' then c # st else ts
         | [] \<Rightarrow> if rooted then [] else [c])
      else c # st)"

definition clean_comps :: "bool \<Rightarrow> string list \<Rightarrow> string list" where
  "clean_comps rooted ws = rev (fold (clean_step rooted) ws [])"

definition rooted :: "string \<Rightarrow> bool" where
  "rooted p \<longleftrightarrow> p \<noteq> [] \<and> hd p = CHR ''/''"

definition comps :: "string \<Rightarrow> string list" where
  "comps p = clean_comps (rooted p) (split_on CHR ''/'' p)"

definition path_Clean :: "string \<Rightarrow> string" where
  "path_Clean p =
     (if rooted p then CHR ''/'' # join_on CHR ''/'' (comps p)
      else if comps p = [] then ''.'' else join_on CHR ''/'' (comps p))"

text \<open>\<^verbatim>\<open>path.Split\<close>, \<^verbatim>\<open>path.Dir\<close>, \<^verbatim>\<open>path.Base\<close> and \<^verbatim>\<open>path.Join\<close>.\<close>

definition path_Split :: "string \<Rightarrow> string \<times> string" where
  "path_Split p =
     (let file = rev (takeWhile (\<lambda>c. c \<noteq> CHR ''/'') (rev p)) in (take (length p - length file) p, file))"

definition path_Dir :: "string \<Rightarrow> string" where
  "path_Dir p = path_Clean (fst (path_Split p))"

definition path_Base :: "string \<Rightarrow> string" where
  "path_Base p =
     (if p = [] then ''.''
      else let q = rev (dropWhile (\<lambda>c. c = CHR ''/'') (rev p)); f = snd (path_Split q)
           in if f = [] then ''/'' else f)"

definition path_Join :: "string list \<Rightarrow> string" where
  "path_Join elems =
     (case filter (\<lambda>e. e \<noteq> []) elems of [] \<Rightarrow> [] | es \<Rightarrow> path_Clean (join_on CHR ''/'' es))"

section \<open>The translation of paths\<close>

record PathTranslator =
  pt_prefix :: string

definition NewPathTranslator :: "string \<Rightarrow> PathTranslator" where
  "NewPathTranslator pre =
     (let p = trim_prefix pre ''/''
      in \<lparr>pt_prefix = (if p \<noteq> [] \<and> \<not> has_suffix p ''/'' then p @ ''/'' else p)\<rparr>)"

definition ToObjectKey :: "PathTranslator \<Rightarrow> string \<Rightarrow> string" where
  "ToObjectKey t fsPath =
     (let p = trim_prefix (path_Clean fsPath) ''/''
      in if p = ''.'' \<or> p = [] then pt_prefix t else pt_prefix t @ p)"

definition ToFSPath :: "PathTranslator \<Rightarrow> string \<Rightarrow> string" where
  "ToFSPath t objectKey =
     (let k = (if pt_prefix t \<noteq> [] then trim_prefix objectKey (pt_prefix t) else objectKey)
      in path_Clean (if \<not> has_prefix k ''/'' then ''/'' @ k else k))"

definition IsDirectory :: "string \<Rightarrow> bool" where
  "IsDirectory p = has_suffix p ''/''"

definition ToDirectoryKey :: "string \<Rightarrow> string" where
  "ToDirectoryKey p = (if \<not> has_suffix p ''/'' then p @ ''/'' else p)"

definition ToFileKey :: "string \<Rightarrow> string" where
  "ToFileKey p = trim_suffix p ''/''"

definition GetParentPath :: "string \<Rightarrow> string" where
  "GetParentPath p =
     (if p = ''/'' \<or> p = [] then ''/''
      else let dir = path_Dir (trim_suffix p ''/'') in if dir = ''.'' then ''/'' else dir)"

definition GetBaseName :: "string \<Rightarrow> string" where
  "GetBaseName p = path_Base (trim_suffix p ''/'')"

definition JoinPath :: "string list \<Rightarrow> string" where
  "JoinPath components = path_Join components"

definition SplitPath :: "string \<Rightarrow> string \<times> string" where
  "SplitPath p = path_Split p"

definition NormalizePath :: "string \<Rightarrow> string" where
  "NormalizePath p = (let q = path_Clean p in if \<not> has_prefix q ''/'' then ''/'' @ q else q)"

definition IsValidPath :: "string \<Rightarrow> bool" where
  "IsValidPath p \<longleftrightarrow>
     p \<noteq> [] \<and> has_prefix p ''/'' \<and> \<not> sublist ''//'' p \<and> CHR 0x00 \<notin> set p"

definition GetDepth :: "string \<Rightarrow> nat" where
  "GetDepth p =
     (if p = ''/'' then 0
      else let q = rev (dropWhile (\<lambda>c. c = CHR ''/'') (rev (dropWhile (\<lambda>c. c = CHR ''/'') p)))
           in if q = [] then 0 else length (filter (\<lambda>c. c = CHR ''/'') q) + 1)"

definition IsDescendant :: "string \<Rightarrow> string \<Rightarrow> bool" where
  "IsDescendant parent child =
     (let p = NormalizePath parent; c = NormalizePath child;
          p' = (if \<not> has_suffix p ''/'' then p @ ''/'' else p)
      in has_prefix c p')"

definition ListPrefix :: "string \<Rightarrow> string" where
  "ListPrefix dirPath =
     (let d = trim_prefix (NormalizePath dirPath) ''/''
      in if d \<noteq> [] \<and> \<not> has_suffix d ''/'' then d @ ''/'' else d)"

text \<open>The key a path has in the lock table.\<close>

definition lock_Key :: "string \<Rightarrow> string" where
  "lock_Key p = trim_prefix (path_Clean (''/'' @ p)) ''/''"

section \<open>Clean paths\<close>

definition name_ok :: "string \<Rightarrow> bool" where
  "name_ok w \<longleftrightarrow> w \<noteq> [] \<and> w \<noteq> ''.'' \<and> w \<noteq> ''..'' \<and> CHR ''/'' \<notin> set w"

lemma clean_rooted_ok:
  assumes "\<And>w. w \<in> set ws \<Longrightarrow> CHR ''/'' \<notin> set w" "\<And>w. w \<in> set st \<Longrightarrow> name_ok w"
  shows "w \<in> set (fold (clean_step True) ws st) \<Longrightarrow> name_ok w"
  using assms
proof (induction ws arbitrary: st)
  case (Cons v ws)
  have "u \<in> set st \<or> name_ok u" if "u \<in> set (clean_step True v st)" for u
  proof -
    have "CHR ''/'' \<notin> set v" using Cons.prems(2) by simp
    moreover have "hd st \<noteq> ''..''" if "st \<noteq> []"
      using Cons.prems(3) [of "hd st"] that by (simp add: name_ok_def)
    ultimately show ?thesis using that
      by (cases st) (auto simp: clean_step_def name_ok_def split: if_splits)
  qed
  then show ?case using Cons.IH [of "clean_step True v st"] Cons.prems by auto
qed simp

lemma comps_ok: "rooted p \<Longrightarrow> w \<in> set (comps p) \<Longrightarrow> name_ok w"
  using clean_rooted_ok [of "split_on CHR ''/'' p" "[]"]
  by (simp add: comps_def clean_comps_def split_on_free)

lemma clean_comps_id:
  assumes "\<And>w. w \<in> set ws \<Longrightarrow> name_ok w"
  shows "fold (clean_step r) ws st = rev ws @ st"
  using assms by (induction ws arbitrary: st) (auto simp: clean_step_def name_ok_def)

lemma comps_join:
  assumes "\<And>w. w \<in> set ws \<Longrightarrow> name_ok w"
  shows "comps (CHR ''/'' # join_on CHR ''/'' ws) = ws"
proof (cases ws)
  case Nil
  then show ?thesis by (simp add: comps_def rooted_def clean_comps_def clean_step_def)
next
  case Cons
  then have "split_on CHR ''/'' (join_on CHR ''/'' ws) = ws"
    using assms by (intro split_join_on) (auto simp: name_ok_def)
  then have "split_on CHR ''/'' (CHR ''/'' # join_on CHR ''/'' ws) = [] # ws"
    by simp
  moreover have "fold (clean_step True) ([] # ws) [] = rev ws"
    using assms by (simp add: clean_comps_id clean_step_def)
  ultimately show ?thesis by (simp add: comps_def rooted_def clean_comps_def)
qed

lemma Clean_rooted: "rooted p \<Longrightarrow> path_Clean p = CHR ''/'' # join_on CHR ''/'' (comps p)"
  by (simp add: path_Clean_def)

lemma rooted_Cons [simp]: "rooted (CHR ''/'' # s)" "\<not> rooted []"
  by (simp_all add: rooted_def)

lemma comps_Clean [simp]: "rooted p \<Longrightarrow> comps (path_Clean p) = comps p"
  by (simp add: Clean_rooted comps_join comps_ok)

lemma Clean_Clean: "rooted p \<Longrightarrow> path_Clean (path_Clean p) = path_Clean p"
  by (simp add: Clean_rooted comps_join comps_ok)

lemma Clean_eq_iff: "rooted p \<Longrightarrow> rooted q \<Longrightarrow> path_Clean p = path_Clean q \<longleftrightarrow> comps p = comps q"
  by (metis Clean_rooted comps_Clean)

lemma join_ok_ends:
  assumes "ws \<noteq> []" and "\<And>w. w \<in> set ws \<Longrightarrow> name_ok w"
  shows "join_on CHR ''/'' ws \<noteq> []" "hd (join_on CHR ''/'' ws) \<noteq> CHR ''/''"
    "last (join_on CHR ''/'' ws) \<noteq> CHR ''/''"
proof -
  obtain w vs where ws: "ws = w # vs" using assms(1) by (metis list.exhaust)
  then have "w \<noteq> []" "CHR ''/'' \<notin> set w" using assms(2) [of w] by (auto simp: name_ok_def)
  moreover have "join_on CHR ''/'' ws = w @ (if vs = [] then [] else CHR ''/'' # join_on CHR ''/'' vs)"
    using ws by (cases vs) auto
  ultimately show "join_on CHR ''/'' ws \<noteq> []" "hd (join_on CHR ''/'' ws) \<noteq> CHR ''/''"
    by (auto simp: hd_append) (metis hd_in_set)
  obtain u vs' where ws': "ws = vs' @ [u]" using assms(1) by (metis rev_exhaust)
  then have "u \<noteq> []" "CHR ''/'' \<notin> set u" using assms(2) [of u] by (auto simp: name_ok_def)
  then show "last (join_on CHR ''/'' ws) \<noteq> CHR ''/''"
    using ws' by (cases "vs' = []") (auto simp: join_on_snoc dest!: last_in_set)
qed

lemma join_on_inj:
  assumes "\<And>w. w \<in> set us \<Longrightarrow> name_ok w" "\<And>w. w \<in> set vs \<Longrightarrow> name_ok w"
  shows "join_on CHR ''/'' us = join_on CHR ''/'' vs \<longleftrightarrow> us = vs"
  by (metis assms comps_join)

lemma trim_Clean: "rooted p \<Longrightarrow> trim_prefix (path_Clean p) ''/'' = join_on CHR ''/'' (comps p)"
  by (simp add: Clean_rooted trim_prefix_def)

lemma join_not_dot:
  assumes "\<And>w. w \<in> set ws \<Longrightarrow> name_ok w" shows "join_on CHR ''/'' ws \<noteq> ''.''"
proof
  assume "join_on CHR ''/'' ws = ''.''"
  then have "comps (CHR ''/'' # ''.'') = ws" using comps_join [OF assms] by metis
  moreover have "comps (CHR ''/'' # ''.'') = []"
    by (simp add: comps_def clean_comps_def clean_step_def rooted_def)
  ultimately show False using \<open>join_on CHR ''/'' ws = ''.''\<close> by simp
qed

lemma ToObjectKey_rooted: "rooted p \<Longrightarrow> ToObjectKey t p = pt_prefix t @ join_on CHR ''/'' (comps p)"
  using join_not_dot [of "comps p"] comps_ok by (auto simp: ToObjectKey_def trim_Clean Let_def)

lemma prefix_Cons_hd: "prefix [c] s \<longleftrightarrow> s \<noteq> [] \<and> hd s = c"
  by (cases s) auto

lemma suffix_single: "suffix [c] s \<longleftrightarrow> s \<noteq> [] \<and> last s = c"
  by (cases s rule: rev_cases) auto

lemma NormalizePath_rooted: "rooted p \<Longrightarrow> NormalizePath p = CHR ''/'' # join_on CHR ''/'' (comps p)"
  by (simp add: NormalizePath_def Clean_rooted Let_def prefix_Cons_hd)

text \<open>A path below another one has its components in front.\<close>

lemma join_prefix_iff:
  assumes "us \<noteq> []" "\<And>w. w \<in> set us \<Longrightarrow> name_ok w" "\<And>w. w \<in> set vs \<Longrightarrow> name_ok w"
  shows "prefix (join_on CHR ''/'' us @ ''/'') (join_on CHR ''/'' vs) \<longleftrightarrow> strict_prefix us vs"
proof
  assume "prefix (join_on CHR ''/'' us @ ''/'') (join_on CHR ''/'' vs)"
  then obtain s where s: "join_on CHR ''/'' vs = join_on CHR ''/'' us @ CHR ''/'' # s"
    by (auto simp: prefix_def)
  moreover have "vs \<noteq> []" using s by auto
  moreover have "split_on CHR ''/'' (join_on CHR ''/'' us @ CHR ''/'' # s) = us @ split_on CHR ''/'' s"
    using assms(1,2)
  proof (induction us rule: induct_list012)
    case (2 u)
    then show ?case by (simp add: split_on_append name_ok_def)
  next
    case (3 u v us)
    then have "split_on CHR ''/'' (join_on CHR ''/'' (v # us) @ CHR ''/'' # s) = (v # us) @ split_on CHR ''/'' s"
      by simp
    then show ?case using 3(4) [of u] by (simp add: split_on_append name_ok_def)
  qed simp
  moreover have "split_on CHR ''/'' (join_on CHR ''/'' vs) = vs"
    using assms(3) \<open>vs \<noteq> []\<close> by (intro split_join_on) (auto simp: name_ok_def)
  ultimately show "strict_prefix us vs" by (metis prefix_def prefix_order.dual_order.strict_iff_order self_append_conv split_on_not_Nil)
next
  assume "strict_prefix us vs"
  then obtain w ws where "vs = us @ w # ws" by (metis strict_prefixE')
  then show "prefix (join_on CHR ''/'' us @ ''/'') (join_on CHR ''/'' vs)"
    using assms(1) by (simp add: join_on_append)
qed

lemma join_suffix_slash:
  assumes "ws \<noteq> []" "\<And>w. w \<in> set ws \<Longrightarrow> name_ok w"
  shows "\<not> suffix ''/'' (CHR ''/'' # join_on CHR ''/'' ws)"
  using join_ok_ends [OF assms] by (simp add: suffix_single)

lemma ListPrefix_rooted:
  "rooted p \<Longrightarrow> ListPrefix p = (if comps p = [] then [] else join_on CHR ''/'' (comps p) @ ''/'')"
  using join_ok_ends [of "comps p"] comps_ok
  by (auto simp: ListPrefix_def NormalizePath_rooted trim_prefix_def Let_def suffix_single)

lemma lock_Key_comps: "lock_Key p = join_on CHR ''/'' (comps (''/'' @ p))"
  using trim_Clean [of "''/'' @ p"] by (simp add: lock_Key_def)

section \<open>Parents and names\<close>

lemma path_Split_join:
  assumes "CHR ''/'' \<notin> set w" shows "path_Split (s @ CHR ''/'' # w) = (s @ ''/'', w)"
proof -
  have "takeWhile (\<lambda>c. c \<noteq> CHR ''/'') (rev w @ CHR ''/'' # rev s) = rev w"
    using assms by (subst takeWhile_append2) auto
  then show ?thesis by (simp add: path_Split_def)
qed

lemma comps_slash_end: "comps (CHR ''/'' # s @ ''/'') = comps (CHR ''/'' # s)"
proof -
  have "split_on CHR ''/'' (s @ ''/'') = split_on CHR ''/'' s @ [[]]" for s
    by (induction s) (auto split: list.splits)
  then show ?thesis
    by (simp add: comps_def rooted_def clean_comps_def clean_step_def)
qed

lemma parent_and_base:
  assumes "rooted p" "path_Clean p = p" "comps p = ws @ [w]"
  shows "GetParentPath p = CHR ''/'' # join_on CHR ''/'' ws" "GetBaseName p = w"
proof -
  have ok: "\<And>v. v \<in> set (ws @ [w]) \<Longrightarrow> name_ok v" using comps_ok [OF assms(1)] assms(3) by simp
  then have w: "w \<noteq> []" "CHR ''/'' \<notin> set w" and wsok: "\<And>v. v \<in> set ws \<Longrightarrow> name_ok v"
    by (auto simp: name_ok_def)
  have p: "p = CHR ''/'' # join_on CHR ''/'' (ws @ [w])"
    using Clean_rooted [OF assms(1)] assms(2,3) by simp
  have s: "\<exists>s. p = s @ CHR ''/'' # w \<and> path_Clean (s @ ''/'') = CHR ''/'' # join_on CHR ''/'' ws"
  proof (cases "ws = []")
    case True
    then show ?thesis using p by (auto intro!: exI [of _ "[]"] simp: path_Clean_def comps_def clean_comps_def clean_step_def)
  next
    case False
    then show ?thesis
      using p wsok by (intro exI [of _ "CHR ''/'' # join_on CHR ''/'' ws"])
        (simp add: join_on_snoc Clean_rooted comps_slash_end [simplified] comps_join)
  qed
  then obtain s where s: "p = s @ CHR ''/'' # w" "path_Clean (s @ ''/'') = CHR ''/'' # join_on CHR ''/'' ws"
    by blast
  have nosuf: "\<not> suffix ''/'' p" using join_suffix_slash [of "ws @ [w]"] ok p by blast
  have split: "path_Split p = (s @ ''/'', w)" using path_Split_join [OF w(2), of s] s(1) by simp
  have "p \<noteq> ''/''" "p \<noteq> []" using s(1) w(1) by (auto simp: append_eq_Cons_conv)
  then show "GetParentPath p = CHR ''/'' # join_on CHR ''/'' ws"
    using nosuf s(2) split by (simp add: GetParentPath_def trim_suffix_def path_Dir_def Let_def)
  have "last p \<noteq> CHR ''/''" using s(1) w by (auto simp: last_append) (metis last_in_set)
  then have "dropWhile (\<lambda>c. c = CHR ''/'') (rev p) = rev p"
    using \<open>p \<noteq> []\<close> by (cases p rule: rev_cases) auto
  then show "GetBaseName p = w"
    using nosuf split w(1) \<open>p \<noteq> []\<close> by (simp add: GetBaseName_def trim_suffix_def path_Base_def Let_def)
qed

section \<open>Properties\<close>

text \<open>
  C20: file paths and object keys translate into each other. Whatever prefix the gateway is
  configured with, the key of an absolute path translates back to the cleaned path, so two
  absolute paths have the same key exactly when they clean to the same path; the key stays below the
  prefix, and none of its components is empty, \<^verbatim>\<open>.\<close> or \<^verbatim>\<open>..\<close>.
\<close>

theorem object_key_roundtrip:
  assumes "rooted p" and "rooted q"
  shows "ToFSPath (NewPathTranslator pre) (ToObjectKey (NewPathTranslator pre) p) = path_Clean p \<and>
    (ToObjectKey (NewPathTranslator pre) p = ToObjectKey (NewPathTranslator pre) q \<longleftrightarrow> path_Clean p = path_Clean q) \<and>
    (\<exists>ws. ToObjectKey (NewPathTranslator pre) p = pt_prefix (NewPathTranslator pre) @ join_on CHR ''/'' ws \<and>
       (\<forall>w \<in> set ws. name_ok w))"
proof -
  let ?t = "NewPathTranslator pre" and ?k = "join_on CHR ''/'' (comps p)"
  have ok: "\<And>w. w \<in> set (comps p) \<Longrightarrow> name_ok w" "\<And>w. w \<in> set (comps q) \<Longrightarrow> name_ok w"
    using assms by (simp_all add: comps_ok)
  have "\<not> has_prefix ?k ''/''"
    using join_ok_ends(2) [of "comps p"] ok by (cases "comps p = []") (auto simp: prefix_Cons_hd)
  then have "ToFSPath ?t (ToObjectKey ?t p) = path_Clean (CHR ''/'' # ?k)"
    using assms by (simp add: ToFSPath_def ToObjectKey_rooted Let_def)
  also have "\<dots> = path_Clean p"
    using ok assms by (simp add: Clean_rooted comps_join)
  finally have 1: "ToFSPath ?t (ToObjectKey ?t p) = path_Clean p" .
  have 2: "ToObjectKey ?t p = ToObjectKey ?t q \<longleftrightarrow> path_Clean p = path_Clean q"
    using ok assms by (simp add: ToObjectKey_rooted join_on_inj Clean_eq_iff)
  show ?thesis using 1 2 ok(1) assms(1) by (auto simp: ToObjectKey_rooted intro!: exI [of _ "comps p"])
qed

theorem object_key_roundtrip_witness:
  "ToObjectKey (NewPathTranslator ''/data'') ''/a/./b/../c'' = ''data/a/c'' \<and>
   ToFSPath (NewPathTranslator ''/data'') ''data/a/c'' = ''/a/c''"
proof -
  have *: "rooted ''/a/./b/../c''" "ToObjectKey (NewPathTranslator ''/data'') ''/a/./b/../c'' = ''data/a/c''"
    "path_Clean ''/a/./b/../c'' = ''/a/c''" by code_simp+
  with object_key_roundtrip [OF *(1,1), of "''/data''"] show ?thesis by simp
qed

text \<open>
  C30: the descendant test works on components, not on characters: for absolute paths, a child is below
  a parent other than the root exactly when the parent's components are a proper prefix of
  the child's; below the root is every path, the root included. Listing below a directory
  uses a prefix with the same property.
\<close>

theorem IsDescendant_components:
  assumes "rooted parent" and "rooted child"
  shows "(IsDescendant parent child \<longleftrightarrow> comps parent = [] \<or> strict_prefix (comps parent) (comps child)) \<and>
    (comps parent \<noteq> [] \<longrightarrow> (prefix (ListPrefix parent) (ToObjectKey (NewPathTranslator []) child) \<longleftrightarrow>
       IsDescendant parent child))"
proof -
  have ok: "\<And>w. w \<in> set (comps parent) \<Longrightarrow> name_ok w" "\<And>w. w \<in> set (comps child) \<Longrightarrow> name_ok w"
    using assms by (simp_all add: comps_ok)
  have "IsDescendant parent child \<longleftrightarrow> comps parent = [] \<or> strict_prefix (comps parent) (comps child)"
  proof (cases "comps parent = []")
    case True
    then show ?thesis
      using assms by (simp add: IsDescendant_def NormalizePath_rooted Let_def suffix_single)
  next
    case False
    then show ?thesis
      using assms join_suffix_slash [OF False ok(1)] join_prefix_iff [OF False ok]
      by (simp add: IsDescendant_def NormalizePath_rooted Let_def)
  qed
  moreover have "prefix (ListPrefix parent) (ToObjectKey (NewPathTranslator []) child) \<longleftrightarrow>
      strict_prefix (comps parent) (comps child)" if "comps parent \<noteq> []"
    using that assms join_prefix_iff [OF that ok]
    by (simp add: ListPrefix_rooted ToObjectKey_rooted NewPathTranslator_def trim_prefix_def)
  ultimately show ?thesis by blast
qed

theorem IsDescendant_components_witness:
  "rooted ''/a/b'' \<and> IsDescendant ''/a/b'' ''/a/b/c'' \<and> \<not> IsDescendant ''/a/b'' ''/a/bc''"
proof -
  have *: "rooted ''/a/b''" "rooted ''/a/b/c''" "rooted ''/a/bc''" "comps ''/a/b'' = [''a'', ''b'']"
    "comps ''/a/b/c'' = [''a'', ''b'', ''c'']" "comps ''/a/bc'' = [''a'', ''bc'']"
    by code_simp+
  then show ?thesis
    using IsDescendant_components [OF *(1,2)] IsDescendant_components [OF *(1,3)] by simp
qed

text \<open>
  C35: a clean absolute path is its parent joined with its name; the parent is clean again and the
  name is a single component.
\<close>

theorem parent_joins_base:
  assumes "rooted p" and "path_Clean p = p" and "p \<noteq> ''/''"
  shows "JoinPath [GetParentPath p, GetBaseName p] = p \<and> path_Clean (GetParentPath p) = GetParentPath p \<and>
    name_ok (GetBaseName p)"
proof -
  have "comps p \<noteq> []" using Clean_rooted [OF assms(1)] assms(2,3) by auto
  then obtain ws w where ws: "comps p = ws @ [w]" by (metis rev_exhaust)
  then have ok: "\<And>v. v \<in> set (ws @ [w]) \<Longrightarrow> name_ok v" using comps_ok [OF assms(1)] by simp
  then have ok': "\<And>v. v \<in> set ws \<Longrightarrow> name_ok v" and w: "w \<noteq> []" by (auto simp: name_ok_def)
  note pb = parent_and_base [OF assms(1,2) ws]
  have "JoinPath [GetParentPath p, GetBaseName p] = path_Clean ((CHR ''/'' # join_on CHR ''/'' ws) @ CHR ''/'' # w)"
    using w by (simp add: JoinPath_def path_Join_def pb)
  also have "\<dots> = p"
  proof -
    have "comps ((CHR ''/'' # join_on CHR ''/'' ws) @ CHR ''/'' # w) = ws @ [w]"
    proof (cases "ws = []")
      case True
      then have "split_on CHR ''/'' (''//'' @ w) = [[], [], w]" using ok by (simp add: split_on_id name_ok_def)
      then show ?thesis using True ok by (simp add: comps_def clean_comps_def clean_step_def name_ok_def)
    next
      case False
      then show ?thesis using comps_join [of "ws @ [w]"] ok by (simp add: join_on_snoc)
    qed
    then show ?thesis using Clean_rooted [OF assms(1)] assms(2) ws by (simp add: path_Clean_def)
  qed
  finally show ?thesis
    using pb ok ok' by (simp add: Clean_rooted comps_join)
qed

theorem parent_joins_base_witness:
  "GetParentPath ''/a/b'' = ''/a'' \<and> GetBaseName ''/a/b'' = ''b'' \<and> JoinPath [''/a'', ''b''] = ''/a/b''"
proof -
  have *: "rooted ''/a/b''" "path_Clean ''/a/b'' = ''/a/b''" "''/a/b'' \<noteq> ''/''"
    "GetParentPath ''/a/b'' = ''/a''" "GetBaseName ''/a/b'' = ''b''"
    by code_simp+
  with parent_joins_base [OF *(1,2,3)] show ?thesis by simp
qed

end
