(* ===== verification/Staging_Recovery.thy ===== *)
theory Staging_Recovery
  imports Staging_Manager Go_Text Go_Path
begin

text \<open>
  Starting the staging manager on what an earlier process left on disk, and the preservation of
  staged data that conflicts with a change in the bucket (\<^verbatim>\<open>NewStagingManager\<close>,
  \<^verbatim>\<open>RecoverFromDisk\<close>, \<^verbatim>\<open>recoverConflictsFromDisk\<close>, \<^verbatim>\<open>RecordConflict\<close> and \<^verbatim>\<open>DirtyPathsUnder\<close> of
  \<^verbatim>\<open>src/internal/staging/manager.go\<close>, \<^verbatim>\<open>recoverTombstonesFromDisk\<close> of
  \<^verbatim>\<open>src/internal/staging/tombstone.go\<close>). The staging root holds three directories of plain files;
  the names of the disk are full paths, and a directory lists the names below it.
\<close>

section \<open>Listing a directory\<close>

definition os_ReadDir :: "Disk \<Rightarrow> string \<Rightarrow> string list" where
  "os_ReadDir d dir =
     sort (remdups (map (\<lambda>p. drop (length dir + 1) p)
       (filter (\<lambda>p. has_prefix p (dir @ ''/'') \<and> CHR ''/'' \<notin> set (drop (length dir + 1) p))
         (gm_keys (dk_names d)))))"

section \<open>Tombstones\<close>

definition recover_tombstone :: "faults \<Rightarrow> string \<Rightarrow> nat \<times> StagingManager \<Rightarrow> nat \<times> StagingManager" where
  "recover_tombstone fl name = (\<lambda>(recovered, sm).
     if \<not> has_suffix name ''.tombstone.json'' then (recovered, sm)
     else let p = tombstoneDir sm @ ''/'' @ name
          in if os_lookup (sm_disk sm) p = None \<or> fl OpRead p then (recovered, sm)
             else (case os_lookup (sm_disk sm) p of
                     Some (DocFile (TombstoneDoc tomb) _) \<Rightarrow>
                       if ts_Path tomb = [] then (recovered, sm\<lparr>sm_disk := snd (os_Remove fl p (sm_disk sm))\<rparr>)
                       else let tomb' = (if ts_ObjectKey tomb = []
                                         then tomb\<lparr>ts_ObjectKey := objectKeyFromPath (ts_Path tomb)\<rparr> else tomb)
                            in (recovered + 1, sm\<lparr>sm_tombstones := gm_set (ts_Path tomb') tomb' (sm_tombstones sm)\<rparr>)
                   | _ \<Rightarrow> (recovered, sm\<lparr>sm_disk := snd (os_Remove fl p (sm_disk sm))\<rparr>)))"

definition recoverTombstonesFromDisk :: "faults \<Rightarrow> StagingManager \<Rightarrow> nat \<times> StagingManager" where
  "recoverTombstonesFromDisk fl sm =
     (if fl OpReadDir (tombstoneDir sm) then (0, sm)
      else fold (recover_tombstone fl) (os_ReadDir (sm_disk sm) (tombstoneDir sm)) (0, sm))"

section \<open>Conflicts\<close>

definition lostFoundDir :: "StagingManager \<Rightarrow> string" where
  "lostFoundDir sm = sm_stagingRoot sm @ ''/lost+found''"

definition recover_conflict :: "faults \<Rightarrow> string \<Rightarrow> nat \<times> StagingManager \<Rightarrow> nat \<times> StagingManager" where
  "recover_conflict fl name = (\<lambda>(recovered, sm).
     if \<not> has_suffix name ''.metadata.json'' then (recovered, sm)
     else let metadataPath = lostFoundDir sm @ ''/'' @ name
          in if fl OpRead metadataPath then (recovered, sm)
             else (case os_lookup (sm_disk sm) metadataPath of
                     Some (DocFile (ConflictDoc c) _) \<Rightarrow>
                       if cm_Path c = [] then (recovered, sm)
                       else
                         let c1 = (if cm_PreservedMetadataPath c = []
                                   then c\<lparr>cm_PreservedMetadataPath := metadataPath\<rparr> else c);
                             c2 = (if cm_PreservedPath c1 = []
                                   then c1\<lparr>cm_PreservedPath := trim_suffix metadataPath ''.metadata.json''\<rparr> else c1)
                         in if os_lookup (sm_disk sm) (cm_PreservedPath c2) = None
                            then (recovered, sm\<lparr>sm_disk := snd (os_Remove fl metadataPath (sm_disk sm))\<rparr>)
                            else if fl OpStat (cm_PreservedPath c2) then (recovered, sm)
                            else
                              let c3 = (if cm_ObjectKey c2 = []
                                        then c2\<lparr>cm_ObjectKey := objectKeyFromPath (cm_Path c2)\<rparr> else c2);
                                  c4 = (if cm_ConflictStatus c3 = []
                                        then c3\<lparr>cm_ConflictStatus := ConflictStatusConflicted\<rparr> else c3);
                                  c5 = (if cm_ObservedETag c4 = []
                                        then c4\<lparr>cm_ObservedETag := cm_ExternalETag c4,
                                                cm_ObservedSize := cm_ExternalSize c4,
                                                cm_ObservedLastModified := cm_ExternalLastModified c4\<rparr> else c4)
                              in (recovered + 1, upd_index (MarkConflicted (Some c5)) sm)
                   | _ \<Rightarrow> (recovered, sm)))"

definition recoverConflictsFromDisk :: "faults \<Rightarrow> StagingManager \<Rightarrow> nat \<times> StagingManager" where
  "recoverConflictsFromDisk fl sm =
     (if fl OpReadDir (lostFoundDir sm) then (0, sm)
      else fold (recover_conflict fl) (os_ReadDir (sm_disk sm) (lostFoundDir sm)) (0, sm))"

section \<open>Staged files\<close>

text \<open>
  One entry of the staging directory, up to the decision to recover it: \<^verbatim>\<open>None\<close> when the entry is passed
  over or dropped, else the path with the size and time of the staged file. The names that end in
  \<^verbatim>\<open>.data\<close> are the data files.
\<close>

definition admit_entry ::
  "faults \<Rightarrow> string \<Rightarrow> StagingManager \<Rightarrow> (PathMetadataState \<times> int \<times> gotime) option \<times> StagingManager" where
  "admit_entry fl name sm =
     (let filePath = activeDir sm @ ''/'' @ name; metadataPath = pathMetadataPath filePath
      in case data_inode (sm_disk sm) filePath of
           None \<Rightarrow> (None, sm)
         | Some i \<Rightarrow>
             if fl OpStat filePath then (None, sm)
             else let infoSize = int (length (dk_inodes (sm_disk sm) i)); modTime = dk_mtime (sm_disk sm) i
                  in case readPathMetadataState fl metadataPath (sm_disk sm) of
                       Inl _ \<Rightarrow> (None, sm)
                     | Inr state \<Rightarrow>
                         if ps_ConflictStatus state = ConflictStatusConflicted then (None, sm)
                         else if HasPendingDelete (ps_OriginalPath state) sm
                         then (None, snd (remove_name fl metadataPath (snd (remove_name fl filePath sm))))
                         else if ps_StagedFilePath state \<noteq> filePath
                         then (case writePathMetadataState fl metadataPath
                                      (Some (state\<lparr>ps_StagedFilePath := filePath\<rparr>)) (sm_disk sm) of
                                 (_, state', d) \<Rightarrow> (Some (the state', infoSize, modTime), sm\<lparr>sm_disk := d\<rparr>))
                         else (Some (state, infoSize, modTime), sm))"

definition recover_entry ::
  "faults \<Rightarrow> gotime \<Rightarrow> string \<Rightarrow> nat \<times> StagingManager \<Rightarrow> nat \<times> StagingManager" where
  "recover_entry fl now name = (\<lambda>(recovered, sm).
     if sublist ''.data.detach-'' name
     then (recovered, snd (remove_name fl (activeDir sm @ ''/'' @ name) sm))
     else if \<not> has_suffix name ''.data'' then (recovered, sm)
     else (case admit_entry fl name sm of
             (None, sm1) \<Rightarrow> (recovered, sm1)
           | (Some (state, infoSize, modTime), sm1) \<Rightarrow>
               (case RecoverSessionFromStaging fl now (ps_OriginalPath state) sm1 of
                  (Inl _, sm2) \<Rightarrow> (recovered, sm2)
                | (Inr sid, sm2) \<Rightarrow>
                    let sm3 = upd_session sid (\<lambda>ws. ws\<lparr>ws_Size := infoSize, ws_Dirty := True,
                                ws_LastWrite := modTime, ws_LastAccess := modTime\<rparr>) sm2
                    in (recovered + 1,
                        upd_index (RestoreDirty (dirtyMetadataFromPathState state infoSize modTime)) sm3))))"

definition remove_stale :: "faults \<Rightarrow> string \<Rightarrow> StagingManager \<Rightarrow> StagingManager" where
  "remove_stale fl name sm =
     (if \<not> has_suffix name ''.metadata'' then sm
      else let dataPath = activeDir sm @ ''/'' @ trim_suffix name ''.metadata''
           in if os_lookup (sm_disk sm) dataPath \<noteq> None \<or> fl OpStat dataPath then sm
              else snd (remove_name fl (activeDir sm @ ''/'' @ name) sm))"

definition RecoverFromDisk ::
  "faults \<Rightarrow> gotime \<Rightarrow> StagingManager \<Rightarrow> stg_error option \<times> StagingManager" where
  "RecoverFromDisk fl now sm =
     (let sm1 = snd (recoverTombstonesFromDisk fl sm); dir = activeDir sm1
      in if fl OpReadDir dir then (Some (EOs OpReadDir dir), sm1)
         else let entries = os_ReadDir (sm_disk sm1) dir;
                  (recovered, sm2) = fold (recover_entry fl now) entries (0, sm1);
                  sm3 = fold (remove_stale fl) entries sm2
              in (None, snd (recoverConflictsFromDisk fl sm3)))"

text \<open>A failed recovery is logged and the manager starts with what was recovered.\<close>

definition NewStagingManager ::
  "faults \<Rightarrow> gotime \<Rightarrow> (string \<Rightarrow> string) \<Rightarrow> string \<Rightarrow> StagingConfig \<Rightarrow> Disk \<Rightarrow> stg_error + StagingManager" where
  "NewStagingManager fl now hash rootDir cfg d =
     (if fl OpMkdirAll (rootDir @ ''/active'') then Inl (EOs OpMkdirAll (rootDir @ ''/active''))
      else if fl OpMkdirAll (rootDir @ ''/lost+found'') then Inl (EOs OpMkdirAll (rootDir @ ''/lost+found''))
      else Inr (snd (RecoverFromDisk fl now
             \<lparr>sm_config = normalizeBackpressureConfig cfg, sm_stagingRoot = rootDir, sm_hash = hash,
              sm_sessions = [], sm_heap = (\<lambda>_. undefined), sm_nextSession = 0,
              sm_dirtyIndex = NewDirtyFileIndex, sm_tombstones = [], sm_reservedBytes = 0,
              sm_renameTargets = [], sm_disk = d\<rparr>)))"

section \<open>Recording a conflict\<close>

record ExternalChangeSnapshot =
  ec_ObjectKey :: string
  ec_Size :: int
  ec_ETag :: string
  ec_LastModified :: gotime
  ec_Deleted :: bool
  ec_Reason :: string

text \<open>The layout \<^verbatim>\<open>20060102T150405.000000000Z\<close>, in UTC.\<close>

definition format_conflict_time :: "gotime \<Rightarrow> string" where
  "format_conflict_time t =
     (let secs = t div second
      in format_date [] (secs div 86400) @ ''T'' @ format_clock [] (secs mod 86400) @ ''.''
         @ pad 9 (nat (t mod second)) @ ''Z'')"

definition conflictFilePath :: "string \<Rightarrow> gotime \<Rightarrow> StagingManager \<Rightarrow> string" where
  "conflictFilePath path detectedAt sm =
     lostFoundDir sm @ ''/'' @ format_conflict_time detectedAt @ ''_'' @ take 16 (sm_hash sm path) @ ''.data''"

text \<open>\<^verbatim>\<open>copyFile\<close> creates its destination, which must not exist, and removes it again on an error.\<close>

definition copyFile :: "faults \<Rightarrow> gotime \<Rightarrow> string \<Rightarrow> string \<Rightarrow> Disk \<Rightarrow> stg_error option \<times> Disk" where
  "copyFile fl now dstPath srcPath d =
     (case data_inode d srcPath of
        None \<Rightarrow> (Some ENotExist, d)
      | Some i \<Rightarrow>
          if fl OpOpen srcPath then (Some (EOs OpOpen srcPath), d)
          else if os_lookup d dstPath \<noteq> None then (Some EExist, d)
          else (case os_OpenCreate fl now dstPath d of
                  (Inl e, d1) \<Rightarrow> (Some e, d1)
                | (Inr j, d1) \<Rightarrow>
                    if fl OpWrite dstPath
                    then (Some (EOs OpWrite dstPath), snd (os_Remove fl dstPath d1))
                    else let d2 = set_inode j (dk_inodes d i) now d1
                         in if fl OpSync dstPath
                            then (Some (EOs OpSync dstPath), snd (os_Remove fl dstPath d2))
                            else (None, d2)))"

definition conflict_record ::
  "string \<Rightarrow> ExternalChangeSnapshot \<Rightarrow> gotime \<Rightarrow> string \<Rightarrow> string \<Rightarrow> int \<Rightarrow> DirtyFileMetadata option
     \<Rightarrow> ConflictMetadata" where
  "conflict_record path change detectedAt preservedPath stagingPath sz dirty =
     (let c = \<lparr>cm_Path = path, cm_ObjectKey = ec_ObjectKey change, cm_Size = sz,
               cm_PreservedPath = preservedPath,
               cm_PreservedMetadataPath = preservedPath @ ''.metadata.json'',
               cm_DetectedAt = detectedAt,
               cm_Reason = (if ec_Reason change = [] then ''external_object_change'' else ec_Reason change),
               cm_LocalDirtyGeneration = 0, cm_StagedPath = stagingPath,
               cm_ConflictStatus = ConflictStatusConflicted, cm_ObservedETag = ec_ETag change,
               cm_ObservedSize = ec_Size change, cm_ObservedLastModified = ec_LastModified change,
               cm_ExternalSize = ec_Size change, cm_ExternalETag = ec_ETag change,
               cm_ExternalLastModified = ec_LastModified change, cm_ExternalDeleted = ec_Deleted change\<rparr>
      in case dirty of
           None \<Rightarrow> c
         | Some m \<Rightarrow>
             let c1 = c\<lparr>cm_LocalDirtyGeneration := dm_LocalDirtyGeneration m\<rparr>;
                 c2 = (if cm_ObjectKey c1 = [] then c1\<lparr>cm_ObjectKey := dm_ObjectKey m\<rparr> else c1)
             in if cm_ObservedETag c2 = []
                then c2\<lparr>cm_ObservedETag := dm_ObservedETag m, cm_ObservedSize := dm_ObservedSize m,
                        cm_ObservedLastModified := dm_ObservedLastModified m\<rparr>
                else c2)"

text \<open>The part that drops the staged original once its copy and the record are on disk.\<close>

definition drop_conflicted ::
  "faults \<Rightarrow> string \<Rightarrow> string \<Rightarrow> nat option \<Rightarrow> ConflictMetadata \<Rightarrow> StagingManager
     \<Rightarrow> (stg_error + ConflictMetadata option) \<times> StagingManager" where
  "drop_conflicted fl path stagingPath session conflict sm =
     (let (session', sm1) = (case sessionAt path sm of
              Some cur \<Rightarrow> (Some cur, sm\<lparr>sm_sessions := gm_del path (sm_sessions sm)\<rparr>)
            | None \<Rightarrow> (session, sm));
          sm2 = (case session' of
              None \<Rightarrow> sm1
            | Some sid \<Rightarrow> upd_session sid (\<lambda>ws. snd (WriteSession_Close fl (ws\<lparr>ws_Dirty := False\<rparr>))) sm1)
      in case remove_name fl stagingPath sm2 of
           (Some e, sm3) \<Rightarrow> (Inl e, sm3)
         | (None, sm3) \<Rightarrow>
             (case remove_name fl (stagingPath @ ''.metadata'') sm3 of
                (Some e, sm4) \<Rightarrow> (Inl e, sm4)
              | (None, sm4) \<Rightarrow> (Inr (Some conflict), upd_index (MarkConflicted (Some conflict)) sm4)))"

definition RecordConflict ::
  "faults \<Rightarrow> gotime \<Rightarrow> (session_state \<Rightarrow> session_state) list \<Rightarrow> string \<Rightarrow> ExternalChangeSnapshot \<Rightarrow> StagingManager
     \<Rightarrow> (stg_error + ConflictMetadata option) \<times> StagingManager" where
  "RecordConflict fl now rounds path change sm =
     (if \<not> IsDirty path (sm_dirtyIndex sm) then (Inr None, sm)
      else
        let session = sessionAt path sm;
            (err, sm1) = (case session of
                None \<Rightarrow> (None, sm) | Some sid \<Rightarrow> run_session sid (WriteSession_Sync fl rounds) sm);
            stagingPath = (case session of
                None \<Rightarrow> stagingFilePath sm path | Some sid \<Rightarrow> fst (WriteSession_Snapshot (sm_heap sm1 sid)))
        in case err of
             Some e \<Rightarrow> (Inl e, sm1)
           | None \<Rightarrow>
               (case data_inode (sm_disk sm1) stagingPath of
                  None \<Rightarrow> (Inl ENotExist, sm1)
                | Some i \<Rightarrow>
                    if fl OpStat stagingPath then (Inl (EOs OpStat stagingPath), sm1)
                    else
                      let infoSize = int (length (dk_inodes (sm_disk sm1) i));
                          preservedPath = conflictFilePath path now sm1
                      in if fl OpMkdirAll (lostFoundDir sm1) then (Inl (EOs OpMkdirAll (lostFoundDir sm1)), sm1)
                         else (case copyFile fl now preservedPath stagingPath (sm_disk sm1) of
                                 (Some e, d2) \<Rightarrow> (Inl e, sm1\<lparr>sm_disk := d2\<rparr>)
                               | (None, d2) \<Rightarrow>
                                   let conflict = conflict_record path change now preservedPath stagingPath infoSize
                                         (GetMetadata path (sm_dirtyIndex sm1))
                                   in case writeSidecarFile fl (cm_PreservedMetadataPath conflict)
                                             (ConflictDoc conflict) True d2 of
                                        (Some e, d3) \<Rightarrow> (Inl e, sm1\<lparr>sm_disk := d3\<rparr>)
                                      | (None, d3) \<Rightarrow>
                                          (case syncDir fl (lostFoundDir sm1) of
                                             Some e \<Rightarrow> (Inl e, sm1\<lparr>sm_disk := d3\<rparr>)
                                           | None \<Rightarrow>
                                               drop_conflicted fl path stagingPath session conflict
                                                 (sm1\<lparr>sm_disk := d3\<rparr>)))))"

section \<open>Dirty paths below a directory\<close>

definition DirtyPathsUnder :: "string \<Rightarrow> StagingManager \<Rightarrow> string list" where
  "DirtyPathsUnder path0 sm =
     (let rooted_path = (\<lambda>p. let c = path_Clean p in if \<not> has_prefix c ''/'' then ''/'' @ c else c);
          path = rooted_path path0;
          pre = (if path \<noteq> ''/'' \<and> \<not> has_suffix path ''/'' then path @ ''/'' else path);
          dirty = map (\<lambda>m. rooted_path (dm_Path m)) (DirtyFileIndex_GetDirtyFiles (sm_dirtyIndex sm))
      in sort (filter (\<lambda>p. \<not> HasPendingDelete p sm \<and> (p = path \<or> path = ''/'' \<or> has_prefix p pre)) dirty))"

section \<open>Statistics\<close>

record StagingStats =
  st_total_sessions :: nat
  st_active_sessions :: nat
  st_dirty_files :: nat
  st_syncing_files :: nat
  st_pending_deletes :: nat
  st_conflict_count :: int
  st_conflicted_paths :: "string list"
  st_pressure :: PressureState
  st_last_conflict_time :: "gotime option"

definition StagingManager_Stats :: "pressure_obs \<Rightarrow> StagingManager \<Rightarrow> StagingStats" where
  "StagingManager_Stats ob sm =
     (case ConflictStats sm of
        (cnt, paths, lst) \<Rightarrow>
          \<lparr>st_total_sessions = length (sm_sessions sm),
           st_active_sessions = length (filter (\<lambda>(p, sid). ws_RefCount (sm_heap sm sid) > 0) (sm_sessions sm)),
           st_dirty_files = DirtyFileIndex_Count (sm_dirtyIndex sm),
           st_syncing_files = SyncingCount (sm_dirtyIndex sm),
           st_pending_deletes = PendingDeleteCount sm, st_conflict_count = cnt,
           st_conflicted_paths = paths,
           st_pressure = CurrentPressure (sm_config sm) ob,
           st_last_conflict_time = (if is_zero_time lst then None else Some lst)\<rparr>)"

end
