(* ===== verification/Staging_Rename.thy ===== *)
theory Staging_Rename
  imports Staging_Manager
begin

text \<open>
  Renaming a dirty staged file (\<^verbatim>\<open>src/internal/staging/rename.go\<close>, with the attribute lookups of
  \<^verbatim>\<open>attributes.go\<close>): the sidecar of the destination, the move of the bytes, the tombstone of
  the source and the re-keying of session and dirty entry, in the order of the code.
\<close>

section \<open>Operations\<close>

definition sessionAttributes :: "string \<Rightarrow> StagingManager \<Rightarrow> StagedAttributes option" where
  "sessionAttributes path sm =
     (case GetSession path sm of
        None \<Rightarrow> None
      | Some sid \<Rightarrow> (case stagedAttributes (sm_heap sm sid) of
          (attrs, _, isset) \<Rightarrow> if isset then Some attrs else None))"

definition renamedAttributes :: "faults \<Rightarrow> string \<Rightarrow> string \<Rightarrow> StagingManager \<Rightarrow> StagedAttributes option" where
  "renamedAttributes fl oldPath oldStaging sm =
     (case sessionAttributes oldPath sm of
        Some attrs \<Rightarrow> Some attrs
      | None \<Rightarrow> (case readPathMetadataState fl (pathMetadataPath oldStaging) (sm_disk sm) of
          Inr state \<Rightarrow> ps_Attributes state | Inl _ \<Rightarrow> None))"

definition dropEntryWithoutStagedBytes :: "faults \<Rightarrow> string \<Rightarrow> StagingManager \<Rightarrow> StagingManager" where
  "dropEntryWithoutStagedBytes fl path sm =
     snd (removePathMetadata fl path (upd_index (DropEntry path) sm))"

definition restorePathMetadata ::
  "faults \<Rightarrow> gotime \<Rightarrow> string \<Rightarrow> string \<Rightarrow> PathMetadataState option \<Rightarrow> StagingManager \<Rightarrow> StagingManager" where
  "restorePathMetadata fl now path metadataPath replaced sm =
     (let session = sessionAt path sm;
          (err, sm1) =
            (case replaced of
               Some state \<Rightarrow>
                 (case writePathMetadataState fl metadataPath (Some state) (sm_disk sm) of
                    (e, _, d) \<Rightarrow> (e, sm\<lparr>sm_disk := d\<rparr>))
             | None \<Rightarrow> remove_name fl metadataPath sm);
          sm2 = (if (replaced = None \<or> err \<noteq> None) \<and> IsDirty path (sm_dirtyIndex sm1)
                 then (case recordDirtyPathLocked fl now path (sessionAttributesIfSet (session_at path sm1)) sm1 of
                         (Inl _, sm') \<Rightarrow> upd_index (MarkUnrecorded path) sm'
                       | (Inr _, sm') \<Rightarrow> sm')
                 else sm1)
      in case session of None \<Rightarrow> sm2 | Some sid \<Rightarrow> upd_session sid metadataChanged sm2)"

text \<open>Moving the staged bytes, under the source session's lock when there is one.\<close>

definition move_staged ::
  "faults \<Rightarrow> string \<Rightarrow> string \<Rightarrow> string \<Rightarrow> StagingManager \<Rightarrow> stg_error option \<times> StagingManager" where
  "move_staged fl oldPath oldStaging newStaging sm =
     (case sessionAt oldPath sm of
        None \<Rightarrow> (case os_Rename fl oldStaging newStaging (sm_disk sm) of (e, d) \<Rightarrow> (e, sm\<lparr>sm_disk := d\<rparr>))
      | Some sid \<Rightarrow>
          run_session sid (moveStagingFile newStaging (os_Rename fl oldStaging newStaging)) sm)"

text \<open>Re-keying the sessions: the destination's is dropped, the source's takes the new name.\<close>

definition rekey_sessions :: "faults \<Rightarrow> string \<Rightarrow> string \<Rightarrow> string \<Rightarrow> StagingManager \<Rightarrow> StagingManager" where
  "rekey_sessions fl oldPath newPath newStaging sm =
     (let sm1 = (case sessionAt newPath sm of
                   None \<Rightarrow> sm
                 | Some dest \<Rightarrow>
                     upd_session dest (\<lambda>ws. snd (WriteSession_Close fl (ws\<lparr>ws_Dirty := False\<rparr>)))
                       (sm\<lparr>sm_sessions := gm_del newPath (sm_sessions sm)\<rparr>))
      in case sessionAt oldPath sm1 of
           None \<Rightarrow> sm1
         | Some sid \<Rightarrow>
             upd_session sid (WriteSession_Rekey newPath newStaging)
               (sm1\<lparr>sm_sessions := gm_set newPath sid (gm_del oldPath (sm_sessions sm1))\<rparr>))"

definition renamed_state ::
  "faults \<Rightarrow> gotime \<Rightarrow> string \<Rightarrow> string \<Rightarrow> StagingManager \<Rightarrow> PathMetadataState" where
  "renamed_state fl now oldPath newPath sm =
     (let oldStaging = stagingFilePath sm oldPath; newStaging = stagingFilePath sm newPath
      in zero_path_state
           \<lparr>ps_Version := pathMetadataVersion, ps_OriginalPath := newPath,
            ps_ObjectKey := objectKeyFromPath newPath, ps_StagedFilePath := newStaging,
            ps_ConflictStatus := ConflictStatusNone,
            ps_DirtySince :=
              (case GetMetadata oldPath (sm_dirtyIndex sm) of
                 Some meta \<Rightarrow> if \<not> is_zero_time (dm_DirtySince meta) then dm_DirtySince meta else now
               | None \<Rightarrow> now),
            ps_Attributes := renamedAttributes fl oldPath oldStaging sm,
            ps_Committed :=
              (case readPathMetadataState fl (pathMetadataPath oldStaging) (sm_disk sm) of
                 Inr old \<Rightarrow> ps_Committed old | Inl _ \<Rightarrow> False)\<rparr>)"

text \<open>The part of \<^verbatim>\<open>RenameStagedPath\<close> after the bytes have moved.\<close>

definition finish_rename ::
  "faults \<Rightarrow> gotime \<Rightarrow> string \<Rightarrow> string \<Rightarrow> StagingManager \<Rightarrow> StagingManager" where
  "finish_rename fl now oldPath newPath sm =
     (let newStaging = stagingFilePath sm newPath;
          sm1 = snd (addTombstone fl now oldPath sm);
          sm2 = snd (remove_name fl (pathMetadataPath (stagingFilePath sm oldPath)) sm1);
          sm3 = rekey_sessions fl oldPath newPath newStaging sm2
      in upd_index (DirtyFileIndex_Rekey now oldPath newPath newStaging) sm3)"

definition RenameStagedPath ::
  "faults \<Rightarrow> gotime \<Rightarrow> string \<Rightarrow> string \<Rightarrow> StagingManager \<Rightarrow> stg_error option \<times> StagingManager" where
  "RenameStagedPath fl now oldPath newPath sm =
     (if IsConflicted oldPath (sm_dirtyIndex sm) \<or> IsConflicted newPath (sm_dirtyIndex sm)
      then (Some EConflicted, sm)
      else
        let oldStaging = stagingFilePath sm oldPath;
            newStaging = stagingFilePath sm newPath;
            newSidecar = pathMetadataPath newStaging
        in if os_lookup (sm_disk sm) oldStaging = None
           then (Some ENotExist, dropEntryWithoutStagedBytes fl oldPath sm)
           else if fl OpStat oldStaging then (Some (EOs OpStat oldStaging), sm)
           else
             let sm1 = snd (CancelPendingDelete fl newPath (beginRenameOnto newPath sm));
                 state = renamed_state fl now oldPath newPath sm1;
                 sm2 = upd_index (Invalidate newPath) sm1;
                 replacedSidecar = (case readPathMetadataState fl newSidecar (sm_disk sm2) of
                     Inr r \<Rightarrow> Some r | Inl _ \<Rightarrow> None);
                 (err, sm3) =
                   (case writePathMetadataState fl newSidecar (Some state) (sm_disk sm2) of
                      (e, _, d) \<Rightarrow> (e, sm2\<lparr>sm_disk := d\<rparr>))
             in case err of
                  Some e \<Rightarrow> (Some (EPersist e), endRenameOnto newPath sm3)
                | None \<Rightarrow>
                    (case move_staged fl oldPath oldStaging newStaging sm3 of
                       (Some e, sm4) \<Rightarrow>
                         let sm5 = restorePathMetadata fl now newPath newSidecar replacedSidecar sm4;
                             sm6 = (if e = ENotExist then dropEntryWithoutStagedBytes fl oldPath sm5 else sm5)
                         in (Some e, endRenameOnto newPath sm6)
                     | (None, sm4) \<Rightarrow>
                         (None, endRenameOnto newPath (finish_rename fl now oldPath newPath sm4))))"

end
