(* ===== verification/Staging_Invariant.thy ===== *)
theory Staging_Invariant
  imports Staging_Recovery Staging_Rename Upload_Isolation
begin

text \<open>
  The invariant of the staging manager over every operation of it, with any of the system
  calls failing, and over restarts. What is in memory is backed by what is on disk: a
  dirty entry that is marked as recorded has a sidecar that names its path, and a pending
  delete has its tombstone; and the sessions are registered under their own path.
\<close>

section \<open>The names a path has on disk\<close>

abbreviation meta_name :: "StagingManager \<Rightarrow> string \<Rightarrow> string" where
  "meta_name sm p \<equiv> pathMetadataPath (stagingFilePath sm p)"

definition names_of :: "StagingManager \<Rightarrow> string \<Rightarrow> string set" where
  "names_of sm p = {stagingFilePath sm p, meta_name sm p, tmp_name (meta_name sm p),
     tombstoneFilePath sm p, tmp_name (tombstoneFilePath sm p)}"

definition lost_name :: "StagingManager \<Rightarrow> string \<Rightarrow> bool" where
  "lost_name sm f \<longleftrightarrow> prefix (lostFoundDir sm @ ''/'') f"

text \<open>What the code relies on of the hash: hexadecimal digits, 32 of them, no collision among the paths.\<close>

definition hash_ok :: "string set \<Rightarrow> (string \<Rightarrow> string) \<Rightarrow> bool" where
  "hash_ok P hash \<longleftrightarrow> inj_on hash P \<and>
     (\<forall>p \<in> P. length (hash p) = 32 \<and> set (hash p) \<subseteq> set ''0123456789abcdef'')"

definition same_names :: "StagingManager \<Rightarrow> StagingManager \<Rightarrow> bool" where
  "same_names sm sm' \<longleftrightarrow> sm_stagingRoot sm' = sm_stagingRoot sm \<and> sm_hash sm' = sm_hash sm"

lemma same_names_simps:
  assumes "same_names sm sm'"
  shows "activeDir sm' = activeDir sm" "stagingFilePath sm' = stagingFilePath sm"
    "tombstoneDir sm' = tombstoneDir sm" "tombstoneFilePath sm' = tombstoneFilePath sm"
    "names_of sm' = names_of sm" "lost_name sm' = lost_name sm"
  using assms by (auto simp: same_names_def activeDir_def stagingFilePath_def tombstoneDir_def
      tombstoneFilePath_def names_of_def lost_name_def lostFoundDir_def fun_eq_iff)

lemmas name_defs = stagingFilePath_def tombstoneFilePath_def activeDir_def tombstoneDir_def
  pathMetadataPath_def tmp_name_def lostFoundDir_def

lemma names_disjoint:
  assumes "hash_ok P (sm_hash sm)" "p \<in> P" "q \<in> P" "p \<noteq> q" "f \<in> names_of sm p"
  shows "f \<notin> names_of sm q"
proof -
  have "length (sm_hash sm p) = length (sm_hash sm q)" "sm_hash sm p \<noteq> sm_hash sm q"
    using assms(1-4) by (auto simp: hash_ok_def inj_on_def)
  then show ?thesis using assms(5) by (auto simp: names_of_def name_defs append_eq_append_conv)
qed

lemma names_distinct:
  "meta_name sm p \<noteq> stagingFilePath sm p" "meta_name sm p \<noteq> tombstoneFilePath sm p"
  "meta_name sm p \<noteq> tmp_name (meta_name sm p)" "meta_name sm p \<noteq> tmp_name (tombstoneFilePath sm p)"
  "tombstoneFilePath sm p \<noteq> stagingFilePath sm p" "tombstoneFilePath sm p \<noteq> tmp_name (meta_name sm p)"
  "tombstoneFilePath sm p \<noteq> tmp_name (tombstoneFilePath sm p)"
  "stagingFilePath sm p \<noteq> tmp_name (meta_name sm p)" "stagingFilePath sm p \<noteq> tmp_name (tombstoneFilePath sm p)"
  by (auto simp: name_defs)

lemma lost_not_name: "lost_name sm f \<Longrightarrow> f \<notin> names_of sm p"
  by (auto simp: lost_name_def names_of_def name_defs prefix_def)

section \<open>The invariant\<close>

definition side_path :: "Disk \<Rightarrow> string \<Rightarrow> string option" where
  "side_path d f = map_option (\<lambda>(s, b). ps_OriginalPath s) (sidecar_at d f)"

definition tomb_path :: "Disk \<Rightarrow> string \<Rightarrow> string option" where
  "tomb_path d f = (case os_lookup d f of Some (DocFile (TombstoneDoc t) _) \<Rightarrow> Some (ts_Path t) | _ \<Rightarrow> None)"

definition recd :: "StagingManager \<Rightarrow> string \<Rightarrow> bool" where
  "recd sm p \<longleftrightarrow> (\<exists>m. gm_get (di_dirty (sm_dirtyIndex sm)) p = Some m \<and> dm_recorded m)"

definition sessions_ok :: "string set \<Rightarrow> StagingManager \<Rightarrow> bool" where
  "sessions_ok P sm \<longleftrightarrow>
     (\<forall>p sid. sessionAt p sm = Some sid \<longrightarrow> p \<in> P \<and> sid < sm_nextSession sm \<and>
        ws_Path (sm_heap sm sid) = p \<and> ws_StagingPath (sm_heap sm sid) = stagingFilePath sm p) \<and>
     (\<forall>sid < sm_nextSession sm. \<exists>q \<in> P. ws_StagingPath (sm_heap sm sid) = stagingFilePath sm q)"

text \<open>\<open>X\<close> are paths whose entry is about to go, so that its sidecar may be gone already.\<close>

definition path_ok :: "string set \<Rightarrow> StagingManager \<Rightarrow> string \<Rightarrow> bool" where
  "path_ok X sm p \<longleftrightarrow>
     (recd sm p \<and> p \<notin> X \<longrightarrow> side_path (sm_disk sm) (meta_name sm p) = Some p) \<and>
     (\<forall>q. side_path (sm_disk sm) (meta_name sm p) = Some q \<longrightarrow> q = p) \<and>
     (gm_has (sm_tombstones sm) p \<longrightarrow> tomb_path (sm_disk sm) (tombstoneFilePath sm p) = Some p) \<and>
     (\<forall>q. tomb_path (sm_disk sm) (tombstoneFilePath sm p) = Some q \<longrightarrow> q = p)"

definition sm_inv :: "string set \<Rightarrow> string set \<Rightarrow> StagingManager \<Rightarrow> bool" where
  "sm_inv X P sm \<longleftrightarrow> hash_ok P (sm_hash sm) \<and> [] \<notin> P \<and> sessions_ok P sm \<and> (\<forall>p \<in> P. path_ok X sm p) \<and>
     (\<forall>f. os_lookup (sm_disk sm) f \<noteq> None \<longrightarrow> lost_name sm f \<or> (\<exists>p \<in> P. f \<in> names_of sm p))"

named_theorems inv

section \<open>Changes of single parts\<close>

lemma inv_disk:
  assumes "sm_inv X P sm" "p \<in> P"
    and "\<And>f. f \<notin> names_of sm p \<Longrightarrow> \<not> lost_name sm f \<Longrightarrow> os_lookup d f = os_lookup (sm_disk sm) f"
    and "side_path d (meta_name sm p) = Some p \<or> side_path d (meta_name sm p) = None \<and> (recd sm p \<longrightarrow> p \<in> X)"
    and "tomb_path d (tombstoneFilePath sm p) = Some p \<or>
      tomb_path d (tombstoneFilePath sm p) = None \<and> \<not> gm_has (sm_tombstones sm) p"
  shows "sm_inv X P (sm\<lparr>sm_disk := d\<rparr>)"
proof -
  let ?sm = "sm\<lparr>sm_disk := d\<rparr>"
  have n: "same_names sm ?sm" by (simp add: same_names_def)
  note ns = same_names_simps [OF n]
  have "path_ok X ?sm q" if "q \<in> P" for q
  proof (cases "q = p")
    case True
    then show ?thesis using assms(4,5) by (auto simp: path_ok_def recd_def ns)
  next
    case False
    then have "os_lookup d f = os_lookup (sm_disk sm) f" if "f \<in> names_of sm q" for f
      using that \<open>q \<in> P\<close> assms(1-3) names_disjoint [of P sm q p f] lost_not_name by (auto simp: sm_inv_def)
    then have "side_path d (meta_name sm q) = side_path (sm_disk sm) (meta_name sm q)"
      "tomb_path d (tombstoneFilePath sm q) = tomb_path (sm_disk sm) (tombstoneFilePath sm q)"
      by (auto simp: side_path_def sidecar_at_def tomb_path_def names_of_def)
    then show ?thesis using assms(1) \<open>q \<in> P\<close> by (simp add: sm_inv_def path_ok_def recd_def ns)
  qed
  moreover have "lost_name sm f \<or> (\<exists>p \<in> P. f \<in> names_of sm p)" if "os_lookup d f \<noteq> None" for f
    using that assms(1-3) by (metis sm_inv_def)
  moreover have "sessions_ok P ?sm"
    using assms(1) by (simp add: sm_inv_def sessions_ok_def sessionAt_def ns)
  ultimately show ?thesis using assms(1) by (simp add: sm_inv_def ns)
qed

lemma path_ok_cong:
  assumes "same_names sm sm'" "sm_disk sm' = sm_disk sm" "sm_tombstones sm' = sm_tombstones sm" "recd sm' p \<longrightarrow> recd sm p \<or> p \<in> X"
    and "path_ok X sm p"
  shows "path_ok X sm' p"
  using assms(2-) unfolding path_ok_def same_names_simps [OF assms(1)] by auto

text \<open>Parts the invariant does not look at.\<close>

lemma inv_fields [inv]:
  "sm_inv X P sm \<Longrightarrow> sm_inv X P (sm\<lparr>sm_reservedBytes := r\<rparr>)"
  "sm_inv X P sm \<Longrightarrow> sm_inv X P (sm\<lparr>sm_renameTargets := t\<rparr>)"
  by (simp_all add: sm_inv_def sessions_ok_def path_ok_def recd_def sessionAt_def names_of_def lost_name_def name_defs)

lemma inv_index:
  assumes "sm_inv X P sm"
    and "\<forall>q \<in> P. q \<notin> X \<and> (\<exists>m. gm_get (di_dirty di) q = Some m \<and> dm_recorded m) \<longrightarrow>
      recd sm q \<or> side_path (sm_disk sm) (meta_name sm q) = Some q"
  shows "sm_inv X P (sm\<lparr>sm_dirtyIndex := di\<rparr>)"
proof -
  let ?sm = "sm\<lparr>sm_dirtyIndex := di\<rparr>"
  have n: "same_names sm ?sm" by (simp add: same_names_def)
  have "path_ok X ?sm q" if "q \<in> P" for q
  proof -
    have "recd ?sm q \<and> q \<notin> X \<longrightarrow> side_path (sm_disk sm) (meta_name sm q) = Some q"
      using assms that by (auto simp: recd_def sm_inv_def path_ok_def)
    then show ?thesis using assms(1) that unfolding sm_inv_def path_ok_def same_names_simps [OF n] by simp
  qed
  then show ?thesis
    using assms(1) unfolding sm_inv_def sessions_ok_def sessionAt_def same_names_simps [OF n] by simp
qed

lemma inv_session [inv]:
  assumes "sm_inv X P sm" "\<And>ws. ws_Path (f ws) = ws_Path ws" "\<And>ws. ws_StagingPath (f ws) = ws_StagingPath ws"
  shows "sm_inv X P (upd_session sid f sm)"
proof -
  have n: "same_names sm (upd_session sid f sm)" by (simp add: same_names_def upd_session_def)
  show ?thesis
    using assms unfolding sm_inv_def sessions_ok_def sessionAt_def path_ok_def same_names_simps [OF n]
    by (auto simp: recd_def upd_session_def)
qed

lemma inv_sessions_del [inv]:
  assumes "sm_inv X P sm" shows "sm_inv X P (sm\<lparr>sm_sessions := gm_del p (sm_sessions sm)\<rparr>)"
proof -
  let ?sm = "sm\<lparr>sm_sessions := gm_del p (sm_sessions sm)\<rparr>"
  have n: "same_names sm ?sm" by (simp add: same_names_def)
  show ?thesis
    using assms unfolding sm_inv_def sessions_ok_def sessionAt_def path_ok_def same_names_simps [OF n]
    by (auto simp: recd_def)
qed

lemma inv_tombstones_del:
  assumes "sm_inv X P sm" shows "sm_inv X P (sm\<lparr>sm_tombstones := gm_del p (sm_tombstones sm)\<rparr>)"
proof -
  let ?sm = "sm\<lparr>sm_tombstones := gm_del p (sm_tombstones sm)\<rparr>"
  have n: "same_names sm ?sm" by (simp add: same_names_def)
  show ?thesis
    using assms unfolding sm_inv_def sessions_ok_def sessionAt_def path_ok_def same_names_simps [OF n]
    by (auto simp: recd_def)
qed

text \<open>The entries an index operation leaves, and whether they are recorded.\<close>

definition recs :: "DirtyFileIndex \<Rightarrow> string set" where
  "recs di = {p. \<exists>m. gm_get (di_dirty di) p = Some m \<and> dm_recorded m}"

lemma recd_recs: "recd sm p \<longleftrightarrow> p \<in> recs (sm_dirtyIndex sm)"
  by (simp add: recd_def recs_def)

lemma inv_upd_index:
  assumes "sm_inv X P sm"
    and "recs (f (sm_dirtyIndex sm)) \<subseteq> recs (sm_dirtyIndex sm) \<union> X \<union> {q. side_path (sm_disk sm) (meta_name sm q) = Some q}"
  shows "sm_inv X P (upd_index f sm)"
  unfolding upd_index_def using assms(2) by (intro inv_index [OF assms(1)]) (auto simp: recs_def recd_def)

lemma recs_simps [simp]:
  "recs (DirtyFileIndex_MarkClean p di) = recs di - {p}"
  "recs (DropEntry p di) = recs di - {p}"
  "recs (Invalidate p di) = recs di"
  "recs (MarkUnrecorded p di) = recs di - {p}"
  "recs (UnlockFile p di) = recs di"
  "recs (snd (LockFile p di)) = recs di"
  "recs (snd (MarkDirtyAgain now p sz di)) = recs di"
  "recs (IncrementSyncAttempts p e di) = recs di"
  by (auto simp: recs_def DirtyFileIndex_MarkClean_def DropEntry_def Invalidate_def MarkUnrecorded_def
      UnlockFile_def LockFile_def MarkDirtyAgain_def IncrementSyncAttempts_def nextGenerationLocked_def
      Let_def split: option.splits if_splits)

lemma recs_MarkDirtyWithState:
  "recs (MarkDirtyWithState now p sz st di) \<subseteq> (if st = None then recs di else insert p (recs di))"
  by (auto simp: recs_def MarkDirtyWithState_def applyPathStateToDirtyMetadata_def nextGenerationLocked_def
      Let_def split: option.splits if_splits)

lemma recs_RestoreDirty: "recs (RestoreDirty m di) \<subseteq> insert (dm_Path m) (recs di)"
  by (auto simp: recs_def RestoreDirty_def nextGenerationLocked_def Let_def split: if_splits)

lemma recs_MarkConflicted: "recs (MarkConflicted c di) \<subseteq> recs di"
  by (auto simp: recs_def MarkConflicted_def split: option.splits if_splits)

lemma recs_MarkCleanIfUnchanged: "recs (snd (MarkCleanIfUnchanged p g di)) \<subseteq> recs di"
  "fst (MarkCleanIfUnchanged p g di) = (b, True) \<Longrightarrow> p \<notin> recs (snd (MarkCleanIfUnchanged p g di))"
  by (auto simp: MarkCleanIfUnchanged_def Let_def split: option.splits if_splits)

lemma recs_Rekey: "recs (DirtyFileIndex_Rekey now old new st di) = insert new (recs di - {old})"
  by (auto simp: recs_def DirtyFileIndex_Rekey_def nextGenerationLocked_def Let_def split: option.splits if_splits)

section \<open>Sidecars and tombstones on disk\<close>

lemma side_path_cong: "os_lookup d' f = os_lookup d f \<Longrightarrow> side_path d' f = side_path d f"
  by (simp add: side_path_def sidecar_at_def)

lemma tomb_path_cong: "os_lookup d' f = os_lookup d f \<Longrightarrow> tomb_path d' f = tomb_path d f"
  by (simp add: tomb_path_def)

lemma path_okD:
  assumes "sm_inv X P sm" "p \<in> P"
  shows "side_path (sm_disk sm) (meta_name sm p) = Some p \<or>
      side_path (sm_disk sm) (meta_name sm p) = None \<and> (recd sm p \<longrightarrow> p \<in> X)"
    "tomb_path (sm_disk sm) (tombstoneFilePath sm p) = Some p \<or>
      tomb_path (sm_disk sm) (tombstoneFilePath sm p) = None \<and> \<not> gm_has (sm_tombstones sm) p"
  using assms by (cases "side_path (sm_disk sm) (meta_name sm p)";
      cases "tomb_path (sm_disk sm) (tombstoneFilePath sm p)"; force simp: sm_inv_def path_ok_def)+

text \<open>Changing the disk at the data file, at the sidecar, at the tombstone, and below \<^verbatim>\<open>lost+found\<close>.\<close>

lemma inv_disk_data:
  assumes "sm_inv X P sm" "p \<in> P"
    and "\<And>f. f \<noteq> stagingFilePath sm p \<Longrightarrow> \<not> lost_name sm f \<Longrightarrow> f \<noteq> tmp_name (meta_name sm p) \<Longrightarrow>
      os_lookup d f = os_lookup (sm_disk sm) f"
  shows "sm_inv X P (sm\<lparr>sm_disk := d\<rparr>)"
proof -
  have "os_lookup d f = os_lookup (sm_disk sm) f" if "f = meta_name sm p \<or> f = tombstoneFilePath sm p" for f
  proof -
    have "f \<in> names_of sm p" using that by (auto simp: names_of_def)
    then have "\<not> lost_name sm f" using lost_not_name by blast
    then show ?thesis using that assms(3) [of f] names_distinct [of sm p] by auto
  qed
  then show ?thesis
    using path_okD [OF assms(1,2)] assms(3)
    by (intro inv_disk [OF assms(1,2)])
      (auto simp: names_of_def side_path_cong [of d _ "sm_disk sm"] tomb_path_cong [of d _ "sm_disk sm"])
qed

lemma inv_disk_side:
  assumes "sm_inv X P sm" "p \<in> P"
    and "\<And>f. f \<noteq> meta_name sm p \<Longrightarrow> f \<noteq> tmp_name (meta_name sm p) \<Longrightarrow> f \<noteq> stagingFilePath sm p \<Longrightarrow>
      os_lookup d f = os_lookup (sm_disk sm) f"
    and "side_path d (meta_name sm p) = side_path (sm_disk sm) (meta_name sm p) \<or>
      side_path d (meta_name sm p) = Some p \<or> side_path d (meta_name sm p) = None \<and> (recd sm p \<longrightarrow> p \<in> X)"
  shows "sm_inv X P (sm\<lparr>sm_disk := d\<rparr>)"
proof -
  have "os_lookup d (tombstoneFilePath sm p) = os_lookup (sm_disk sm) (tombstoneFilePath sm p)"
    using assms(3) names_distinct by metis
  then show ?thesis
    using path_okD [OF assms(1,2)] assms(3,4)
    by (intro inv_disk [OF assms(1,2)]) (auto simp: names_of_def tomb_path_cong [of d _ "sm_disk sm"])
qed

lemma inv_disk_tomb:
  assumes "sm_inv X P sm" "p \<in> P"
    and "\<And>f. f \<noteq> tombstoneFilePath sm p \<Longrightarrow> f \<noteq> tmp_name (tombstoneFilePath sm p) \<Longrightarrow>
      os_lookup d f = os_lookup (sm_disk sm) f"
    and "tomb_path d (tombstoneFilePath sm p) = tomb_path (sm_disk sm) (tombstoneFilePath sm p) \<or>
      tomb_path d (tombstoneFilePath sm p) = Some p \<or>
      tomb_path d (tombstoneFilePath sm p) = None \<and> \<not> gm_has (sm_tombstones sm) p"
  shows "sm_inv X P (sm\<lparr>sm_disk := d\<rparr>)"
proof -
  have "os_lookup d (meta_name sm p) = os_lookup (sm_disk sm) (meta_name sm p)"
    using assms(3) names_distinct by metis
  then show ?thesis
    using path_okD [OF assms(1,2)] assms(3,4)
    by (intro inv_disk [OF assms(1,2)]) (auto simp: names_of_def side_path_cong [of d _ "sm_disk sm"])
qed

lemma inv_same_names:
  "sm_inv X P sm \<Longrightarrow> sm_disk sm' = sm_disk sm \<Longrightarrow> sm_dirtyIndex sm' = sm_dirtyIndex sm \<Longrightarrow>
   sm_tombstones sm' = sm_tombstones sm \<Longrightarrow> same_names sm sm' \<Longrightarrow> sessions_ok P sm' \<Longrightarrow> sm_inv X P sm'"
  unfolding sm_inv_def path_ok_def by (simp add: same_names_simps recd_def) (simp add: same_names_def)

lemma name_upds [simp]:
  "stagingFilePath (sm\<lparr>sm_disk := x1\<rparr>) = stagingFilePath sm"
  "stagingFilePath (sm\<lparr>sm_dirtyIndex := x2\<rparr>) = stagingFilePath sm"
  "stagingFilePath (sm\<lparr>sm_sessions := x3\<rparr>) = stagingFilePath sm"
  "stagingFilePath (sm\<lparr>sm_heap := x4\<rparr>) = stagingFilePath sm"
  "stagingFilePath (sm\<lparr>sm_nextSession := x5\<rparr>) = stagingFilePath sm"
  "stagingFilePath (sm\<lparr>sm_tombstones := x6\<rparr>) = stagingFilePath sm"
  "stagingFilePath (sm\<lparr>sm_reservedBytes := x7\<rparr>) = stagingFilePath sm"
  "stagingFilePath (sm\<lparr>sm_renameTargets := x8\<rparr>) = stagingFilePath sm"
  "stagingFilePath (upd_session sid g sm) = stagingFilePath sm"
  "stagingFilePath (upd_index h sm) = stagingFilePath sm"
  "tombstoneFilePath (sm\<lparr>sm_disk := x1\<rparr>) = tombstoneFilePath sm"
  "tombstoneFilePath (sm\<lparr>sm_dirtyIndex := x2\<rparr>) = tombstoneFilePath sm"
  "tombstoneFilePath (sm\<lparr>sm_sessions := x3\<rparr>) = tombstoneFilePath sm"
  "tombstoneFilePath (sm\<lparr>sm_heap := x4\<rparr>) = tombstoneFilePath sm"
  "tombstoneFilePath (sm\<lparr>sm_nextSession := x5\<rparr>) = tombstoneFilePath sm"
  "tombstoneFilePath (sm\<lparr>sm_tombstones := x6\<rparr>) = tombstoneFilePath sm"
  "tombstoneFilePath (sm\<lparr>sm_reservedBytes := x7\<rparr>) = tombstoneFilePath sm"
  "tombstoneFilePath (sm\<lparr>sm_renameTargets := x8\<rparr>) = tombstoneFilePath sm"
  "tombstoneFilePath (upd_session sid g sm) = tombstoneFilePath sm"
  "tombstoneFilePath (upd_index h sm) = tombstoneFilePath sm"
  "activeDir (sm\<lparr>sm_disk := x1\<rparr>) = activeDir sm"
  "activeDir (sm\<lparr>sm_dirtyIndex := x2\<rparr>) = activeDir sm"
  "activeDir (sm\<lparr>sm_sessions := x3\<rparr>) = activeDir sm"
  "activeDir (sm\<lparr>sm_heap := x4\<rparr>) = activeDir sm"
  "activeDir (sm\<lparr>sm_nextSession := x5\<rparr>) = activeDir sm"
  "activeDir (sm\<lparr>sm_tombstones := x6\<rparr>) = activeDir sm"
  "activeDir (sm\<lparr>sm_reservedBytes := x7\<rparr>) = activeDir sm"
  "activeDir (sm\<lparr>sm_renameTargets := x8\<rparr>) = activeDir sm"
  "activeDir (upd_session sid g sm) = activeDir sm"
  "activeDir (upd_index h sm) = activeDir sm"
  "tombstoneDir (sm\<lparr>sm_disk := x1\<rparr>) = tombstoneDir sm"
  "tombstoneDir (sm\<lparr>sm_dirtyIndex := x2\<rparr>) = tombstoneDir sm"
  "tombstoneDir (sm\<lparr>sm_sessions := x3\<rparr>) = tombstoneDir sm"
  "tombstoneDir (sm\<lparr>sm_heap := x4\<rparr>) = tombstoneDir sm"
  "tombstoneDir (sm\<lparr>sm_nextSession := x5\<rparr>) = tombstoneDir sm"
  "tombstoneDir (sm\<lparr>sm_tombstones := x6\<rparr>) = tombstoneDir sm"
  "tombstoneDir (sm\<lparr>sm_reservedBytes := x7\<rparr>) = tombstoneDir sm"
  "tombstoneDir (sm\<lparr>sm_renameTargets := x8\<rparr>) = tombstoneDir sm"
  "tombstoneDir (upd_session sid g sm) = tombstoneDir sm"
  "tombstoneDir (upd_index h sm) = tombstoneDir sm"
  "lostFoundDir (sm\<lparr>sm_disk := x1\<rparr>) = lostFoundDir sm"
  "lostFoundDir (sm\<lparr>sm_dirtyIndex := x2\<rparr>) = lostFoundDir sm"
  "lostFoundDir (sm\<lparr>sm_sessions := x3\<rparr>) = lostFoundDir sm"
  "lostFoundDir (sm\<lparr>sm_heap := x4\<rparr>) = lostFoundDir sm"
  "lostFoundDir (sm\<lparr>sm_nextSession := x5\<rparr>) = lostFoundDir sm"
  "lostFoundDir (sm\<lparr>sm_tombstones := x6\<rparr>) = lostFoundDir sm"
  "lostFoundDir (sm\<lparr>sm_reservedBytes := x7\<rparr>) = lostFoundDir sm"
  "lostFoundDir (sm\<lparr>sm_renameTargets := x8\<rparr>) = lostFoundDir sm"
  "lostFoundDir (upd_session sid g sm) = lostFoundDir sm"
  "lostFoundDir (upd_index h sm) = lostFoundDir sm"
  by (simp_all add: name_defs fun_eq_iff upd_session_def upd_index_def)

lemma field_upds [simp]:
  "sm_disk (upd_session sid g sm) = sm_disk sm" "sm_disk (upd_index h sm) = sm_disk sm"
  "sm_dirtyIndex (upd_session sid g sm) = sm_dirtyIndex sm" "sm_dirtyIndex (upd_index h sm) = h (sm_dirtyIndex sm)"
  "sm_sessions (upd_session sid g sm) = sm_sessions sm" "sm_sessions (upd_index h sm) = sm_sessions sm"
  "sm_tombstones (upd_session sid g sm) = sm_tombstones sm" "sm_tombstones (upd_index h sm) = sm_tombstones sm"
  "sm_nextSession (upd_session sid g sm) = sm_nextSession sm" "sm_nextSession (upd_index h sm) = sm_nextSession sm"
  "sm_heap (upd_index h sm) = sm_heap sm" "sm_hash (upd_session sid g sm) = sm_hash sm" "sm_hash (upd_index h sm) = sm_hash sm"
  by (simp_all add: upd_session_def upd_index_def)

lemma recd_upds [simp]:
  "recd (sm\<lparr>sm_disk := d\<rparr>) = recd sm" "recd (upd_session sid g sm) = recd sm"
  "recd (sm\<lparr>sm_sessions := x3\<rparr>) = recd sm" "recd (sm\<lparr>sm_tombstones := y\<rparr>) = recd sm"
  "recd (upd_index h sm) p \<longleftrightarrow> p \<in> recs (h (sm_dirtyIndex sm))"
  by (simp_all add: recd_def recs_def fun_eq_iff)

section \<open>Removing and writing names\<close>

lemma remove_name_disk:
  "remove_name fl f sm = (e, sm') \<Longrightarrow> sm' = sm\<lparr>sm_disk := snd (os_Remove fl f (sm_disk sm))\<rparr> \<and>
    (e = None \<longrightarrow> os_lookup (sm_disk sm') f = None)"
  by (auto simp: remove_name_def ignore_not_exist_def os_Remove_def split: if_splits) (simp add: os_lookup_def)

lemma remove_name_fields [simp]:
  "sm_dirtyIndex (snd (remove_name fl f sm)) = sm_dirtyIndex sm"
  "sm_sessions (snd (remove_name fl f sm)) = sm_sessions sm"
  "sm_heap (snd (remove_name fl f sm)) = sm_heap sm"
  "sm_tombstones (snd (remove_name fl f sm)) = sm_tombstones sm"
  "sm_nextSession (snd (remove_name fl f sm)) = sm_nextSession sm"
  "stagingFilePath (snd (remove_name fl f sm)) = stagingFilePath sm"
  "tombstoneFilePath (snd (remove_name fl f sm)) = tombstoneFilePath sm"
  "recd (snd (remove_name fl f sm)) = recd sm"
  by (simp_all add: remove_name_def split: prod.splits)

lemma inv_remove_data [inv]:
  assumes "sm_inv X P sm" "p \<in> P" shows "sm_inv X P (snd (remove_name fl (stagingFilePath sm p) sm))"
proof -
  have "snd (remove_name fl (stagingFilePath sm p) sm) =
      sm\<lparr>sm_disk := snd (os_Remove fl (stagingFilePath sm p) (sm_disk sm))\<rparr>"
    using remove_name_disk by (metis prod.collapse)
  then show ?thesis using inv_disk_data [OF assms] by (simp add: os_lookup_Remove)
qed

lemma inv_remove_side [inv]:
  assumes "sm_inv X P sm" "p \<in> P" "recd sm p \<longrightarrow> p \<in> X"
  shows "sm_inv X P (snd (remove_name fl (meta_name sm p) sm))"
proof -
  let ?d = "snd (os_Remove fl (meta_name sm p) (sm_disk sm))"
  have "snd (remove_name fl (meta_name sm p) sm) = sm\<lparr>sm_disk := ?d\<rparr>"
    using remove_name_disk by (metis prod.collapse)
  moreover have "os_lookup ?d (meta_name sm p) = os_lookup (sm_disk sm) (meta_name sm p) \<or>
      os_lookup ?d (meta_name sm p) = None"
    by (simp add: os_lookup_Remove)
  then have "side_path ?d (meta_name sm p) = side_path (sm_disk sm) (meta_name sm p) \<or>
      side_path ?d (meta_name sm p) = None"
    by (auto simp: side_path_def sidecar_at_def)
  ultimately show ?thesis using inv_disk_side [OF assms(1,2), of ?d] assms(3) by (auto simp: os_lookup_Remove)
qed

lemma write_side_path:
  assumes "writePathMetadataState fl f (Some s) d = (e, s', d')"
  shows "side_path d' f = (if e = None then Some (ps_OriginalPath s) else side_path d f)"
    "g \<noteq> f \<Longrightarrow> g \<noteq> tmp_name f \<Longrightarrow> os_lookup d' g = os_lookup d g"
  using sidecar_at_write [OF assms, of f] writePathMetadataState_lookup(1) [OF assms, of g]
  by (auto simp: side_path_def)

lemma inv_write_side:
  assumes "sm_inv X P sm" "p \<in> P" "ps_OriginalPath s = p"
    and "writePathMetadataState fl (meta_name sm p) (Some s) (sm_disk sm) = (e, s', d)"
  shows "sm_inv X P (sm\<lparr>sm_disk := d\<rparr>)"
  using write_side_path [OF assms(4)] assms(3) by (intro inv_disk_side [OF assms(1,2)]) auto

section \<open>Tombstones\<close>

lemma inv_addTombstone [inv]:
  assumes "sm_inv X P sm" "p \<in> P" shows "sm_inv X P (snd (addTombstone fl now p sm))"
proof -
  define t where "t = \<lparr>ts_Version = tombstoneVersion, ts_Path = p, ts_ObjectKey = objectKeyFromPath p, ts_CreatedAt = now\<rparr>"
  let ?f = "tombstoneFilePath sm p"
  obtain e d where w: "replace_doc fl ?f (TombstoneDoc t) False (sm_disk sm) = (e, d)" by (metis surj_pair)
  note l = replace_doc_lookup [OF w]
  have "tomb_path d ?f = (if e = None then Some p else tomb_path (sm_disk sm) ?f)"
    using l [of ?f] by (simp add: tomb_path_def t_def)
  then have i: "sm_inv X P (sm\<lparr>sm_disk := d\<rparr>)"
    using l by (intro inv_disk_tomb [OF assms]) auto
  show ?thesis
  proof (cases e)
    case None
    let ?sm = "sm\<lparr>sm_disk := d, sm_tombstones := gm_set p t (sm_tombstones sm)\<rparr>"
    have n: "same_names sm ?sm" by (simp add: same_names_def)
    have "path_ok X ?sm q" if "q \<in> P" for q
      using i that None \<open>tomb_path d ?f = _\<close>
      unfolding sm_inv_def path_ok_def by (auto simp: recd_def)
    then have "sm_inv X P ?sm"
      using i unfolding sm_inv_def sessions_ok_def sessionAt_def by (simp add: names_of_def lost_name_def)
    then show ?thesis
      using w None by (simp add: addTombstone_def writeTombstoneState_def t_def [symmetric])
  next
    case (Some a)
    then show ?thesis using w i by (simp add: addTombstone_def writeTombstoneState_def t_def [symmetric])
  qed
qed

lemma inv_remove_tomb:
  assumes "sm_inv X P sm" "p \<in> P" and "remove_name fl (tombstoneFilePath sm p) sm = (e, sm1)"
  shows "e = None \<Longrightarrow> sm_inv X P (sm1\<lparr>sm_tombstones := gm_del p (sm_tombstones sm1)\<rparr>)"
    "e \<noteq> None \<Longrightarrow> sm1 = sm"
proof -
  let ?f = "tombstoneFilePath sm p" and ?d = "snd (os_Remove fl (tombstoneFilePath sm p) (sm_disk sm))"
  have sm1: "sm1 = sm\<lparr>sm_disk := ?d\<rparr>" "e = None \<longrightarrow> os_lookup ?d ?f = None"
    using remove_name_disk [OF assms(3)] by auto
  show "sm1 = sm" if "e \<noteq> None"
  proof -
    have "?d = sm_disk sm" using assms(3) that
      by (auto simp: remove_name_def ignore_not_exist_def os_Remove_def split: if_splits)
    then show ?thesis using sm1 by simp
  qed
  assume "e = None"
  let ?sm = "sm\<lparr>sm_tombstones := gm_del p (sm_tombstones sm)\<rparr>"
  have "sm_inv X P ?sm" by (rule inv_tombstones_del [OF assms(1)])
  moreover have "tomb_path ?d ?f = None" using sm1(2) \<open>e = None\<close> by (simp add: tomb_path_def)
  ultimately have "sm_inv X P (?sm\<lparr>sm_disk := ?d\<rparr>)"
    using assms(2) by (intro inv_disk_tomb) (auto simp: os_lookup_Remove)
  moreover have "?sm\<lparr>sm_disk := ?d\<rparr> = sm1\<lparr>sm_tombstones := gm_del p (sm_tombstones sm1)\<rparr>"
    using sm1(1) by (cases sm) simp
  ultimately show "sm_inv X P (sm1\<lparr>sm_tombstones := gm_del p (sm_tombstones sm1)\<rparr>)" by simp
qed

lemma inv_pending_delete [inv]:
  assumes "sm_inv X P sm" "p \<in> P"
  shows "sm_inv X P (snd (CancelPendingDelete fl p sm))" "sm_inv X P (ResolvePendingDelete fl p sm)"
proof -
  obtain e sm1 where r: "remove_name fl (tombstoneFilePath sm p) sm = (e, sm1)" by (metis surj_pair)
  show "sm_inv X P (snd (CancelPendingDelete fl p sm))" "sm_inv X P (ResolvePendingDelete fl p sm)"
    using inv_remove_tomb [OF assms r] assms(1) r
    by (auto simp: CancelPendingDelete_def ResolvePendingDelete_def split: option.splits)
qed

section \<open>Operations of a session\<close>

definition disk_keeps :: "string \<Rightarrow> Disk \<Rightarrow> Disk \<Rightarrow> bool" where
  "disk_keeps g d d' \<longleftrightarrow>
     (\<forall>f. f \<noteq> g \<longrightarrow> f \<noteq> pathMetadataPath g \<longrightarrow> f \<noteq> tmp_name (pathMetadataPath g) \<longrightarrow> os_lookup d' f = os_lookup d f) \<and>
     side_path d' (pathMetadataPath g) = side_path d (pathMetadataPath g)"

definition op_keeps :: "session_state \<Rightarrow> session_state \<Rightarrow> bool" where
  "op_keeps st st' \<longleftrightarrow> ws_Path (fst st') = ws_Path (fst st) \<and> ws_StagingPath (fst st') = ws_StagingPath (fst st) \<and>
     disk_keeps (ws_StagingPath (fst st)) (snd st) (snd st')"

lemma op_keeps_refl [simp]: "op_keeps st st"
  by (simp add: op_keeps_def disk_keeps_def)

lemma op_keeps_trans: "op_keeps a b \<Longrightarrow> op_keeps b c \<Longrightarrow> op_keeps a c"
  by (simp add: op_keeps_def disk_keeps_def)

lemma inv_run_session:
  assumes "sm_inv X P sm" "sid < sm_nextSession sm" "\<And>ws d. op_keeps (ws, d) (snd (f (ws, d)))"
  shows "sm_inv X P (snd (run_session sid f sm))"
proof -
  obtain r ws d where f: "f (sm_heap sm sid, sm_disk sm) = (r, (ws, d))" by (metis surj_pair)
  obtain q where q: "q \<in> P" "ws_StagingPath (sm_heap sm sid) = stagingFilePath sm q"
    using assms(1,2) by (auto simp: sm_inv_def sessions_ok_def)
  have k: "ws_Path ws = ws_Path (sm_heap sm sid)" "ws_StagingPath ws = ws_StagingPath (sm_heap sm sid)"
    "disk_keeps (stagingFilePath sm q) (sm_disk sm) d"
    using assms(3) [of "sm_heap sm sid" "sm_disk sm"] f q(2) by (auto simp: op_keeps_def)
  have "sm_inv X P (sm\<lparr>sm_disk := d\<rparr>)"
    using k(3) by (intro inv_disk_side [OF assms(1) q(1)]) (auto simp: disk_keeps_def)
  moreover have "snd (run_session sid f sm) = (sm\<lparr>sm_disk := d\<rparr>)\<lparr>sm_heap := (sm_heap sm)(sid := ws)\<rparr>" (is "_ = ?sm")
    using f by (cases sm) (simp add: run_session_def)
  moreover have "sessions_ok P ?sm"
    using assms(1) k unfolding sm_inv_def sessions_ok_def sessionAt_def by auto
  moreover have "same_names (sm\<lparr>sm_disk := d\<rparr>) ?sm" by (simp add: same_names_def)
  ultimately show ?thesis by (simp add: inv_same_names)
qed

lemma run_session_fields [simp]:
  "sm_sessions (snd (run_session sid f sm)) = sm_sessions sm"
  "sm_dirtyIndex (snd (run_session sid f sm)) = sm_dirtyIndex sm"
  "sm_tombstones (snd (run_session sid f sm)) = sm_tombstones sm"
  "sm_nextSession (snd (run_session sid f sm)) = sm_nextSession sm"
  "stagingFilePath (snd (run_session sid f sm)) = stagingFilePath sm"
  "recd (snd (run_session sid f sm)) = recd sm"
  by (simp_all add: run_session_def recd_def fun_eq_iff split: prod.splits)

named_theorems keeps

lemma disk_keeps_data: "(\<And>f. f \<noteq> g \<Longrightarrow> os_lookup d' f = os_lookup d f) \<Longrightarrow> disk_keeps g d d'"
  using side_path_cong [of d' "pathMetadataPath g" d] by (simp add: disk_keeps_def pathMetadataPath_def)

lemma keeps_detach [keeps]: "op_keeps st (snd (detachFromUploadsLocked fl now k st))"
proof -
  have "disk_keeps p d (d\<lparr>dk_inodes := a, dk_mtime := b, dk_next := n, dk_names := gm_set p x (dk_names d)\<rparr>)"
    "disk_keeps p d (d\<lparr>dk_inodes := a, dk_mtime := b, dk_next := n\<rparr>)" for p d a b n x
    by (rule disk_keeps_data; simp add: os_lookup_def)+
  then show ?thesis
    by (cases st) (auto simp: detachFromUploadsLocked_def op_keeps_def Let_def set_inode_def disk_keeps_def
        intro: side_path_cong)
qed

lemma op_keeps_inode [keeps]:
  "ws_Path ws' = ws_Path ws \<Longrightarrow> ws_StagingPath ws' = ws_StagingPath ws \<Longrightarrow> op_keeps (ws, d) (ws', set_inode i bs now d)"
  "ws_Path ws' = ws_Path ws \<Longrightarrow> ws_StagingPath ws' = ws_StagingPath ws \<Longrightarrow> op_keeps (ws, d) (ws', d)"
  by (auto simp: op_keeps_def set_inode_def os_lookup_def intro!: disk_keeps_data)

lemma op_keeps_to:
  assumes "op_keeps st (ws, d)" "ws_Path ws' = ws_Path ws" "ws_StagingPath ws' = ws_StagingPath ws"
  shows "op_keeps st (ws', set_inode i bs now d)" "op_keeps st (ws', d)"
  using op_keeps_trans [OF assms(1) op_keeps_inode(1) [OF assms(2,3)]]
    op_keeps_trans [OF assms(1) op_keeps_inode(2) [OF assms(2,3)]] by simp_all

lemma keeps_write [keeps]: "op_keeps st (snd (write_locked fl k now data offset st))"
proof -
  obtain e ws d where det: "detachFromUploadsLocked fl now (ws_Size (fst st)) st = (e, (ws, d))" by (metis surj_pair)
  then have k: "op_keeps st (ws, d)" using keeps_detach [of st fl now "ws_Size (fst st)"] by simp
  show ?thesis
    unfolding write_locked_def det
    by (auto simp: Let_def split: option.splits intro!: op_keeps_to [OF k])
qed

lemma keeps_truncate [keeps]: "op_keeps st (snd (truncate_locked fl now sz st))"
proof -
  obtain e ws d where det: "detachFromUploadsLocked fl now (min sz (ws_Size (fst st))) st = (e, (ws, d))"
    by (metis surj_pair)
  then have k: "op_keeps st (ws, d)" using keeps_detach [of st fl now "min sz (ws_Size (fst st))"] by simp
  show ?thesis
    unfolding truncate_locked_def det
    by (auto simp: Let_def split: option.splits intro!: op_keeps_to [OF k])
qed

lemma keeps_persist [keeps]: "op_keeps st (persistAttributes fl st)"
proof -
  obtain ws d where st: "st = (ws, d)" by (cases st)
  let ?f = "pathMetadataPath (ws_StagingPath ws)"
  have "disk_keeps (ws_StagingPath ws) d d'"
    if "readPathMetadataState fl ?f d = Inr s" "writePathMetadataState fl ?f (Some (s\<lparr>ps_Attributes := a\<rparr>)) d = (e, s', d')"
    for s a e s' d'
    using that(1) write_side_path [OF that(2)] unfolding read_sidecar
    by (auto simp: disk_keeps_def side_path_def)
  then show ?thesis
    by (auto simp: st persistAttributes_def persistSessionAttributes_def stagedAttributes_def op_keeps_def
        metadataChanged_def disk_keeps_def Let_def split: sum.splits prod.splits option.splits)
qed

lemma keeps_update:
  assumes "\<And>ws. ws_Path (f ws) = ws_Path ws" "\<And>ws. ws_StagingPath (f ws) = ws_StagingPath ws"
  shows "op_keeps st (updateAttributes fl f st)"
  using op_keeps_trans [OF op_keeps_inode(2) keeps_persist, of "(f (fst st))\<lparr>ws_attributesSet := True\<rparr>" "fst st" "snd st" fl] assms
  by (cases st) (simp add: updateAttributes_def)

lemma keeps_attributes [keeps]:
  "op_keeps st (SetMode fl m st)" "op_keeps st (SetOwner fl u g st)" "op_keeps st (SetBirthTime fl b st)"
  "op_keeps st (SetWindowsAttributes fl w st)" "op_keeps st (SetStreams fl x st)" "op_keeps st (SetTimes fl t1 t2 st)"
  by (auto simp: SetMode_def SetOwner_def SetBirthTime_def SetWindowsAttributes_def SetStreams_def SetTimes_def
      Let_def intro!: keeps_update)

lemma keeps_seed [keeps]: "op_keeps st (SeedAttributes fl a st)" "op_keeps st (SetCreationIfUnset fl b m st)"
  by (auto simp: SeedAttributes_def SetCreationIfUnset_def setAttributesLocked_def Let_def split: prod.splits
      intro!: op_keeps_trans [OF op_keeps_inode(2) keeps_persist])

definition rounds_ok :: "(session_state \<Rightarrow> session_state) list \<Rightarrow> bool" where
  "rounds_ok rounds \<longleftrightarrow> (\<forall>f \<in> set rounds. \<forall>st. op_keeps st (f st))"

lemma keeps_flushThen:
  assumes "rounds_ok rounds" "\<forall>st. op_keeps st (snd (act st))" "flushThen fl rounds act st = (r, st')"
  shows "op_keeps st st'"
  using assms(1,3)
proof (induction rounds arbitrary: st)
  case Nil
  then show ?case using assms(2) [rule_format, of st]
    by (cases st) (auto simp: Let_def split: option.splits prod.splits if_splits)
next
  case (Cons f rounds)
  obtain ws d ws' d' where st: "st = (ws, d)" "f (ws, d) = (ws', d')" by (metis surj_pair)
  have f: "op_keeps (ws, d) (ws', d')" "rounds_ok rounds"
    using Cons(2) st(2) unfolding rounds_ok_def by (auto dest!: spec [of _ ws] spec [of _ d])
  have "op_keeps (ws, d) st'" if "flushThen fl rounds act (ws', d') = (r, st')"
    using Cons.IH [OF f(2) that] op_keeps_trans [OF f(1)] by blast
  moreover have "op_keeps (ws, d) (snd (act (ws', d')))"
    using assms(2) op_keeps_trans [OF f(1)] by blast
  ultimately show ?case using f(1) Cons(3) unfolding st(1)
    by (auto simp: Let_def st(2) split: option.splits prod.splits if_splits)
qed

lemma keeps_open [keeps]:
  assumes "rounds_ok rounds"
  shows "op_keeps st (snd (OpenUploadSnapshot fl rounds st))" "op_keeps st (snd (syncToDisk fl rounds st))"
    "op_keeps st (snd (WriteSession_Sync fl rounds st))"
  unfolding OpenUploadSnapshot_def syncToDisk_def WriteSession_Sync_def
  by (auto split: prod.splits option.splits elim!: keeps_flushThen [OF assms, rotated] simp: op_keeps_inode)

lemma keeps_read [keeps]: "op_keeps st (snd (WriteSession_Read fl now n off st))"
  by (cases st) (auto simp: WriteSession_Read_def Let_def op_keeps_inode split: option.splits)

lemma keeps_prefetch [keeps]: "op_keeps st (snd (Prefetch fl now (DownloadToFile fl now ans) st))"
proof -
  obtain e ws d where det: "detachFromUploadsLocked fl now 0 st = (e, (ws, d))" by (metis surj_pair)
  then have k: "op_keeps st (ws, d)" using keeps_detach [of st fl now 0] by simp
  obtain r d1 where dl: "DownloadToFile fl now ans (ws_StagingPath ws) d = (r, d1)" by (metis surj_pair)
  then have "op_keeps (ws, d) (ws, d1)"
    by (auto simp: DownloadToFile_def os_OpenCreate_def op_keeps_def set_inode_def os_lookup_def
        split: sum.splits prod.splits option.splits dir_entry.splits if_splits intro!: disk_keeps_data)
  then have k1: "op_keeps st (ws, d1)" by (rule op_keeps_trans [OF k])
  show ?thesis
    unfolding Prefetch_def det
    by (auto simp: dl Let_def split: option.splits intro!: op_keeps_to [OF k1] op_keeps_to(2) [OF k])
qed

section \<open>Operations of the manager\<close>

lemma tomb_fields [simp]:
  "sm_dirtyIndex (snd (CancelPendingDelete fl p sm)) = sm_dirtyIndex sm"
  "sm_sessions (snd (CancelPendingDelete fl p sm)) = sm_sessions sm"
  "sm_heap (snd (CancelPendingDelete fl p sm)) = sm_heap sm"
  "sm_nextSession (snd (CancelPendingDelete fl p sm)) = sm_nextSession sm"
  "stagingFilePath (snd (CancelPendingDelete fl p sm)) = stagingFilePath sm"
  "tombstoneFilePath (snd (CancelPendingDelete fl p sm)) = tombstoneFilePath sm"
  "sm_dirtyIndex (snd (addTombstone fl now p sm)) = sm_dirtyIndex sm"
  "sm_sessions (snd (addTombstone fl now p sm)) = sm_sessions sm"
  "sm_heap (snd (addTombstone fl now p sm)) = sm_heap sm"
  "sm_nextSession (snd (addTombstone fl now p sm)) = sm_nextSession sm"
  "stagingFilePath (snd (addTombstone fl now p sm)) = stagingFilePath sm"
  by (auto simp: CancelPendingDelete_def addTombstone_def remove_name_def Let_def split: prod.splits option.splits)

lemma inv_sessions_set:
  assumes "sm_inv X P sm" "p \<in> P" "sid < sm_nextSession sm" "ws_Path (sm_heap sm sid) = p"
    "ws_StagingPath (sm_heap sm sid) = stagingFilePath sm p"
  shows "sm_inv X P (sm\<lparr>sm_sessions := gm_set p sid (sm_sessions sm)\<rparr>)"
  using assms by (intro inv_same_names [OF assms(1)]) (auto simp: same_names_def sm_inv_def sessions_ok_def sessionAt_def)

lemma NewWriteSession_keeps:
  assumes "NewWriteSession fl now True p g d = (r, d')"
  shows "(\<forall>f. f \<noteq> g \<longrightarrow> f \<noteq> pathMetadataPath g \<longrightarrow> f \<noteq> tmp_name (pathMetadataPath g) \<longrightarrow> os_lookup d' f = os_lookup d f) \<and>
    (side_path d' (pathMetadataPath g) = side_path d (pathMetadataPath g) \<or> side_path d' (pathMetadataPath g) = Some p) \<and>
    (\<forall>ws. r = Inr ws \<longrightarrow> ws_Path ws = p \<and> ws_StagingPath ws = g)"
proof -
  obtain o1 d1 where op: "os_OpenCreate fl now g d = (o1, d1)" by (metis surj_pair)
  then have d1: "\<And>f. f \<noteq> g \<Longrightarrow> os_lookup d1 f = os_lookup d f"
    by (auto simp: os_OpenCreate_def os_lookup_def split: if_splits option.splits dir_entry.splits)
  then have s1: "side_path d1 (pathMetadataPath g) = side_path d (pathMetadataPath g)"
    by (intro side_path_cong) (simp add: pathMetadataPath_def)
  obtain e d2 where en: "EnsurePathMetadata fl p g d1 = (e, d2)" by (metis surj_pair)
  have d2: "\<forall>f. f \<noteq> g \<longrightarrow> f \<noteq> pathMetadataPath g \<longrightarrow> f \<noteq> tmp_name (pathMetadataPath g) \<longrightarrow> os_lookup d2 f = os_lookup d1 f"
    "side_path d2 (pathMetadataPath g) = side_path d1 (pathMetadataPath g) \<or> side_path d2 (pathMetadataPath g) = Some p"
    using en write_side_path
    by (auto simp: EnsurePathMetadata_def Let_def split: sum.splits stg_error.splits prod.splits if_splits)
  have "d' = d1 \<or> d' = d2" "\<forall>ws. r = Inr ws \<longrightarrow> ws_Path ws = p \<and> ws_StagingPath ws = g"
    using assms op en by (auto simp: NewWriteSession_def Let_def split: sum.splits if_splits)
  with d1 s1 d2 show ?thesis by auto
qed

lemma inv_new_session:
  assumes "sm_inv X P sm" "p \<in> P" "new_session fl now p sm = (r, sm')"
  shows "sm_inv X P sm'" "sm_sessions sm' = sm_sessions sm" "sm_dirtyIndex sm' = sm_dirtyIndex sm"
    "sm_tombstones sm' = sm_tombstones sm" "stagingFilePath sm' = stagingFilePath sm"
    "\<And>sid. r = Inr sid \<Longrightarrow> sid < sm_nextSession sm' \<and> ws_Path (sm_heap sm' sid) = p \<and>
        ws_StagingPath (sm_heap sm' sid) = stagingFilePath sm p"
proof -
  obtain r0 d where n: "NewWriteSession fl now True p (stagingFilePath sm p) (sm_disk sm) = (r0, d)" by (metis surj_pair)
  note k = NewWriteSession_keeps [OF n]
  have i: "sm_inv X P (sm\<lparr>sm_disk := d\<rparr>)" using k by (intro inv_disk_side [OF assms(1,2)]) auto
  have "sm_inv X P sm' \<and> sm_sessions sm' = sm_sessions sm \<and> sm_dirtyIndex sm' = sm_dirtyIndex sm \<and>
    sm_tombstones sm' = sm_tombstones sm \<and> stagingFilePath sm' = stagingFilePath sm \<and>
    (\<forall>sid. r = Inr sid \<longrightarrow> sid < sm_nextSession sm' \<and> ws_Path (sm_heap sm' sid) = p \<and>
        ws_StagingPath (sm_heap sm' sid) = stagingFilePath sm p)"
  proof (cases r0)
    case (Inl e)
    then show ?thesis using n i assms(3) by (auto simp: new_session_def)
  next
    case (Inr ws)
    let ?sm = "sm\<lparr>sm_disk := d, sm_heap := (sm_heap sm)(sm_nextSession sm := ws), sm_nextSession := sm_nextSession sm + 1\<rparr>"
    have sm': "r = Inr (sm_nextSession sm)" "sm' = ?sm" using n Inr assms(3) by (auto simp: new_session_def)
    have "sessions_ok P ?sm"
      using assms(1,2) k Inr by (fastforce simp: sm_inv_def sessions_ok_def sessionAt_def less_Suc_eq)
    then have "sm_inv X P ?sm" by (intro inv_same_names [OF i]) (simp_all add: same_names_def)
    then show ?thesis using sm' k Inr by auto
  qed
  then show "sm_inv X P sm'" "sm_sessions sm' = sm_sessions sm" "sm_dirtyIndex sm' = sm_dirtyIndex sm"
    "sm_tombstones sm' = sm_tombstones sm" "stagingFilePath sm' = stagingFilePath sm"
    "\<And>sid. r = Inr sid \<Longrightarrow> sid < sm_nextSession sm' \<and> ws_Path (sm_heap sm' sid) = p \<and>
        ws_StagingPath (sm_heap sm' sid) = stagingFilePath sm p"
    by auto
qed

lemma refcount_keeps [simp]:
  "ws_Path (IncrementRefCount ws) = ws_Path ws" "ws_StagingPath (IncrementRefCount ws) = ws_StagingPath ws"
  "ws_Path (DecrementRefCount ws) = ws_Path ws" "ws_StagingPath (DecrementRefCount ws) = ws_StagingPath ws"
  "ws_Path (snd (WriteSession_Close fl ws)) = ws_Path ws" "ws_StagingPath (snd (WriteSession_Close fl ws)) = ws_StagingPath ws"
  "ws_Path (metadataChanged ws) = ws_Path ws" "ws_StagingPath (metadataChanged ws) = ws_StagingPath ws"
  "ws_Path (metadataCommitted v ws) = ws_Path ws" "ws_StagingPath (metadataCommitted v ws) = ws_StagingPath ws"
  "ws_Path (restoreAttributes a ws) = ws_Path ws" "ws_StagingPath (restoreAttributes a ws) = ws_StagingPath ws"
  by (auto simp: IncrementRefCount_def DecrementRefCount_def WriteSession_Close_def metadataChanged_def
      metadataCommitted_def restoreAttributes_def setAttributesLocked_def)

lemma inv_GetOrCreateSession:
  assumes "sm_inv X P sm" "p \<in> P" shows "sm_inv X P (snd (GetOrCreateSession fl now p sm))"
proof -
  let ?sm1 = "snd (CancelPendingDelete fl p sm)"
  have i1: "sm_inv X P ?sm1" by (rule inv_pending_delete [OF assms])
  obtain r sm2 where n: "new_session fl now p ?sm1 = (r, sm2)" by (metis surj_pair)
  note k = inv_new_session [OF i1 assms(2) n]
  have "sm_inv X P (sm2\<lparr>sm_sessions := gm_set p sid (sm_sessions sm2)\<rparr>)" if "r = Inr sid" for sid
    using k(5) k(6) [OF that] by (intro inv_sessions_set [OF k(1) assms(2)]) auto
  then show ?thesis
    using assms i1 k n
    by (auto simp: GetOrCreateSession_def Let_def split: option.splits sum.splits intro!: inv_session)
qed

lemma inv_ReleaseSession: "sm_inv X P sm \<Longrightarrow> sm_inv X P (ReleaseSession p sm)"
  by (auto simp: ReleaseSession_def split: option.splits intro!: inv_session)

lemma inv_AcquireSession: "sm_inv X P sm \<Longrightarrow> sm_inv X P (snd (AcquireSession p sm))"
  by (auto simp: AcquireSession_def split: option.splits intro!: inv_session)

lemma inv_recordDirty:
  assumes "sm_inv X P sm" "p \<in> P" "recordDirtyPathLocked fl now p attrs sm = (r, sm')"
  shows "sm_inv X P sm'" "\<And>s. r = Inr s \<Longrightarrow> side_path (sm_disk sm') (meta_name sm p) = Some p"
    "\<exists>d. sm' = sm\<lparr>sm_disk := d\<rparr>"
proof -
  define st where "st (s0 :: PathMetadataState) = (let s1 = s0\<lparr>ps_OriginalPath := p, ps_StagedFilePath := stagingFilePath sm p,
        ps_ConflictStatus := ConflictStatusNone\<rparr>;
      s2 = (if is_zero_time (ps_DirtySince s1) then s1\<lparr>ps_DirtySince := now\<rparr> else s1)
    in if attrs \<noteq> None then s2\<lparr>ps_Attributes := attrs\<rparr> else s2)" for s0
  have p: "ps_OriginalPath (st s0) = p" for s0 by (simp add: st_def Let_def)
  have w: "sm_inv X P (sm\<lparr>sm_disk := d\<rparr>) \<and> (e = None \<longrightarrow> side_path d (meta_name sm p) = Some p)"
    if "writePathMetadataState fl (meta_name sm p) (Some (st s0)) (sm_disk sm) = (e, s', d)" for s0 e s' d
    using inv_write_side [OF assms(1,2) p that] write_side_path(1) [OF that] p by simp
  have "sm' = sm \<and> (\<forall>s. r \<noteq> Inr s) \<or>
      (\<exists>s0 e s1 d. writePathMetadataState fl (meta_name sm p) (Some (st s0)) (sm_disk sm) = (e, s1, d) \<and>
         sm' = sm\<lparr>sm_disk := d\<rparr> \<and> ((\<exists>s. r = Inr s) \<longrightarrow> e = None))"
  proof -
    define rs where "rs s0 = (case writePathMetadataState fl (meta_name sm p) (Some (st s0)) (sm_disk sm) of
        (Some e, _, d) \<Rightarrow> (Inl e, sm\<lparr>sm_disk := d\<rparr>) | (None, s4, d) \<Rightarrow> (Inr (the s4), sm\<lparr>sm_disk := d\<rparr>))" for s0
    have "(\<exists>s0. recordDirtyPathLocked fl now p attrs sm = rs s0) \<or>
        (\<exists>e. recordDirtyPathLocked fl now p attrs sm = (Inl e, sm))"
    proof -
      have "recordDirtyPathLocked fl now p attrs sm =
        (case readPathMetadataState fl (meta_name sm p) (sm_disk sm) of
           Inl ENotExist \<Rightarrow> rs (zero_path_state\<lparr>ps_Version := pathMetadataVersion, ps_ObjectKey := objectKeyFromPath p\<rparr>)
         | Inl e \<Rightarrow> (Inl e, sm)
         | Inr s \<Rightarrow> rs s)"
        unfolding recordDirtyPathLocked_def rs_def st_def Let_def by (rule refl)
      then show ?thesis by (auto split: sum.split stg_error.split)
    qed
    moreover have "\<exists>e s1 d. writePathMetadataState fl (meta_name sm p) (Some (st s0)) (sm_disk sm) = (e, s1, d) \<and>
         sm' = sm\<lparr>sm_disk := d\<rparr> \<and> ((\<exists>s. r = Inr s) \<longrightarrow> e = None)" if "rs s0 = (r, sm')" for s0
    proof -
      obtain e s1 d where "writePathMetadataState fl (meta_name sm p) (Some (st s0)) (sm_disk sm) = (e, s1, d)"
        by (metis surj_pair)
      with that show ?thesis unfolding rs_def by (cases e) auto
    qed
    ultimately show ?thesis using assms(3) by (metis prod.inject Inl_Inr_False)
  qed
  with w assms(1) show "sm_inv X P sm'" "\<And>s. r = Inr s \<Longrightarrow> side_path (sm_disk sm') (meta_name sm p) = Some p"
    "\<exists>d. sm' = sm\<lparr>sm_disk := d\<rparr>"
    by (auto intro: exI [of _ "sm_disk sm"])
qed

lemma record_path:
  assumes "recordDirtyPathLocked fl now p attrs sm = (Inr s, sm')" shows "ps_OriginalPath s = p"
proof -
  have w: "ps_OriginalPath (the s4) = p"
    if "writePathMetadataState fl f (Some s3) d = (None, s4, d')" "ps_OriginalPath s3 = p" for f s3 d s4 d'
    using that by (auto simp: writePathMetadataState_def Let_def split: option.splits prod.splits if_splits)
  show ?thesis using assms
    by (auto simp: recordDirtyPathLocked_def Let_def split: sum.splits stg_error.splits prod.splits option.splits dest!: w)
qed

lemma inv_commit:
  assumes "sm_inv X P sm" "p \<in> P"
  shows "sm_inv X P (snd (commitPathMetadata fl now p (stagingFilePath sm p) sid sm)) \<and>
    (\<exists>d. snd (commitPathMetadata fl now p (stagingFilePath sm p) sid sm) = sm\<lparr>sm_disk := d\<rparr>)"
proof -
  define cs where "cs s sm1 = (if ps_Committed s then (None, sm1)
      else (case writePathMetadataState fl (meta_name sm p) (Some (s\<lparr>ps_Committed := True\<rparr>)) (sm_disk sm1) of
              (e, _, d) \<Rightarrow> (e, sm1\<lparr>sm_disk := d\<rparr>)))" for s and sm1 :: StagingManager
  have cs: "sm_inv X P (snd (cs s sm1)) \<and> (\<exists>d. snd (cs s sm1) = sm\<lparr>sm_disk := d\<rparr>)"
    if "sm_inv X P sm1" "sm1 = sm\<lparr>sm_disk := d1\<rparr>" "ps_OriginalPath s = p" for s sm1 d1
    using inv_write_side [OF that(1) assms(2), of "s\<lparr>ps_Committed := True\<rparr>"] that
    by (auto simp: cs_def split: prod.split)
  obtain r sm1 where rd: "recordDirtyPathLocked fl now p (sessionAttributesIfSet (Some (sm_heap sm sid))) sm = (r, sm1)"
    by (metis surj_pair)
  note k = inv_recordDirty [OF assms rd]
  have st: "ps_OriginalPath s = p" if "readPathMetadataState fl (meta_name sm p) (sm_disk sm) = Inr s" for s
    using that path_okD(1) [OF assms] unfolding read_sidecar by (auto simp: side_path_def)
  have e: "commitPathMetadata fl now p (stagingFilePath sm p) sid sm =
    (case readPathMetadataState fl (meta_name sm p) (sm_disk sm) of
       Inl ENotExist \<Rightarrow> if \<not> IsDirty p (sm_dirtyIndex sm) then (None, sm)
         else (case r of Inl e \<Rightarrow> (Some (ENoMetadata e), sm1) | Inr s \<Rightarrow> cs s sm1)
     | Inl e \<Rightarrow> (Some (ENoMetadata e), sm) | Inr s \<Rightarrow> cs s sm)"
    unfolding commitPathMetadata_def Let_def rd cs_def by (auto split: sum.split stg_error.split)
  have r: "ps_OriginalPath s = p" if "r = Inr s" for s
    using rd that by (auto dest: record_path)
  obtain d1 where d1: "sm1 = sm\<lparr>sm_disk := d1\<rparr>" using k(3) by auto
  have m: "sm_inv X P (snd (cs s sm)) \<and> (\<exists>d. snd (cs s sm) = sm\<lparr>sm_disk := d\<rparr>)" if "ps_OriginalPath s = p" for s
    using cs [OF assms(1) _ that, of "sm_disk sm"] by simp
  have "\<exists>d. sm = sm\<lparr>sm_disk := d\<rparr>" by (rule exI [of _ "sm_disk sm"]) simp
  then show ?thesis
    using cs [OF k(1) d1 r] m st k(1) d1 assms(1) unfolding e
    by (auto split: sum.split stg_error.split)
qed

lemma inv_sessionD:
  assumes "sm_inv X P sm" "sessionAt p sm = Some sid"
  shows "p \<in> P" "sid < sm_nextSession sm" "ws_Path (sm_heap sm sid) = p" "ws_StagingPath (sm_heap sm sid) = stagingFilePath sm p"
  using assms by (auto simp: sm_inv_def sessions_ok_def)

lemma flushThen_act:
  assumes "rounds_ok rounds" "flushThen fl rounds act st = ((o1, e, Some x), st1)"
  shows "\<exists>st2. op_keeps st st2 \<and> act st2 = (x, st1)"
  using assms
proof (induction rounds arbitrary: st)
  case Nil
  then show ?case by (cases st) (auto simp: Let_def split: option.splits prod.splits if_splits intro!: exI op_keeps_refl)
next
  case (Cons f rounds)
  obtain ws d ws' d' where st: "st = (ws, d)" "f (ws, d) = (ws', d')" by (metis surj_pair)
  have f: "op_keeps (ws, d) (ws', d')" "rounds_ok rounds"
    using Cons(2) st(2) unfolding rounds_ok_def by (auto dest!: spec [of _ ws] spec [of _ d])
  then show ?case using Cons.IH [of "(ws', d')"] Cons(3) op_keeps_trans [OF f(1)] unfolding st(1)
    by (fastforce simp: Let_def st(2) split: option.splits prod.splits if_splits)
qed

lemma syncToDisk_path:
  assumes "rounds_ok rounds" "syncToDisk fl rounds (ws, d) = ((st, v, err), st1)" "st \<noteq> []"
  shows "st = ws_StagingPath ws"
  using assms(2,3) unfolding syncToDisk_def
  by (auto simp: op_keeps_def simp del: flushThen.simps split: prod.splits option.splits
      dest!: flushThen_act [OF assms(1)])

lemma inv_CommitPath:
  assumes "sm_inv X P sm" "rounds_ok rounds" shows "sm_inv X P (snd (CommitPath fl now rounds p sm))"
proof (cases "sessionAt p sm")
  case None
  then show ?thesis using assms by (simp add: CommitPath_def)
next
  case (Some sid)
  note s = inv_sessionD [OF assms(1) Some]
  obtain st v err sm1 where r: "run_session sid (syncToDisk fl rounds) sm = ((st, v, err), sm1)" by (metis surj_pair)
  have i: "sm_inv X P sm1" using inv_run_session [OF assms(1) s(2), of "syncToDisk fl rounds"] keeps_open(2) [OF assms(2)] r by simp
  have sf: "stagingFilePath sm1 = stagingFilePath sm" using run_session_fields(5) [of sid "syncToDisk fl rounds" sm] r by simp
  have "st = stagingFilePath sm p" if "st \<noteq> []"
    using r that s(4) syncToDisk_path [OF assms(2)] by (auto simp: run_session_def split: prod.splits)
  then have c: "sm_inv X P (snd (commitPathMetadata fl now p st sid sm1))" if "st \<noteq> []"
    using inv_commit [OF i s(1), of fl now sid] that by (simp add: sf)
  show ?thesis
    using i c unfolding CommitPath_def
    by (auto simp: Some r split: prod.splits option.splits intro!: inv_session)
qed

lemma inv_run:
  assumes "run_session sid f sm = (r, sm')" "sm_inv X P sm" "sid < sm_nextSession sm" "\<And>ws d. op_keeps (ws, d) (snd (f (ws, d)))"
  shows "sm_inv X P sm' \<and> sm_nextSession sm' = sm_nextSession sm"
  using inv_run_session [OF assms(2-4)] assms(1) run_session_fields(4) [of sid f sm] by simp

lemma inv_Write:
  assumes "sm_inv X P sm" "sid < sm_nextSession sm"
    and "WriteSession_Write fl k now full obs sid data offset sm = Some (r, sm')"
  shows "sm_inv X P sm'"
  using assms unfolding WriteSession_Write_def Let_def
  by (auto split: if_splits option.splits sum.splits prod.splits simp: keeps
      dest!: inv_run [where f = "write_locked fl k now data offset"] intro!: inv_fields inv_run_session)

lemma inv_Truncate:
  assumes "sm_inv X P sm" "sid < sm_nextSession sm"
    and "WriteSession_Truncate fl now full obs sid sz sm = Some (e, sm')"
  shows "sm_inv X P sm'"
  using assms unfolding WriteSession_Truncate_def Let_def
  by (auto split: if_splits option.splits sum.splits prod.splits simp: keeps dest!: inv_run intro!: inv_fields)

lemma inv_markPathDirty:
  assumes "sm_inv X P sm" "p \<in> P" shows "sm_inv X P (snd (markPathDirty fl now p sz sm))"
proof -
  obtain r sm1 where rd: "recordDirtyPathLocked fl now p (sessionAttributesIfSet (session_at p sm)) sm = (r, sm1)"
    by (metis surj_pair)
  note k = inv_recordDirty [OF assms rd]
  have sf: "stagingFilePath sm1 = stagingFilePath sm" using k(3) by auto
  obtain b di where again: "MarkDirtyAgain now p sz (sm_dirtyIndex sm) = (b, di)" by (metis surj_pair)
  have di: "sm_inv X P (sm\<lparr>sm_dirtyIndex := di\<rparr>)"
    using recs_simps(7) [of now p sz "sm_dirtyIndex sm"] again
    by (intro inv_index [OF assms(1)]) (auto simp: recs_def recd_def)
  have n: "sm_inv X P (upd_index (MarkDirtyWithState now p sz None) sm1)"
    using recs_MarkDirtyWithState [of now p sz None] by (intro inv_upd_index [OF k(1)]) auto
  have s: "sm_inv X P (upd_index (MarkDirtyWithState now p sz (Some s)) (case x of None \<Rightarrow> sm1 | Some sid \<Rightarrow> upd_session sid metadataChanged sm1))"
    if "r = Inr s" for s x
    using recs_MarkDirtyWithState [of now p sz "Some s"] k(1) k(2) [OF that] sf
    by (intro inv_upd_index) (auto split: option.split intro!: inv_session)
  show ?thesis
    using di n s unfolding markPathDirty_def Let_def again rd by (auto split: bool.split sum.split)
qed

lemma inv_MarkDirty:
  assumes "sm_inv X P sm" "p \<in> P" shows "sm_inv X P (snd (StagingManager_MarkDirty fl now p sz sm))"
proof -
  obtain b di where again: "MarkDirtyAgain now p sz (sm_dirtyIndex sm) = (b, di)" by (metis surj_pair)
  have di: "sm_inv X P (sm\<lparr>sm_dirtyIndex := di\<rparr>)"
    using recs_simps(7) [of now p sz "sm_dirtyIndex sm"] again
    by (intro inv_index [OF assms(1)]) (auto simp: recs_def recd_def)
  show ?thesis
    using assms(1) di inv_markPathDirty [OF assms, of fl now sz]
    unfolding StagingManager_MarkDirty_def again by (auto split: bool.split prod.split)
qed

lemma inv_drop:
  assumes "sm_inv X P sm" "p \<in> P"
  shows "sm_inv X P (dropDirtyEntry fl p sm)" "sm_inv X P (StagingManager_MarkClean fl p sm)" "sm_inv X P (ForgetDirty fl p sm)"
proof -
  have "sm_inv X P (upd_index (DirtyFileIndex_MarkClean p) sm)" by (rule inv_upd_index [OF assms(1)]) auto
  from inv_remove_side [OF this assms(2), of fl]
  show "sm_inv X P (dropDirtyEntry fl p sm)" "sm_inv X P (StagingManager_MarkClean fl p sm)" "sm_inv X P (ForgetDirty fl p sm)"
    by (simp_all add: dropDirtyEntry_def StagingManager_MarkClean_def ForgetDirty_def removePathMetadata_def)
qed

lemma inv_markCleanIfUnchanged:
  assumes "sm_inv X P sm" "p \<in> P" shows "sm_inv X P (snd (markCleanIfUnchanged fl p g sm))"
proof -
  obtain w c di where m: "MarkCleanIfUnchanged p g (sm_dirtyIndex sm) = ((w, c), di)" by (metis surj_pair)
  have i: "sm_inv X P (upd_index (\<lambda>_. di) sm)"
    using recs_MarkCleanIfUnchanged(1) [of p g "sm_dirtyIndex sm"] m by (intro inv_upd_index [OF assms(1)]) auto
  have "p \<notin> recs di" if "c" using recs_MarkCleanIfUnchanged(2) [of p g "sm_dirtyIndex sm" w] m that by simp
  then have "sm_inv X P (snd (removePathMetadata fl p (upd_index (\<lambda>_. di) sm)))" if "c"
    using that inv_remove_side [OF i assms(2), of fl] by (simp add: removePathMetadata_def)
  then show ?thesis using i by (simp add: markCleanIfUnchanged_def m upd_index_def Let_def)
qed

section \<open>Removing sessions\<close>

lemma drop_fields [simp]:
  "stagingFilePath (dropDirtyEntry fl p sm) = stagingFilePath sm"
  "sm_sessions (dropDirtyEntry fl p sm) = sm_sessions sm" "sm_tombstones (dropDirtyEntry fl p sm) = sm_tombstones sm"
  by (simp_all add: dropDirtyEntry_def removePathMetadata_def)

lemma inv_close: "sm_inv X P sm \<Longrightarrow> sm_inv X P (closeRemovedSession fl s sm)"
  by (auto simp: closeRemovedSession_def split: option.split intro!: inv_session)

lemma inv_removeSession:
  assumes "sm_inv X P sm" "p \<in> P" shows "sm_inv X P (snd (removeSessionLocked fl p b sm))"
proof -
  let ?sm = "sm\<lparr>sm_sessions := gm_del p (sm_sessions sm)\<rparr>"
  have i: "sm_inv X P ?sm" by (rule inv_sessions_del [OF assms(1)])
  obtain e sm2 where r: "remove_name fl (stagingFilePath sm p) ?sm = (e, sm2)" by (metis surj_pair)
  have "sm_inv X P sm2" using inv_remove_data [OF i assms(2), of fl] r by simp
  then show ?thesis
    using assms i inv_drop(1) [OF _ assms(2), of X sm2 fl]
    by (auto simp: removeSessionLocked_def r Let_def split: option.split)
qed

lemma inv_Cleanup:
  assumes "sm_inv X P sm" "p \<in> P"
  shows "sm_inv X P (snd (CleanupSession fl p b sm))" "sm_inv X P (snd (discardDeletedStaging fl p sm))"
  using assms inv_removeSession [OF assms, of fl b] inv_removeSession [OF inv_drop(1) [OF assms, of fl] assms(2), of fl True]
  by (auto simp: CleanupSession_def discardDeletedStaging_def split: prod.split intro!: inv_close)

lemma recd_IsDirty: "\<not> IsDirty p (sm_dirtyIndex sm) \<Longrightarrow> \<not> recd sm p"
  by (auto simp: recd_def IsDirty_def gm_has_def)

text \<open>Both files of a path whose session is gone.\<close>

lemma inv_remove_both:
  assumes "sm_inv X P sm" "p \<in> P" "\<not> recd sm p"
  shows "sm_inv X P (snd (remove_name fl (meta_name sm p) (snd (remove_name fl (stagingFilePath sm p) sm))))"
  using inv_remove_side [OF inv_remove_data [OF assms(1,2), of fl] assms(2), of fl] assms(3) by simp

lemma close_fields [simp]:
  "stagingFilePath (closeRemovedSession fl s sm) = stagingFilePath sm" "recd (closeRemovedSession fl s sm) = recd sm"
  by (simp_all add: closeRemovedSession_def split: option.split)

lemma inv_cleanupSynced:
  assumes "sm_inv X P sm" shows "sm_inv X P (snd (cleanupSyncedSession fl p sid sm))"
proof (cases "sessionAt p sm = Some sid \<and> \<not> IsDirty p (sm_dirtyIndex sm)")
  case True
  let ?sm = "sm\<lparr>sm_sessions := gm_del p (sm_sessions sm)\<rparr>"
  have "sm_inv X P (snd (remove_name fl (meta_name ?sm p) (snd (remove_name fl (stagingFilePath ?sm p) ?sm))))"
    using True assms inv_sessionD(1) by (intro inv_remove_both inv_sessions_del) (auto dest: recd_IsDirty)
  then show ?thesis
    using assms by (auto simp: cleanupSyncedSession_def Let_def split: prod.split intro!: inv_close)
next
  case False
  then show ?thesis using assms by (auto simp: cleanupSyncedSession_def)
qed

lemma inv_sync_locks:
  assumes "sm_inv X P sm"
  shows "sm_inv X P (snd (TryLockSync p sm))" "sm_inv X P (UnlockSync p sm)"
proof -
  have "snd (TryLockSync p sm) = upd_index (\<lambda>di. snd (LockFile p di)) sm"
    by (simp add: TryLockSync_def upd_index_def split: prod.split)
  then show "sm_inv X P (snd (TryLockSync p sm))" by (auto intro!: inv_upd_index [OF assms])
  show "sm_inv X P (UnlockSync p sm)" unfolding UnlockSync_def by (auto intro!: inv_upd_index [OF assms])
qed

lemma inv_RegisterPendingDelete:
  assumes "sm_inv X P sm" "p \<in> P" shows "sm_inv X P (snd (RegisterPendingDelete fl now p sm))"
proof -
  obtain r sm1 where a: "addTombstone fl now p sm = (r, sm1)" by (metis surj_pair)
  have i: "sm_inv X P sm1" using inv_addTombstone [OF assms, of fl now] a by simp
  have j: "sm_inv X P sm2" if "TryLockSync p sm1 = (b, sm2)" for b sm2 using inv_sync_locks(1) [OF i, of p] that by simp
  show ?thesis
    using i j inv_Cleanup(2) [OF j assms(2)] by (auto simp: RegisterPendingDelete_def a split: prod.split sum.split bool.split
        intro!: inv_sync_locks)
qed

lemma inv_DiscardIfEmpty:
  assumes "sm_inv X P sm" shows "sm_inv X P (ReleaseSessionDiscardingIfEmpty fl p sm)"
proof (cases "sessionAt p sm")
  case None
  then show ?thesis using assms by (simp add: ReleaseSessionDiscardingIfEmpty_def)
next
  case (Some sid)
  let ?sm = "upd_session sid DecrementRefCount sm"
  have i: "sm_inv X P ?sm" by (rule inv_session [OF assms]) simp_all
  have at: "sessionAt p ?sm = Some sid" using Some by (simp add: sessionAt_def)
  note s = inv_sessionD [OF i at]
  define sm3 where "sm3 = closeRemovedSession fl (Some sid) (?sm\<lparr>sm_sessions := gm_del p (sm_sessions ?sm)\<rparr>)"
  have "sm_inv X P sm3" unfolding sm3_def by (intro inv_close inv_sessions_del i)
  moreover have "stagingFilePath sm3 = stagingFilePath sm" "recd sm3 = recd sm" by (simp_all add: sm3_def)
  ultimately have "sm_inv X P (snd (remove_name fl (meta_name sm p) (snd (remove_name fl (stagingFilePath sm p) sm3))))"
    if "\<not> IsDirty p (sm_dirtyIndex sm)"
    using inv_remove_both [of X P sm3 p fl] recd_IsDirty [OF that] s(1) by simp
  then show ?thesis
    using i s(4) unfolding ReleaseSessionDiscardingIfEmpty_def by (simp add: Some Let_def sm3_def)
qed

lemma inv_DiscardUnwritten:
  assumes "sm_inv X P sm" shows "sm_inv X P (snd (DiscardUnwrittenSession fl p sm))"
proof (cases "sessionAt p sm")
  case None
  then show ?thesis using assms by (simp add: DiscardUnwrittenSession_def)
next
  case (Some sid)
  note s = inv_sessionD [OF assms Some]
  define sm3 where "sm3 = closeRemovedSession fl (Some sid) (upd_index (DropEntry p) (sm\<lparr>sm_sessions := gm_del p (sm_sessions sm)\<rparr>))"
  have "sm_inv X P sm3" unfolding sm3_def by (intro inv_close inv_upd_index inv_sessions_del assms) auto
  moreover have "stagingFilePath sm3 = stagingFilePath sm" "\<not> recd sm3 p" by (simp_all add: sm3_def)
  ultimately have "sm_inv X P (snd (remove_name fl (meta_name sm p) (snd (remove_name fl (stagingFilePath sm p) sm3))))"
    using inv_remove_both [of X P sm3 p fl] s(1) by simp
  then show ?thesis
    using assms s(4) unfolding DiscardUnwrittenSession_def by (simp add: Some Let_def sm3_def)
qed

end
