(* ===== verification/Manager_Steps.thy ===== *)
theory Manager_Steps
  imports Staging_Invariant
begin

text \<open>
  The invariant of the staging manager, continued: rebuilt sessions, conflicts, renames and restarts.
  The runs of the manager are the sequences of its operations with any of the system calls
  failing; a restart starts a new manager on the disk of the old one.
\<close>

section \<open>Rebuilt sessions\<close>

lemma inv_heap_set:
  assumes "sm_inv X P sm" "ws_Path ws = ws_Path (sm_heap sm sid)" "ws_StagingPath ws = ws_StagingPath (sm_heap sm sid)"
  shows "sm_inv X P (sm\<lparr>sm_heap := (sm_heap sm)(sid := ws)\<rparr>)"
  using assms by (intro inv_same_names [OF assms(1)]) (auto simp: same_names_def sm_inv_def sessions_ok_def sessionAt_def)

lemma inv_new_registered:
  assumes "sm_inv X P sm" "p \<in> P" "new_session fl now p sm = (Inr sid, sm1)"
    and "ws_Path ws = ws_Path (sm_heap sm1 sid)" "ws_StagingPath ws = ws_StagingPath (sm_heap sm1 sid)"
  shows "sm_inv X P (sm1\<lparr>sm_heap := (sm_heap sm1)(sid := ws), sm_sessions := gm_set p sid (sm_sessions sm1)\<rparr>)"
proof -
  note k = inv_new_session [OF assms(1-3)]
  let ?sm = "sm1\<lparr>sm_heap := (sm_heap sm1)(sid := ws)\<rparr>"
  have "sm_inv X P (?sm\<lparr>sm_sessions := gm_set p sid (sm_sessions ?sm)\<rparr>)"
    using k(5,6) assms(4,5) by (intro inv_sessions_set inv_heap_set k(1) assms(2)) auto
  then show ?thesis by simp
qed

lemma inv_RecoverSession:
  assumes "sm_inv X P sm" "p \<in> P" shows "sm_inv X P (snd (RecoverSessionFromStaging fl now p sm))"
proof -
  obtain r sm1 where n: "new_session fl now p sm = (r, sm1)" by (metis surj_pair)
  show ?thesis
    using assms(1) inv_new_session(1) [OF assms n] inv_new_registered [OF assms, of fl now _ sm1] n
    by (auto simp: RecoverSessionFromStaging_def Let_def split: option.split sum.split)
qed

lemma MarkDirty_next: "sm_nextSession (snd (StagingManager_MarkDirty fl now p sz sm)) = sm_nextSession sm"
proof -
  obtain r sm1 where rd: "recordDirtyPathLocked fl now p (sessionAttributesIfSet (session_at p sm)) sm = (r, sm1)"
    by (metis surj_pair)
  then have "sm_nextSession sm1 = sm_nextSession sm"
    by (auto simp: recordDirtyPathLocked_def Let_def split: sum.splits stg_error.splits prod.splits option.splits)
  then show ?thesis
    by (auto simp: StagingManager_MarkDirty_def markPathDirty_def Let_def rd split: bool.split prod.split sum.split option.split)
qed

lemma inv_RestoreUnwritten:
  assumes "sm_inv X P sm" "p \<in> P" shows "sm_inv X P (snd (RestoreUnwrittenSession fl now p ds sm))"
proof -
  obtain r sm1 where n: "new_session fl now p sm = (r, sm1)" by (metis surj_pair)
  note k = inv_new_session [OF assms n]
  show ?thesis
  proof (cases r)
    case (Inl e)
    then show ?thesis using assms(1) k(1) n by (auto simp: RestoreUnwrittenSession_def)
  next
    case (Inr sid)
    define ws where "ws = restoreAttributes (ds_Attributes ds)
      ((sm_heap sm1 sid)\<lparr>ws_Size := ds_Size ds, ws_Dirty := True, ws_RefCount := 0\<rparr>)"
    define d where "d = set_inode (the (ws_File (sm_heap sm1 sid)))
      (ftruncate (dk_inodes (sm_disk sm1) (the (ws_File (sm_heap sm1 sid)))) (nat (ds_Size ds))) now (sm_disk sm1)"
    define sm0 where "sm0 = sm1\<lparr>sm_heap := (sm_heap sm1)(sid := ws), sm_sessions := gm_set p sid (sm_sessions sm1)\<rparr>"
    have "sm_inv X P sm0"
      unfolding sm0_def using n Inr by (intro inv_new_registered [OF assms]) (auto simp: ws_def)
    then have "sm_inv X P (sm0\<lparr>sm_disk := d\<rparr>)"
      by (rule inv_disk_data [OF _ assms(2)]) (auto simp: sm0_def d_def set_inode_def os_lookup_def)
    also have "sm0\<lparr>sm_disk := d\<rparr> = sm1\<lparr>sm_disk := d, sm_heap := (sm_heap sm1)(sid := ws), sm_sessions := gm_set p sid (sm_sessions sm1)\<rparr>"
      by (simp add: sm0_def)
    finally have i2: "sm_inv X P (sm1\<lparr>sm_disk := d, sm_heap := (sm_heap sm1)(sid := ws), sm_sessions := gm_set p sid (sm_sessions sm1)\<rparr>)"
      (is "sm_inv X P ?sm2") .
    obtain e sm3 where m: "StagingManager_MarkDirty fl now p (ds_Size ds) ?sm2 = (e, sm3)" by (metis surj_pair)
    have i3: "sm_inv X P sm3" using inv_MarkDirty [OF i2 assms(2), of fl now "ds_Size ds"] m by simp
    have "sm_nextSession sm3 = sm_nextSession ?sm2" using m MarkDirty_next by (metis snd_conv)
    then have "sm_inv X P (snd (run_session sid (\<lambda>st. ((), persistAttributes fl st)) sm3))"
      using k(6) [OF Inr] by (intro inv_run_session [OF i3]) (auto simp: keeps)
    then show ?thesis
      using assms(1) inv_close [OF k(1)] n Inr m
      by (simp add: RestoreUnwrittenSession_def Let_def ws_def [symmetric] d_def [symmetric])
  qed
qed

lemma inv_Shutdown:
  assumes "sm_inv X P sm" shows "sm_inv X P (Shutdown fl sm)"
proof -
  let ?f = "\<lambda>(path, sid). upd_session sid (\<lambda>ws. snd (WriteSession_Close fl ws))"
  have "sm_inv X P (fold ?f xs sm)" for xs :: "(string \<times> nat) list"
    using assms
  proof (induction xs arbitrary: sm)
    case (Cons x xs)
    have "sm_inv X P (upd_session (snd x) (\<lambda>ws. snd (WriteSession_Close fl ws)) sm)"
      using Cons(2) by (intro inv_session) simp_all
    from Cons.IH [OF this] show ?case by (simp add: case_prod_unfold)
  qed simp
  then have i: "sm_inv X P (fold ?f (sm_sessions sm) sm)" (is "sm_inv X P ?sm") .
  then have "sessions_ok P (?sm\<lparr>sm_sessions := []\<rparr>)" by (simp add: sm_inv_def sessions_ok_def sessionAt_def)
  with i show ?thesis unfolding Shutdown_def by (intro inv_same_names [OF i]) (auto simp: same_names_def)
qed

section \<open>Conflicts\<close>

lemma inv_weaken: "sm_inv X P sm \<Longrightarrow> X \<subseteq> Y \<Longrightarrow> sm_inv Y P sm"
  unfolding sm_inv_def path_ok_def by blast

lemma inv_settle:
  assumes "sm_inv Y P sm" "\<And>p. p \<in> Y \<Longrightarrow> p \<in> X \<or> \<not> recd sm p \<or> side_path (sm_disk sm) (meta_name sm p) = Some p"
  shows "sm_inv X P sm"
  using assms unfolding sm_inv_def path_ok_def by (auto; metis)

lemma lost_upds [simp]:
  "lost_name (sm\<lparr>sm_disk := d\<rparr>) = lost_name sm" "lost_name (sm\<lparr>sm_heap := h\<rparr>) = lost_name sm"
  by (simp_all add: lost_name_def lostFoundDir_def fun_eq_iff)

lemma lost_run_session [simp]: "lost_name (snd (run_session sid f sm)) = lost_name sm"
  by (simp add: run_session_def lost_name_def lostFoundDir_def fun_eq_iff split: prod.split)

lemma run_keeps:
  assumes "run_session sid f sm = (r, sm')"
  shows "stagingFilePath sm' = stagingFilePath sm" "lost_name sm' = lost_name sm" "sessionAt q sm' = sessionAt q sm"
  using run_session_fields [of sid f sm] lost_run_session [of sid f sm] assms by (auto simp: sessionAt_def)

lemma copyFile_lookup:
  "copyFile fl now dst src d = (e, d') \<Longrightarrow> f \<noteq> dst \<Longrightarrow> os_lookup d' f = os_lookup d f"
  by (auto simp: copyFile_def os_OpenCreate_def os_lookup_Remove set_inode_def os_lookup_def os_Remove_def Let_def
      split: option.splits sum.splits prod.splits if_splits dir_entry.splits)

lemma writeSidecar_lookup:
  "writeSidecarFile fl g doc b d = (e, d') \<Longrightarrow> f \<noteq> g \<Longrightarrow> os_lookup d' f = os_lookup d f"
  by (auto simp: writeSidecarFile_def put_doc_def os_lookup_def split: if_splits)

lemma inv_drop_conflicted:
  assumes "sm_inv X P sm" "p \<in> P" "cm_Path c = p" "\<And>sid. s = Some sid \<Longrightarrow> sessionAt p sm = Some sid"
  shows "sm_inv X P (snd (drop_conflicted fl p (stagingFilePath sm p) s c sm))"
proof -
  define close where "close = (\<lambda>ws. snd (WriteSession_Close fl (ws\<lparr>ws_Dirty := False\<rparr>)))"
  define sm2 where "sm2 = (case sessionAt p sm of None \<Rightarrow> sm
    | Some sid \<Rightarrow> upd_session sid close (sm\<lparr>sm_sessions := gm_del p (sm_sessions sm)\<rparr>))"
  have i: "sm_inv X P sm2" and f: "stagingFilePath sm2 = stagingFilePath sm"
    using assms(1) by (auto simp: sm2_def close_def split: option.split intro!: inv_session inv_sessions_del)
  obtain e1 sm3 where r1: "remove_name fl (stagingFilePath sm p) sm2 = (e1, sm3)" by (metis surj_pair)
  have i3: "sm_inv X P sm3" using inv_remove_data [OF i assms(2), of fl] r1 f by simp
  have f3: "stagingFilePath sm3 = stagingFilePath sm" using remove_name_fields(6) [of fl _ sm2] r1 f by (metis snd_conv)
  obtain e2 sm4 where r2: "remove_name fl (meta_name sm p) sm3 = (e2, sm4)" by (metis surj_pair)
  have i4: "sm_inv (insert p X) P sm4"
    using inv_remove_side [OF inv_weaken [OF i3] assms(2), of "insert p X" fl] r2 f3 by auto
  have "sm_inv X P (upd_index (MarkConflicted (Some c)) sm4)"
  proof (rule inv_settle)
    show "sm_inv (insert p X) P (upd_index (MarkConflicted (Some c)) sm4)"
      using recs_MarkConflicted by (intro inv_upd_index [OF i4]) blast
    have "p \<noteq> []" using assms(1,2) by (auto simp: sm_inv_def)
    then have "\<not> recd (upd_index (MarkConflicted (Some c)) sm4) p"
      using assms(3) by (auto simp: recs_def MarkConflicted_def)
    then show "q \<in> X \<or> \<not> recd (upd_index (MarkConflicted (Some c)) sm4) q \<or>
        side_path (sm_disk (upd_index (MarkConflicted (Some c)) sm4)) (meta_name (upd_index (MarkConflicted (Some c)) sm4) q) = Some q"
      if "q \<in> insert p X" for q
      using that by auto
  qed
  moreover have "sm4 = sm3" if "e2 \<noteq> None"
    using r2 that by (auto simp: remove_name_def ignore_not_exist_def os_Remove_def split: if_splits)
  moreover have "drop_conflicted fl p (stagingFilePath sm p) s c sm =
    (case e1 of Some e \<Rightarrow> (Inl e, sm3) | None \<Rightarrow>
      (case e2 of Some e \<Rightarrow> (Inl e, sm4) | None \<Rightarrow> (Inr (Some c), upd_index (MarkConflicted (Some c)) sm4)))"
    using r1 r2 assms(4) by (cases s; cases "sessionAt p sm")
      (auto simp: drop_conflicted_def sm2_def close_def pathMetadataPath_def split: option.split)
  ultimately show ?thesis using i3 by (auto split: option.split)
qed

lemma inv_RecordConflict:
  assumes "sm_inv X P sm" "p \<in> P" "rounds_ok rounds"
  shows "sm_inv X P (snd (RecordConflict fl now rounds p change sm))"
proof (cases "IsDirty p (sm_dirtyIndex sm)")
  case False
  then show ?thesis using assms(1) by (simp add: RecordConflict_def)
next
  case True
  obtain err sm1 where sy: "(case sessionAt p sm of None \<Rightarrow> (None, sm)
      | Some sid \<Rightarrow> run_session sid (WriteSession_Sync fl rounds) sm) = (err, sm1)" by (metis surj_pair)
  have k: "sm_inv X P sm1" "stagingFilePath sm1 = stagingFilePath sm" "lost_name sm1 = lost_name sm"
    "sessionAt q sm1 = sessionAt q sm" for q
    using sy assms(1) inv_sessionD(2) [OF assms(1), of p] keeps_open(3) [OF assms(3)] run_keeps
    by (auto split: option.splits dest: inv_run)
  have st: "(case sessionAt p sm of None \<Rightarrow> stagingFilePath sm p
      | Some sid \<Rightarrow> fst (WriteSession_Snapshot (sm_heap sm1 sid))) = stagingFilePath sm p"
    using inv_sessionD(4) [OF k(1), of p] k(2,4) by (auto simp: WriteSession_Snapshot_def split: option.split)
  let ?pp = "conflictFilePath p now sm1"
  have lost: "lost_name sm1 ?pp" "lost_name sm1 (?pp @ x)" for x
    by (simp_all add: lost_name_def conflictFilePath_def)
  have d: "sm_inv X P (sm1\<lparr>sm_disk := d\<rparr>)"
    if "\<And>f. f \<noteq> ?pp \<Longrightarrow> f \<noteq> ?pp @ x \<Longrightarrow> os_lookup d f = os_lookup (sm_disk sm1) f" for d x
    using that lost by (intro inv_disk_data [OF k(1) assms(2)]) metis
  obtain e2 d2 where cp: "copyFile fl now ?pp (stagingFilePath sm p) (sm_disk sm1) = (e2, d2)" by (metis surj_pair)
  define c where "c = conflict_record p change now ?pp (stagingFilePath sm p)
    (int (length (dk_inodes (sm_disk sm1) (the (data_inode (sm_disk sm1) (stagingFilePath sm p))))))
    (GetMetadata p (sm_dirtyIndex sm1))"
  have c: "cm_Path c = p" "cm_PreservedMetadataPath c = ?pp @ ''.metadata.json''"
    by (simp_all add: c_def conflict_record_def Let_def split: option.split)
  obtain e3 d3 where ws: "writeSidecarFile fl (cm_PreservedMetadataPath c) (ConflictDoc c) True d2 = (e3, d3)" by (metis surj_pair)
  have i2: "sm_inv X P (sm1\<lparr>sm_disk := d2\<rparr>)" "sm_inv X P (sm1\<lparr>sm_disk := d3\<rparr>)"
    using copyFile_lookup [OF cp] writeSidecar_lookup [OF ws] c(2) by (auto intro!: d [where x = "''.metadata.json''"])
  have "sm_inv X P (snd (drop_conflicted fl p (stagingFilePath sm p) (sessionAt p sm) c (sm1\<lparr>sm_disk := d3\<rparr>)))"
    using inv_drop_conflicted [OF i2(2) assms(2) c(1), of "sessionAt p sm" fl] k(2,4) by (simp add: sessionAt_def)
  then show ?thesis
    using True k(1) i2 ws
    by (cases "data_inode (sm_disk sm1) (stagingFilePath sm p)"; cases e3)
      (simp_all add: RecordConflict_def sy st cp Let_def c_def split: option.split)
qed

section \<open>Renames\<close>

lemma inv_disk_lookup:
  assumes "sm_inv X P (sm\<lparr>sm_disk := d\<rparr>)" "\<And>f. os_lookup d' f = os_lookup d f"
  shows "sm_inv X P (sm\<lparr>sm_disk := d'\<rparr>)"
proof (cases "P = {}")
  case True
  then show ?thesis using assms by (simp add: sm_inv_def sessions_ok_def sessionAt_def)
next
  case False
  then obtain p where "p \<in> P" by auto
  from inv_disk_data [OF assms(1) this, of d'] assms(2) show ?thesis by simp
qed

lemma inv_move:
  assumes "sm_inv X P sm" "p \<in> P" "q \<in> P" "os_Rename fl (stagingFilePath sm p) (stagingFilePath sm q) (sm_disk sm) = (e, d)"
  shows "sm_inv X P (sm\<lparr>sm_disk := d\<rparr>)"
proof -
  let ?d = "\<lambda>en. (sm_disk sm)\<lparr>dk_names := gm_set (stagingFilePath sm q) en (dk_names (sm_disk sm))\<rparr>"
  have "sm_inv X P (sm\<lparr>sm_disk := ?d en\<rparr>)" for en
    by (rule inv_disk_data [OF assms(1,3)]) (simp add: os_lookup_def)
  then have "sm_inv X P (sm\<lparr>sm_disk := (?d en)\<lparr>dk_names := gm_del (stagingFilePath sm p) (dk_names (?d en))\<rparr>\<rparr>)" for en
    using inv_disk_data [OF _ assms(2), of X "sm\<lparr>sm_disk := ?d en\<rparr>"
        "(?d en)\<lparr>dk_names := gm_del (stagingFilePath sm p) (dk_names (?d en))\<rparr>"] by (simp add: os_lookup_def)
  then have "sm_inv X P (sm\<lparr>sm_disk := (sm_disk sm)\<lparr>dk_names := gm_set (stagingFilePath sm q) en (gm_del (stagingFilePath sm p) (dk_names (sm_disk sm)))\<rparr>\<rparr>)"
    if "stagingFilePath sm p \<noteq> stagingFilePath sm q" for en
    by (rule inv_disk_lookup) (use that in \<open>auto simp: os_lookup_def\<close>)
  then show ?thesis using assms(1,4) by (auto simp: os_Rename_def split: option.splits if_splits)
qed

lemma inv_drop_entry:
  assumes "sm_inv X P sm" "p \<in> P" shows "sm_inv X P (dropEntryWithoutStagedBytes fl p sm)"
proof -
  have "sm_inv X P (upd_index (DropEntry p) sm)" by (rule inv_upd_index [OF assms(1)]) auto
  from inv_remove_side [OF this assms(2), of fl] show ?thesis
    by (simp add: dropEntryWithoutStagedBytes_def removePathMetadata_def)
qed

lemma inv_restore:
  assumes "sm_inv X P sm" "p \<in> P" "\<And>s. r = Some s \<Longrightarrow> ps_OriginalPath s = p"
  shows "sm_inv X P (restorePathMetadata fl now p (meta_name sm p) r sm)"
proof -
  obtain e sm1 where w: "(case r of Some state \<Rightarrow> (case writePathMetadataState fl (meta_name sm p) (Some state) (sm_disk sm) of
        (e, _, d) \<Rightarrow> (e, sm\<lparr>sm_disk := d\<rparr>)) | None \<Rightarrow> remove_name fl (meta_name sm p) sm) = (e, sm1)" by (metis surj_pair)
  have k: "sm_inv (insert p X) P sm1" "stagingFilePath sm1 = stagingFilePath sm" "\<not> IsDirty p (sm_dirtyIndex sm1) \<Longrightarrow> \<not> recd sm1 p"
    "r \<noteq> None \<Longrightarrow> sm_inv X P sm1"
  proof -
    have "sm_inv X P sm1" if "r = Some s" for s
      using w that inv_write_side [OF assms(1,2) assms(3) [OF that]] by (auto split: prod.splits)
    moreover have "sm_inv (insert p X) P sm1" if "r = None"
      using w that inv_remove_side [OF inv_weaken [OF assms(1)] assms(2), of "insert p X" fl] by auto
    ultimately show "sm_inv (insert p X) P sm1" "r \<noteq> None \<Longrightarrow> sm_inv X P sm1"
      by (cases r; auto intro: inv_weaken)+
    show "stagingFilePath sm1 = stagingFilePath sm"
      using w by (auto split: option.splits prod.splits dest!: remove_name_disk)
  qed (rule recd_IsDirty)
  obtain a sm2 where rd: "recordDirtyPathLocked fl now p (sessionAttributesIfSet (session_at p sm1)) sm1 = (a, sm2)"
    by (metis surj_pair)
  note q = inv_recordDirty [OF k(1) assms(2) rd]
  have settled: "sm_inv X P sm'" if "sm_inv (insert p X) P sm'" "\<not> recd sm' p \<or> side_path (sm_disk sm') (meta_name sm' p) = Some p" for sm'
    using that by (intro inv_settle [OF that(1)]) auto
  have g: "sm_inv X P (case a of Inl _ \<Rightarrow> upd_index (MarkUnrecorded p) sm2 | Inr _ \<Rightarrow> sm2)"
  proof (cases a)
    case (Inl e')
    have "sm_inv (insert p X) P (upd_index (MarkUnrecorded p) sm2)" by (rule inv_upd_index [OF q(1)]) auto
    then show ?thesis using Inl settled [of "upd_index (MarkUnrecorded p) sm2"] by simp
  next
    case (Inr s')
    then show ?thesis using q(1,3) q(2) [OF Inr] by (auto intro!: settled)
  qed
  have "sm_inv X P sm1" if "\<not> ((r = None \<or> e \<noteq> None) \<and> IsDirty p (sm_dirtyIndex sm1))"
    using that k(3,4) by (cases "r = None") (auto intro!: settled [OF k(1)])
  with g have "sm_inv X P (if (r = None \<or> e \<noteq> None) \<and> IsDirty p (sm_dirtyIndex sm1)
      then case a of Inl _ \<Rightarrow> upd_index (MarkUnrecorded p) sm2 | Inr _ \<Rightarrow> sm2 else sm1)" by simp
  then show ?thesis
    by (auto simp: restorePathMetadata_def w rd Let_def case_prod_unfold split: option.split sum.splits intro!: inv_session)
qed

text \<open>
  Once the bytes have moved, the session of the source already names the staging file of the
  destination while it is still registered under the source: the sessions are dealt with apart from the
  disk and the index.
\<close>

lemma heap_commutes:
  "snd (addTombstone fl now p (sm\<lparr>sm_heap := h\<rparr>)) = (snd (addTombstone fl now p sm))\<lparr>sm_heap := h\<rparr>"
  "snd (remove_name fl f (sm\<lparr>sm_heap := h\<rparr>)) = (snd (remove_name fl f sm))\<lparr>sm_heap := h\<rparr>"
  by (simp_all add: addTombstone_def remove_name_def Let_def tombstoneFilePath_def tombstoneDir_def split: prod.split option.split)

lemma rekey_shape:
  "\<exists>h ss. rekey_sessions fl p q st sm = sm\<lparr>sm_heap := h, sm_sessions := ss\<rparr>"
proof -
  have "\<exists>h ss. sm = sm\<lparr>sm_heap := h, sm_sessions := ss\<rparr>" for sm :: StagingManager by (metis StagingManager.surjective StagingManager.update_convs(4,5))
  moreover have "\<exists>h ss. upd_session s f (sm\<lparr>sm_sessions := x\<rparr>) = sm\<lparr>sm_heap := h, sm_sessions := ss\<rparr>" for s f x and sm :: StagingManager
    by (cases sm) (auto simp: upd_session_def)
  moreover have "\<exists>h ss. upd_session s f (upd_session s' f' (sm\<lparr>sm_sessions := x\<rparr>)\<lparr>sm_sessions := y\<rparr>) = sm\<lparr>sm_heap := h, sm_sessions := ss\<rparr>" for s f s' f' x y and sm :: StagingManager
    by (cases sm) (auto simp: upd_session_def)
  ultimately show ?thesis by (auto simp: rekey_sessions_def Let_def split: option.split)
qed

lemma rekey_sessions_ok:
  assumes "sessions_ok P sm" "p \<in> P" "q \<in> P" "p \<noteq> q"
    and "\<And>sid. sessionAt p sm = Some sid \<Longrightarrow> h = (sm_heap sm)(sid := ws) \<and> ws_Path ws = p"
    and "sessionAt p sm = None \<Longrightarrow> h = sm_heap sm"
  shows "sessions_ok P (rekey_sessions fl p q (stagingFilePath sm q) (sm\<lparr>sm_heap := h\<rparr>))"
proof -
  have d: "gm_get (sm_sessions sm) r = Some s \<Longrightarrow> r \<in> P \<and> s < sm_nextSession sm \<and> ws_Path (sm_heap sm s) = r \<and>
      ws_StagingPath (sm_heap sm s) = stagingFilePath sm r" for r s
    using assms(1) by (auto simp: sessions_ok_def sessionAt_def)
  have e: "s < sm_nextSession sm \<Longrightarrow> \<exists>r \<in> P. ws_StagingPath (sm_heap sm s) = stagingFilePath sm r" for s
    using assms(1) by (auto simp: sessions_ok_def)
  show ?thesis
  proof (cases "gm_get (sm_sessions sm) p")
    case None
    then show ?thesis using d e assms(4,6)
      by (auto simp: rekey_sessions_def Let_def sessions_ok_def sessionAt_def upd_session_def split: option.split)
  next
    case (Some sid)
    have h: "h = (sm_heap sm)(sid := ws)" "ws_Path ws = p" using assms(5) Some by (auto simp: sessionAt_def)
    have ne: "s \<noteq> sid" if "gm_get (sm_sessions sm) r = Some s" "r \<noteq> p" for r s
      using d [OF that(1)] d [OF Some] that(2) by auto
    have ne2: "s \<noteq> s2" if "gm_get (sm_sessions sm) r = Some s" "gm_get (sm_sessions sm) r2 = Some s2" "r \<noteq> r2" for r s r2 s2
      using d [OF that(1)] d [OF that(2)] that(3) by auto
    show ?thesis
      using d e ne ne2 assms(3,4) d [OF Some] Some unfolding h(1)
      by (cases "gm_get (sm_sessions sm) q")
        (auto simp: rekey_sessions_def Let_def sessions_ok_def sessionAt_def upd_session_def WriteSession_Rekey_def)
  qed
qed

lemma inv_finish:
  assumes "sm_inv X P sm" "p \<in> P" "q \<in> P" "p \<noteq> q" "side_path (sm_disk sm) (meta_name sm q) = Some q"
    and "\<And>sid. sessionAt p sm = Some sid \<Longrightarrow> h = (sm_heap sm)(sid := ws) \<and> ws_Path ws = p"
    and "sessionAt p sm = None \<Longrightarrow> h = sm_heap sm"
  shows "sm_inv X P (finish_rename fl now p q (sm\<lparr>sm_heap := h\<rparr>))"
proof -
  define sm1 where "sm1 = snd (addTombstone fl now p sm)"
  define sm2 where "sm2 = snd (remove_name fl (meta_name sm p) sm1)"
  have f1: "stagingFilePath sm1 = stagingFilePath sm" "sm_sessions sm1 = sm_sessions sm" "sm_heap sm1 = sm_heap sm"
    "sm_nextSession sm1 = sm_nextSession sm" by (simp_all add: sm1_def)
  then have f2: "stagingFilePath sm2 = stagingFilePath sm" "sm_sessions sm2 = sm_sessions sm" "sm_heap sm2 = sm_heap sm"
    "sm_nextSession sm2 = sm_nextSession sm" by (simp_all add: sm2_def)
  have i1: "sm_inv X P sm1" unfolding sm1_def by (rule inv_addTombstone [OF assms(1,2)])
  have i2: "sm_inv (insert p X) P sm2"
    unfolding sm2_def using inv_remove_side [OF inv_weaken [OF i1] assms(2), of "insert p X" fl] f1(1) by auto
  have nm: "meta_name sm q \<noteq> f" if "f \<in> names_of sm p" for f
    using names_disjoint [of P sm p q f] assms(1-4) that by (auto simp: sm_inv_def names_of_def)
  have l1: "os_lookup (sm_disk sm1) (meta_name sm q) = os_lookup (sm_disk sm) (meta_name sm q)"
    using nm [of "tombstoneFilePath sm p"] nm [of "tmp_name (tombstoneFilePath sm p)"] replace_doc_lookup
    by (auto simp: sm1_def addTombstone_def writeTombstoneState_def Let_def names_of_def split: prod.split option.split)
  have l2: "os_lookup (sm_disk sm2) (meta_name sm q) = os_lookup (sm_disk sm1) (meta_name sm q)"
    using nm [of "meta_name sm p"] by (simp add: sm2_def remove_name_def names_of_def os_lookup_Remove split: prod.split)
      (metis os_lookup_Remove snd_conv)
  have side: "side_path (sm_disk sm2) (meta_name sm q) = Some q"
    using assms(5) side_path_cong [OF l1] side_path_cong [OF l2] by simp
  obtain h' ss where sh: "rekey_sessions fl p q (stagingFilePath sm q) (sm2\<lparr>sm_heap := h\<rparr>) = sm2\<lparr>sm_heap := h', sm_sessions := ss\<rparr>"
    using rekey_shape [of fl p q "stagingFilePath sm q" "sm2\<lparr>sm_heap := h\<rparr>"] by auto
  have "sessions_ok P (sm2\<lparr>sm_heap := h', sm_sessions := ss\<rparr>)"
    unfolding sh [symmetric] using rekey_sessions_ok [of P sm2 p q h ws fl] i2 assms(2-4,6,7) f2
    by (auto simp: sm_inv_def sessionAt_def)
  then have i3: "sm_inv (insert p X) P (sm2\<lparr>sm_heap := h', sm_sessions := ss\<rparr>)"
    by (intro inv_same_names [OF i2]) (simp_all add: same_names_def)
  let ?sm = "upd_index (DirtyFileIndex_Rekey now p q (stagingFilePath sm q)) (sm2\<lparr>sm_heap := h', sm_sessions := ss\<rparr>)"
  have "sm_inv (insert p X) P ?sm"
    using side f2(1) by (intro inv_upd_index [OF i3]) (auto simp: recs_Rekey)
  then have "sm_inv X P ?sm"
    using assms(4) by (elim inv_settle) (auto simp: recs_Rekey)
  moreover have "finish_rename fl now p q (sm\<lparr>sm_heap := h\<rparr>) = ?sm"
    by (simp add: finish_rename_def Let_def heap_commutes sm1_def [symmetric] sm2_def [symmetric] sh)
  ultimately show ?thesis by simp
qed

lemma move_staged_shape:
  assumes "sm_inv X P sm" "p \<in> P" "q \<in> P" "p \<noteq> q" "move_staged fl p (stagingFilePath sm p) (stagingFilePath sm q) sm = (e, sm')"
  shows "\<exists>d h. sm' = sm\<lparr>sm_disk := d, sm_heap := h\<rparr> \<and> sm_inv X P (sm\<lparr>sm_disk := d\<rparr>) \<and>
    (e \<noteq> None \<longrightarrow> h = sm_heap sm \<and> d = sm_disk sm) \<and> side_path d (meta_name sm q) = side_path (sm_disk sm) (meta_name sm q) \<and>
    (sessionAt p sm = None \<longrightarrow> h = sm_heap sm) \<and>
    (\<forall>sid. sessionAt p sm = Some sid \<longrightarrow> (\<exists>ws. h = (sm_heap sm)(sid := ws) \<and> ws_Path ws = p))"
proof -
  obtain e' d where r: "os_Rename fl (stagingFilePath sm p) (stagingFilePath sm q) (sm_disk sm) = (e', d)" by (metis surj_pair)
  have i: "sm_inv X P (sm\<lparr>sm_disk := d\<rparr>)" by (rule inv_move [OF assms(1-3) r])
  have e': "e' \<noteq> None \<Longrightarrow> d = sm_disk sm" using r by (auto simp: os_Rename_def split: option.splits if_splits)
  have "meta_name sm q \<noteq> stagingFilePath sm p"
    using names_disjoint [of P sm q p "meta_name sm q"] assms(1-4) by (auto simp: sm_inv_def names_of_def)
  then have "os_lookup d (meta_name sm q) = os_lookup (sm_disk sm) (meta_name sm q)"
    using r names_distinct(1) [of sm q] by (auto simp: os_Rename_def os_lookup_def split: option.splits if_splits)
  then have s: "side_path d (meta_name sm q) = side_path (sm_disk sm) (meta_name sm q)" by (rule side_path_cong)
  have swap: "sm\<lparr>sm_heap := h, sm_disk := d\<rparr> = sm\<lparr>sm_disk := d, sm_heap := h\<rparr>" for h by (cases sm) simp
  show ?thesis
  proof (cases "sessionAt p sm")
    case None
    then have "e = e'" "sm' = sm\<lparr>sm_disk := d\<rparr>" using assms(5) r by (auto simp: move_staged_def)
    then show ?thesis using i e' s None by (intro exI [of _ d] exI [of _ "sm_heap sm"]) auto
  next
    case (Some sid)
    let ?ws = "(sm_heap sm sid)\<lparr>ws_StagingPath := stagingFilePath sm q, ws_metadataVersion := ws_metadataVersion (sm_heap sm sid) + 1\<rparr>"
    let ?h = "if e' = None then (sm_heap sm)(sid := ?ws) else sm_heap sm"
    have "e = e'" "sm' = sm\<lparr>sm_disk := d, sm_heap := ?h\<rparr>"
      using assms(5) r Some
      by (auto simp: move_staged_def run_session_def moveStagingFile_def swap split: option.splits)
    then show ?thesis
      using i e' s Some inv_sessionD(3) [OF assms(1) Some]
      by (intro exI [of _ d] exI [of _ ?h]) (auto intro: exI [of _ "sm_heap sm sid"] exI [of _ ?ws])
  qed
qed

lemma begin_end_rename:
  "sm_inv X P sm \<Longrightarrow> sm_inv X P (beginRenameOnto q sm)" "sm_inv X P sm \<Longrightarrow> sm_inv X P (endRenameOnto q sm)"
  by (auto simp: beginRenameOnto_def endRenameOnto_def Let_def intro: inv_fields)

lemma rename_target_fields [simp]:
  "stagingFilePath (beginRenameOnto q sm) = stagingFilePath sm"
  by (simp add: beginRenameOnto_def)

lemma inv_Rename:
  assumes "sm_inv X P sm" "p \<in> P" "q \<in> P" "p \<noteq> q"
  shows "sm_inv X P (snd (RenameStagedPath fl now p q sm))"
proof -
  define sm1 where "sm1 = snd (CancelPendingDelete fl q (beginRenameOnto q sm))"
  define st where "st = renamed_state fl now p q sm1"
  define sm2 where "sm2 = upd_index (Invalidate q) sm1"
  define old where "old = (case readPathMetadataState fl (meta_name sm q) (sm_disk sm2) of Inr r \<Rightarrow> Some r | Inl _ \<Rightarrow> None)"
  obtain e s' d where w: "writePathMetadataState fl (meta_name sm q) (Some st) (sm_disk sm2) = (e, s', d)" by (metis surj_pair)
  define sm3 where "sm3 = sm2\<lparr>sm_disk := d\<rparr>"
  have f: "stagingFilePath sm1 = stagingFilePath sm" "stagingFilePath sm2 = stagingFilePath sm" "stagingFilePath sm3 = stagingFilePath sm"
    by (simp_all add: sm1_def sm2_def sm3_def)
  have i2: "sm_inv X P sm2"
    unfolding sm2_def sm1_def
    by (intro inv_upd_index inv_pending_delete begin_end_rename assms(1,3)) auto
  have st: "ps_OriginalPath st = q" by (simp add: st_def renamed_state_def Let_def)
  have i3: "sm_inv X P sm3" unfolding sm3_def
    by (rule inv_write_side [OF i2 assms(3) st, of fl _ s']) (use w f in auto)
  have side: "side_path (sm_disk sm3) (meta_name sm3 q) = Some q" if "e = None"
    using write_side_path(1) [OF w] that st f by (simp add: sm3_def)
  have old: "ps_OriginalPath s = q" if "old = Some s" for s
    using that path_okD(1) [OF i2 assms(3)] f(2) by (auto simp: old_def read_sidecar side_path_def split: sum.splits)
  obtain e4 sm4 where mv: "move_staged fl p (stagingFilePath sm p) (stagingFilePath sm q) sm3 = (e4, sm4)" by (metis surj_pair)
  obtain d4 h where m: "sm4 = sm3\<lparr>sm_disk := d4, sm_heap := h\<rparr>" "sm_inv X P (sm3\<lparr>sm_disk := d4\<rparr>)"
    "e4 \<noteq> None \<Longrightarrow> h = sm_heap sm3 \<and> d4 = sm_disk sm3" "side_path d4 (meta_name sm3 q) = side_path (sm_disk sm3) (meta_name sm3 q)"
    "sessionAt p sm3 = None \<Longrightarrow> h = sm_heap sm3"
    "\<And>sid. sessionAt p sm3 = Some sid \<Longrightarrow> \<exists>ws. h = (sm_heap sm3)(sid := ws) \<and> ws_Path ws = p"
    using move_staged_shape [OF i3 assms(2-4), of fl e4 sm4] mv f by auto
  have fin: "sm_inv X P (finish_rename fl now p q sm4)" if "e = None" "e4 = None"
  proof -
    obtain ws where "\<And>sid. sessionAt p sm3 = Some sid \<Longrightarrow> h = (sm_heap sm3)(sid := ws) \<and> ws_Path ws = p"
      using m(6) by (cases "sessionAt p sm3") auto
    with m(5) side [OF that(1)] m(4) show ?thesis unfolding m(1)
      by (intro inv_finish [OF m(2) assms(2-4), where ws = ws]) (auto simp: sessionAt_def)
  qed
  have keep: "sm_inv X P sm4" "stagingFilePath sm4 = stagingFilePath sm" if "e4 \<noteq> None"
    using i3 m(3) [OF that] f by (simp_all add: m(1))
  have res: "sm_inv X P (restorePathMetadata fl now q (meta_name sm q) old sm4)" if "e4 \<noteq> None"
    using inv_restore [OF keep(1) [OF that] assms(3) old, of old fl now] keep(2) [OF that] by simp
  show ?thesis
  proof (cases "IsConflicted p (sm_dirtyIndex sm) \<or> IsConflicted q (sm_dirtyIndex sm) \<or>
      os_lookup (sm_disk sm) (stagingFilePath sm p) = None \<or> fl OpStat (stagingFilePath sm p)")
    case True
    then show ?thesis using assms(1) inv_drop_entry [OF assms(1,2)] 
      by (cases "os_lookup (sm_disk sm) (stagingFilePath sm p)") (auto simp: RenameStagedPath_def Let_def)
  next
    case False
    then have eq: "RenameStagedPath fl now p q sm = (case e of Some e \<Rightarrow> (Some (EPersist e), endRenameOnto q sm3)
      | None \<Rightarrow> (case (e4, sm4) of
          (Some e, sm4) \<Rightarrow> let sm5 = restorePathMetadata fl now q (meta_name sm q) old sm4;
             sm6 = (if e = ENotExist then dropEntryWithoutStagedBytes fl p sm5 else sm5) in (Some e, endRenameOnto q sm6)
        | (None, sm4) \<Rightarrow> (None, endRenameOnto q (finish_rename fl now p q sm4))))"
      unfolding RenameStagedPath_def Let_def sm1_def [symmetric] st_def [symmetric] sm2_def [symmetric] old_def [symmetric]
      using w mv by (auto simp: sm3_def split: option.split)
    show ?thesis unfolding eq Let_def
      using i3 fin res by (auto split: option.split intro!: begin_end_rename inv_drop_entry assms(2))
  qed
qed

end
