(* ===== verification/Manager_Recovery.thy ===== *)
theory Manager_Recovery
  imports Manager_Steps
begin

text \<open>
  Restarting the staging manager: the invariant holds again after \<^verbatim>\<open>NewStagingManager\<close> on the disk
  that an earlier process left, whatever system calls fail, and without faults nothing that was recorded
  on disk is forgotten.
\<close>

section \<open>The names in the directories\<close>

lemma read_dir_names:
  assumes "sm_inv X P sm" "name \<in> set (os_ReadDir (sm_disk sm) (activeDir sm))"
  shows "\<exists>q \<in> P. name \<in> {sm_hash sm q @ ''.data'', sm_hash sm q @ ''.data.metadata'', sm_hash sm q @ ''.data.metadata.tmp''}"
proof -
  have "os_lookup (sm_disk sm) (activeDir sm @ ''/'' @ name) \<noteq> None"
    using assms(2) gm_keys_dom [of "dk_names (sm_disk sm)"]
    by (auto simp: os_ReadDir_def os_lookup_def prefix_def dom_def)
  then consider "lost_name sm (activeDir sm @ ''/'' @ name)" | q where "q \<in> P" "activeDir sm @ ''/'' @ name \<in> names_of sm q"
    using assms(1) by (auto simp: sm_inv_def)
  then show ?thesis
    by cases (auto simp: lost_name_def names_of_def name_defs prefix_def)
qed

lemma read_dir_member:
  assumes "os_lookup d (dir @ ''/'' @ name) \<noteq> None" "CHR ''/'' \<notin> set name"
  shows "name \<in> set (os_ReadDir d dir)"
proof -
  have "dir @ ''/'' @ name \<in> set (gm_keys (dk_names d))"
    using assms(1) unfolding gm_keys_dom by (auto simp: os_lookup_def)
  then have "name \<in> (\<lambda>p. drop (length dir + 1) p) ` {p \<in> set (gm_keys (dk_names d)).
      prefix (dir @ ''/'') p \<and> CHR ''/'' \<notin> set (drop (length dir + 1) p)}"
    using assms(2) by (intro image_eqI [of _ _ "dir @ ''/'' @ name"]) auto
  then show ?thesis by (simp add: os_ReadDir_def)
qed

lemma tomb_dir_names:
  assumes "sm_inv X P sm" "os_lookup (sm_disk sm) (tombstoneDir sm @ ''/'' @ name) \<noteq> None" "suffix ''.tombstone.json'' name"
  shows "\<exists>q \<in> P. tombstoneDir sm @ ''/'' @ name = tombstoneFilePath sm q"
proof -
  consider "lost_name sm (tombstoneDir sm @ ''/'' @ name)" | q where "q \<in> P" "tombstoneDir sm @ ''/'' @ name \<in> names_of sm q"
    using assms(1,2) by (auto simp: sm_inv_def)
  then show ?thesis
    using assms(3) by cases (auto simp: lost_name_def names_of_def name_defs prefix_def suffix_to_prefix)
qed

section \<open>Tombstones\<close>

lemma inv_tombstones_set:
  assumes "sm_inv X P sm" "q \<in> P" "tomb_path (sm_disk sm) (tombstoneFilePath sm q) = Some q"
  shows "sm_inv X P (sm\<lparr>sm_tombstones := gm_set q t (sm_tombstones sm)\<rparr>)"
proof -
  have "path_ok X (sm\<lparr>sm_tombstones := gm_set q t (sm_tombstones sm)\<rparr>) r" if "r \<in> P" for r
    using assms that by (auto simp: sm_inv_def path_ok_def recd_def)
  then show ?thesis
    using assms(1) unfolding sm_inv_def sessions_ok_def sessionAt_def by (simp add: names_of_def lost_name_def)
qed

text \<open>What reading the tombstones changes: tombstones in memory, and invalid files of the directory.\<close>

definition tomb_frame :: "StagingManager \<Rightarrow> StagingManager \<Rightarrow> bool" where
  "tomb_frame sm sm' \<longleftrightarrow> (\<exists>d ts. sm' = sm\<lparr>sm_disk := d, sm_tombstones := ts\<rparr> \<and>
     (\<forall>q. gm_has (sm_tombstones sm) q \<longrightarrow> gm_has ts q) \<and>
     (\<forall>f. tomb_path d f = tomb_path (sm_disk sm) f) \<and> dk_inodes d = dk_inodes (sm_disk sm) \<and>
     dk_mtime d = dk_mtime (sm_disk sm) \<and>
     (\<forall>f. \<not> prefix (tombstoneDir sm) f \<longrightarrow> os_lookup d f = os_lookup (sm_disk sm) f))"

lemma tomb_frame_refl [simp]: "tomb_frame sm sm"
  unfolding tomb_frame_def by (rule exI [of _ "sm_disk sm"], rule exI [of _ "sm_tombstones sm"]) simp

lemma tomb_frame_trans: "tomb_frame a b \<Longrightarrow> tomb_frame b c \<Longrightarrow> tomb_frame a c"
  unfolding tomb_frame_def
  by (elim exE conjE, rule_tac x = da in exI, rule_tac x = tsa in exI) (auto simp: tombstoneDir_def)

lemma recover_tombstone_step:
  assumes "sm_inv X P sm" "recover_tombstone fl name (n, sm) = (n', sm')"
  shows "sm_inv X P sm' \<and> tomb_frame sm sm' \<and>
    (\<forall>q \<in> P. (\<forall>a b. \<not> fl a b) \<longrightarrow> tombstoneDir sm @ ''/'' @ name = tombstoneFilePath sm q \<longrightarrow>
       tomb_path (sm_disk sm) (tombstoneFilePath sm q) \<noteq> None \<longrightarrow> gm_has (sm_tombstones sm') q)"
proof (cases "suffix ''.tombstone.json'' name \<and> os_lookup (sm_disk sm) (tombstoneDir sm @ ''/'' @ name) \<noteq> None \<and>
    \<not> fl OpRead (tombstoneDir sm @ ''/'' @ name)")
  case False
  then show ?thesis using assms by (auto simp: recover_tombstone_def Let_def tomb_path_def name_defs suffix_def split: if_splits)
next
  case True
  let ?f = "tombstoneDir sm @ ''/'' @ name" and ?d = "snd (os_Remove fl (tombstoneDir sm @ ''/'' @ name) (sm_disk sm))"
  obtain q where q: "q \<in> P" "?f = tombstoneFilePath sm q" using tomb_dir_names [OF assms(1)] True by auto
  have uq: "r = q" if "r \<in> P" "tombstoneDir sm @ ''/'' @ name = tombstoneFilePath sm r" for r
    using that q assms(1) by (auto simp: tombstoneFilePath_def sm_inv_def hash_ok_def inj_on_def)
  show ?thesis
  proof (cases "tomb_path (sm_disk sm) ?f")
    case None
    then have n: "sm' = sm\<lparr>sm_disk := ?d\<rparr>"
      using assms(2) True by (auto simp: recover_tombstone_def Let_def tomb_path_def split: option.splits dir_entry.splits json_doc.splits)
    have t: "tomb_path ?d g = tomb_path (sm_disk sm) g" for g
      using None by (cases "g = ?f") (auto simp: tomb_path_def os_lookup_Remove)
    have i: "sm_inv X P sm'" unfolding n
      by (rule inv_disk_tomb [OF assms(1) q(1)]) (use q(2) t in \<open>auto simp: os_lookup_Remove\<close>)
    have "tomb_frame sm sm'"
      unfolding tomb_frame_def n using t
      by (intro exI [of _ ?d] exI [of _ "sm_tombstones sm"])
        (auto simp: os_lookup_Remove, auto simp: os_Remove_def)
    then show ?thesis using i None q(2) by auto
  next
    case (Some r)
    then have "r = q" using path_okD(2) [OF assms(1) q(1)] q(2) by auto
    moreover have "q \<noteq> []" using assms(1) q(1) by (auto simp: sm_inv_def)
    ultimately obtain t where n: "sm' = sm\<lparr>sm_tombstones := gm_set q t (sm_tombstones sm)\<rparr>"
      using assms(2) True Some
      by (auto simp: recover_tombstone_def Let_def tomb_path_def split: option.splits dir_entry.splits json_doc.splits if_splits)
    have i: "sm_inv X P sm'" unfolding n by (rule inv_tombstones_set [OF assms(1) q(1)]) (use Some q(2) \<open>r = q\<close> in simp)
    have "tomb_frame sm sm'"
      unfolding tomb_frame_def n by (intro exI [of _ "sm_disk sm"] exI [of _ "gm_set q t (sm_tombstones sm)"]) auto
    then show ?thesis using i uq n by auto
  qed
qed

lemma recover_tombstones_fold:
  assumes "sm_inv X P sm" "fold (recover_tombstone fl) names (n, sm) = (n', sm')"
  shows "sm_inv X P sm' \<and> tomb_frame sm sm' \<and>
    (\<forall>name \<in> set names. \<forall>q \<in> P. (\<forall>a b. \<not> fl a b) \<longrightarrow> tombstoneDir sm @ ''/'' @ name = tombstoneFilePath sm q \<longrightarrow>
       tomb_path (sm_disk sm) (tombstoneFilePath sm q) \<noteq> None \<longrightarrow> gm_has (sm_tombstones sm') q)"
  using assms
proof (induction names arbitrary: n sm)
  case (Cons name names)
  obtain n1 sm1 where s: "recover_tombstone fl name (n, sm) = (n1, sm1)" by (metis surj_pair)
  note a = recover_tombstone_step [OF Cons(2) s]
  have b: "sm_inv X P sm' \<and> tomb_frame sm1 sm' \<and>
    (\<forall>name \<in> set names. \<forall>q \<in> P. (\<forall>a b. \<not> fl a b) \<longrightarrow> tombstoneDir sm1 @ ''/'' @ name = tombstoneFilePath sm1 q \<longrightarrow>
       tomb_path (sm_disk sm1) (tombstoneFilePath sm1 q) \<noteq> None \<longrightarrow> gm_has (sm_tombstones sm') q)"
    using a Cons(3) s by (intro Cons.IH) auto
  have nm: "tombstoneDir sm1 = tombstoneDir sm" "tombstoneFilePath sm1 = tombstoneFilePath sm"
      "tomb_path (sm_disk sm1) f = tomb_path (sm_disk sm) f" "\<And>q. gm_has (sm_tombstones sm1) q \<Longrightarrow> gm_has (sm_tombstones sm') q" for f
    using a b unfolding tomb_frame_def by auto
  have "tomb_frame sm sm'" using a b tomb_frame_trans by blast
  moreover have "gm_has (sm_tombstones sm') q"
    if "name' = name \<or> name' \<in> set names" "q \<in> P" "\<forall>a b. \<not> fl a b" "tombstoneDir sm @ ''/'' @ name' = tombstoneFilePath sm q"
      "tomb_path (sm_disk sm) (tombstoneFilePath sm q) \<noteq> None" for name' q
    using that(1)
  proof
    assume "name' = name"
    with that(2-) a show ?thesis by (intro nm(4)) blast
  next
    assume "name' \<in> set names"
    with that(2-) b nm(1-3) show ?thesis by simp
  qed
  ultimately show ?case using b by simp
qed simp

lemma recoverTombstones:
  assumes "sm_inv X P sm" "recoverTombstonesFromDisk fl sm = (n', sm')"
  shows "sm_inv X P sm'" "tomb_frame sm sm'"
    "\<And>q. q \<in> P \<Longrightarrow> (\<forall>a b. \<not> fl a b) \<Longrightarrow> CHR ''/'' \<notin> set (sm_hash sm q) \<Longrightarrow> tomb_path (sm_disk sm) (tombstoneFilePath sm q) \<noteq> None \<Longrightarrow> gm_has (sm_tombstones sm') q"
proof -
  note f = recover_tombstones_fold [OF assms(1), of fl "os_ReadDir (sm_disk sm) (tombstoneDir sm)" 0]
  show "sm_inv X P sm'" "tomb_frame sm sm'"
    using f assms by (auto simp: recoverTombstonesFromDisk_def split: if_splits)
  show "gm_has (sm_tombstones sm') q" if "q \<in> P" "(\<forall>a b. \<not> fl a b)" "CHR ''/'' \<notin> set (sm_hash sm q)" "tomb_path (sm_disk sm) (tombstoneFilePath sm q) \<noteq> None" for q
  proof -
    let ?n = "sm_hash sm q @ ''.tombstone.json''"
    have "?n \<in> set (os_ReadDir (sm_disk sm) (tombstoneDir sm))"
      by (rule read_dir_member) (use that(3,4) in \<open>auto simp: tombstoneFilePath_def tomb_path_def split: option.splits\<close>)
    then show ?thesis
      using f assms(2) that by (auto simp: recoverTombstonesFromDisk_def tombstoneFilePath_def)
  qed
qed

section \<open>Staged files\<close>

text \<open>What the recovery of one path leaves alone: every other path.\<close>

definition disk_frame :: "string \<Rightarrow> Disk \<Rightarrow> Disk \<Rightarrow> bool" where
  "disk_frame g d d' \<longleftrightarrow> dk_inodes d' = dk_inodes d \<and> dk_mtime d' = dk_mtime d \<and>
     (\<forall>f. f \<noteq> g \<longrightarrow> f \<noteq> pathMetadataPath g \<longrightarrow> f \<noteq> tmp_name (pathMetadataPath g) \<longrightarrow> os_lookup d' f = os_lookup d f)"

definition entry_frame :: "string \<Rightarrow> StagingManager \<Rightarrow> StagingManager \<Rightarrow> bool" where
  "entry_frame q sm sm' \<longleftrightarrow> same_names sm sm' \<and> sm_tombstones sm' = sm_tombstones sm \<and>
     di_conflicts (sm_dirtyIndex sm') = di_conflicts (sm_dirtyIndex sm) \<and>
     disk_frame (stagingFilePath sm q) (sm_disk sm) (sm_disk sm') \<and>
     (\<forall>r. r \<noteq> q \<longrightarrow> gm_get (di_dirty (sm_dirtyIndex sm')) r = gm_get (di_dirty (sm_dirtyIndex sm)) r \<and>
        sessionAt r sm' = sessionAt r sm \<and> (\<forall>sid. sessionAt r sm = Some sid \<longrightarrow> sm_heap sm' sid = sm_heap sm sid))"

lemma disk_frame_refl [simp]: "disk_frame g d d"
  by (simp add: disk_frame_def)

lemma disk_frame_trans: "disk_frame g a b \<Longrightarrow> disk_frame g b c \<Longrightarrow> disk_frame g a c"
  by (simp add: disk_frame_def)

lemma replace_doc_untouched: "replace_doc fl f doc b d = (e, d') \<Longrightarrow> dk_inodes d' = dk_inodes d \<and> dk_mtime d' = dk_mtime d"
  by (auto simp: replace_doc_def writeSidecarFile_def put_doc_def os_Rename_def os_Remove_def Let_def
      split: if_splits prod.splits option.splits)

lemma disk_frame_write:
  assumes "writePathMetadataState fl (pathMetadataPath g) (Some s) d = (e, s', d')" shows "disk_frame g d d'"
proof -
  have "dk_inodes d' = dk_inodes d \<and> dk_mtime d' = dk_mtime d"
    using assms replace_doc_untouched by (auto simp: writePathMetadataState_def Let_def split: prod.splits)
  then show ?thesis using write_side_path(2) [OF assms] by (simp add: disk_frame_def)
qed

lemma disk_frame_remove:
  "f = g \<or> f = pathMetadataPath g \<Longrightarrow> disk_frame g d (snd (os_Remove fl f d))"
  by (auto simp: disk_frame_def os_lookup_Remove) (auto simp: os_Remove_def)

lemma disk_frame_new:
  assumes "data_inode d g = Some i" "NewWriteSession fl now True p g d = (r, d')"
  shows "disk_frame g d d' \<and> os_lookup d' g = os_lookup d g \<and>
    (\<forall>ws. r = Inr ws \<longrightarrow> ws_File ws = Some i) \<and> ((\<forall>a b. \<not> fl a b) \<longrightarrow> (\<exists>ws. r = Inr ws))"
proof -
  have l: "os_lookup d g = Some (DataFile i)" using assms(1) by (auto simp: data_inode_def split: option.splits dir_entry.splits)
  obtain e d2 where en: "EnsurePathMetadata fl p g d = (e, d2)" by (metis surj_pair)
  have "disk_frame g d d2 \<and> os_lookup d2 g = os_lookup d g"
    using en disk_frame_write write_side_path(2)
    by (auto simp: EnsurePathMetadata_def Let_def pathMetadataPath_def tmp_name_def
        split: sum.splits stg_error.splits prod.splits if_splits)
  then show ?thesis
    using assms(2) l en by (auto simp: NewWriteSession_def os_OpenCreate_def Let_def split: if_splits)
qed

lemma snd_remove_name: "snd (remove_name fl f sm) = sm\<lparr>sm_disk := snd (os_Remove fl f (sm_disk sm))\<rparr>"
  by (simp add: remove_name_def split: prod.split)

definition recovering :: "string set \<Rightarrow> StagingManager \<Rightarrow> bool" where
  "recovering P sm \<longleftrightarrow> sm_inv {} P sm \<and> (\<forall>q \<in> P. recd sm q \<longrightarrow> \<not> gm_has (sm_tombstones sm) q \<and>
     os_lookup (sm_disk sm) (stagingFilePath sm q) \<noteq> None)"

lemma frame_other:
  assumes "sm_inv X P sm" "q \<in> P" "r \<in> P" "r \<noteq> q" "disk_frame (stagingFilePath sm q) (sm_disk sm) d" "f \<in> names_of sm r"
  shows "os_lookup d f = os_lookup (sm_disk sm) f"
  using names_disjoint [of P sm r q f] assms by (auto simp: sm_inv_def names_of_def disk_frame_def)

lemma recovering_disk:
  assumes "recovering P sm" "q \<in> P" "disk_frame (stagingFilePath sm q) (sm_disk sm) d" "sm_inv {} P (sm\<lparr>sm_disk := d\<rparr>)"
    and "recd sm q \<Longrightarrow> os_lookup d (stagingFilePath sm q) \<noteq> None"
  shows "recovering P (sm\<lparr>sm_disk := d\<rparr>)"
proof -
  have i: "sm_inv {} P sm" using assms(1) by (simp add: recovering_def)
  have "os_lookup d (stagingFilePath sm r) \<noteq> None" if "r \<in> P" "recd sm r" for r
  proof (cases "r = q")
    case False
    then show ?thesis
      using frame_other [OF i assms(2) that(1) False assms(3), of "stagingFilePath sm r"] assms(1) that
      by (auto simp: recovering_def names_of_def)
  qed (use assms(5) that in auto)
  then show ?thesis using assms(1,4) by (simp add: recovering_def)
qed

text \<open>A staged file whose sidecar asks for recovery.\<close>

definition wanted :: "StagingManager \<Rightarrow> string \<Rightarrow> nat \<Rightarrow> bool" where
  "wanted sm q i \<longleftrightarrow> data_inode (sm_disk sm) (stagingFilePath sm q) = Some i \<and> \<not> gm_has (sm_tombstones sm) q \<and>
     (\<exists>s b. sidecar_at (sm_disk sm) (meta_name sm q) = Some (s, b) \<and>
        ps_ConflictStatus (normalize_path_state s) \<noteq> ConflictStatusConflicted)"

lemma admit_spec:
  assumes "recovering P sm" "q \<in> P" "admit_entry fl (sm_hash sm q @ ''.data'') sm = (r, sm')"
  shows "\<exists>d. sm' = sm\<lparr>sm_disk := d\<rparr> \<and> disk_frame (stagingFilePath sm q) (sm_disk sm) d \<and> recovering P sm' \<and>
    (\<forall>st sz t. r = Some (st, sz, t) \<longrightarrow> ps_OriginalPath st = q \<and> \<not> gm_has (sm_tombstones sm) q \<and>
       os_lookup d (stagingFilePath sm q) = os_lookup (sm_disk sm) (stagingFilePath sm q) \<and>
       side_path d (meta_name sm q) = Some q \<and>
       (\<exists>i. data_inode (sm_disk sm) (stagingFilePath sm q) = Some i \<and> sz = int (length (dk_inodes d i)))) \<and>
    ((\<forall>a b. \<not> fl a b) \<longrightarrow> (\<exists>i. wanted sm q i) \<longrightarrow> r \<noteq> None)"
proof -
  have fp: "activeDir sm @ ''/'' @ sm_hash sm q @ ''.data'' = stagingFilePath sm q" by (simp add: stagingFilePath_def)
  have i: "sm_inv {} P sm" using assms(1) by (simp add: recovering_def)
  let ?f = "stagingFilePath sm q" and ?m = "meta_name sm q"
  show ?thesis
  proof (cases "data_inode (sm_disk sm) ?f = None \<or> fl OpStat ?f \<or> (\<exists>e. readPathMetadataState fl ?m (sm_disk sm) = Inl e)")
    case True
    then have n: "r = None" "sm' = sm"
      using assms(3) fp by (auto simp: admit_entry_def Let_def split: option.splits sum.splits if_splits)
    have "\<not> wanted sm q i" if "\<forall>a b. \<not> fl a b" for i
      using True that path_okD(1) [OF i assms(2)] i assms(2)
      by (auto simp: wanted_def readPathMetadataState_def sidecar_at_def side_path_def sm_inv_def
          split: option.splits dir_entry.splits json_doc.splits if_splits)
    with n show ?thesis using assms(1) by (intro exI [of _ "sm_disk sm"]) auto
  next
    case False
    then obtain j st where js: "data_inode (sm_disk sm) ?f = Some j" "readPathMetadataState fl ?m (sm_disk sm) = Inr st" "\<not> fl OpStat ?f"
      by (metis option.exhaust sum.exhaust)
    obtain s0 b where sc: "sidecar_at (sm_disk sm) ?m = Some (s0, b)" "st = normalize_path_state s0" using js(2) unfolding read_sidecar by auto
    have path: "ps_OriginalPath st = q" "side_path (sm_disk sm) ?m = Some q"
      using path_okD(1) [OF i assms(2)] sc by (auto simp: side_path_def normalize_path_state_def)
    consider (conf) "ps_ConflictStatus st = ConflictStatusConflicted"
      | (del) "ps_ConflictStatus st \<noteq> ConflictStatusConflicted" "gm_has (sm_tombstones sm) q"
      | (adm) "ps_ConflictStatus st \<noteq> ConflictStatusConflicted" "\<not> gm_has (sm_tombstones sm) q" by blast
    then show ?thesis
    proof cases
      case conf
      then have n: "r = None" "sm' = sm" using assms(3) fp js by (auto simp: admit_entry_def Let_def)
      then show ?thesis using assms(1) conf sc by (intro exI [of _ "sm_disk sm"]) (auto simp: wanted_def)
    next
      case del
      then have n: "r = None" "sm' = snd (remove_name fl ?m (snd (remove_name fl ?f sm)))"
        using assms(3) fp js path by (auto simp: admit_entry_def Let_def HasPendingDelete_def)
      let ?d = "snd (os_Remove fl ?m (snd (os_Remove fl ?f (sm_disk sm))))"
      have sm': "sm' = sm\<lparr>sm_disk := ?d\<rparr>" by (simp add: n(2) snd_remove_name)
      have fr: "disk_frame ?f (sm_disk sm) ?d"
        by (rule disk_frame_trans [OF disk_frame_remove disk_frame_remove]) auto
      have "\<not> recd sm q" using assms(1,2) del(2) by (auto simp: recovering_def)
      then have i': "sm_inv {} P sm'" using inv_remove_both [OF i assms(2)] n(2) by simp
      have "recovering P sm'"
        using recovering_disk [OF assms(1,2) fr] i' \<open>\<not> recd sm q\<close> unfolding sm' by simp
      then show ?thesis using sm' fr n(1) del(2) by (intro exI [of _ ?d]) (auto simp: wanted_def)
    next
      case adm
      define st1 where "st1 = st\<lparr>ps_StagedFilePath := ?f\<rparr>"
      obtain e s' d where w: "writePathMetadataState fl ?m (Some st1) (sm_disk sm) = (e, s', d)" by (metis surj_pair)
      have s': "ps_OriginalPath (the s') = q"
        using w path(1) by (auto simp: writePathMetadataState_def st1_def Let_def commit_sticky_def normalize_path_state_def split: prod.splits sum.splits)
      define d' where "d' = (if ps_StagedFilePath st \<noteq> ?f then d else sm_disk sm)"
      have n: "sm' = sm\<lparr>sm_disk := d'\<rparr>"
        "r = Some (if ps_StagedFilePath st \<noteq> ?f then the s' else st, int (length (dk_inodes (sm_disk sm) j)), dk_mtime (sm_disk sm) j)"
        using assms(3) fp js adm path(1) w by (auto simp: admit_entry_def Let_def HasPendingDelete_def st1_def d'_def)
      have fr: "disk_frame ?f (sm_disk sm) d'" using disk_frame_write [OF w] by (simp add: d'_def)
      have iw: "sm_inv {} P sm'"
        using i inv_write_side [OF i assms(2) _ w] path(1) by (simp add: n(1) d'_def st1_def)
      have l: "os_lookup d' ?f = os_lookup (sm_disk sm) ?f"
        using write_side_path(2) [OF w, of ?f] names_distinct [of sm q] by (auto simp: d'_def)
      have sp: "side_path d' ?m = Some q"
        using write_side_path(1) [OF w] path by (auto simp: d'_def st1_def)
      have "recovering P sm'"
        unfolding n(1) using iw l js(1) by (intro recovering_disk [OF assms(1,2) fr])
          (auto simp: n(1) data_inode_def split: option.splits)
      moreover have "dk_inodes d' = dk_inodes (sm_disk sm)" using fr by (simp add: disk_frame_def)
      ultimately show ?thesis
        using n fr l sp s' path(1) adm(2) js(1) by (intro exI [of _ d']) auto
    qed
  qed
qed

lemma recover_session_spec:
  assumes "recovering P sm" "q \<in> P" "data_inode (sm_disk sm) (stagingFilePath sm q) = Some i"
    and "side_path (sm_disk sm) (meta_name sm q) = Some q" "RecoverSessionFromStaging fl now q sm = (r, sm')"
  shows "recovering P sm'" "entry_frame q sm sm'" "sm_dirtyIndex sm' = sm_dirtyIndex sm"
    "side_path (sm_disk sm') (meta_name sm q) = Some q"
    "os_lookup (sm_disk sm') (stagingFilePath sm q) = os_lookup (sm_disk sm) (stagingFilePath sm q)"
    "\<And>sid. r = Inr sid \<Longrightarrow> sessionAt q sm' = Some sid \<and> (sessionAt q sm = None \<longrightarrow> ws_File (sm_heap sm' sid) = Some i)"
    "(\<forall>a b. \<not> fl a b) \<Longrightarrow> \<exists>sid. r = Inr sid"
proof -
  let ?f = "stagingFilePath sm q" and ?m = "meta_name sm q"
  have i: "sm_inv {} P sm" using assms(1) by (simp add: recovering_def)
  have inv': "sm_inv {} P sm'" using inv_RecoverSession [OF i assms(2), of fl now] assms(5) by simp
  obtain r0 d where n: "NewWriteSession fl now True q ?f (sm_disk sm) = (r0, d)" by (metis surj_pair)
  note k = NewWriteSession_keeps [OF n] and fr = disk_frame_new [OF assms(3) n]
  have less: "sid < sm_nextSession sm" if "sessionAt r sm = Some sid" for r sid using inv_sessionD(2) [OF i that] .
  have wsf: "ws_File (restoreAttributes a ws) = ws_File ws" for a ws by (simp add: restoreAttributes_def setAttributesLocked_def)
  have eff: "(sm' = sm \<and> (\<forall>sid. r = Inr sid \<longrightarrow> sessionAt q sm = Some sid)) \<or>
      (sessionAt q sm = None \<and> (\<exists>e. r = Inl e) \<and> sm' = sm\<lparr>sm_disk := d\<rparr> \<and> (\<exists>e. r0 = Inl e)) \<or>
      (sessionAt q sm = None \<and> r = Inr (sm_nextSession sm) \<and> (\<exists>ws. ws_File ws = Some i \<and>
        sm' = sm\<lparr>sm_disk := d, sm_nextSession := sm_nextSession sm + 1, sm_heap := (sm_heap sm)(sm_nextSession sm := ws),
          sm_sessions := gm_set q (sm_nextSession sm) (sm_sessions sm)\<rparr>))"
  proof (cases "fl OpStat ?f \<or> sessionAt q sm \<noteq> None")
    case True
    then show ?thesis using assms(3,5) by (auto simp: RecoverSessionFromStaging_def Let_def split: option.splits if_splits)
  next
    case False
    show ?thesis
    proof (cases r0)
      case (Inl e)
      then show ?thesis using False assms(3,5) n by (auto simp: RecoverSessionFromStaging_def new_session_def Let_def)
    next
      case (Inr ws0)
      define ws2 where "ws2 = (case readPathMetadataState fl ?m d of
          Inr state \<Rightarrow> (case ps_Attributes state of Some a \<Rightarrow> restoreAttributes a ws0 | None \<Rightarrow> ws0) | Inl _ \<Rightarrow> ws0)
        \<lparr>ws_Size := int (length (dk_inodes (sm_disk sm) i)), ws_Dirty := True, ws_RefCount := 0,
         ws_LastWrite := dk_mtime (sm_disk sm) i, ws_LastAccess := dk_mtime (sm_disk sm) i\<rparr>"
      have "ws_File ws2 = Some i" using fr Inr wsf by (auto simp: ws2_def split: sum.split option.split)
      then show ?thesis using False Inr assms(3,5) n
        by (intro disjI2 conjI exI [of _ ws2]) 
          (auto simp: RecoverSessionFromStaging_def new_session_def Let_def ws2_def cong: sum.case_cong option.case_cong)
    qed
  qed
  show ix: "sm_dirtyIndex sm' = sm_dirtyIndex sm" using eff by auto
  show "side_path (sm_disk sm') ?m = Some q" using eff k assms(4) by auto
  show l: "os_lookup (sm_disk sm') ?f = os_lookup (sm_disk sm) ?f" using eff fr by auto
  show ef: "entry_frame q sm sm'"
    using eff fr ix by (auto simp: entry_frame_def same_names_def sessionAt_def dest!: less [unfolded sessionAt_def])
  show "\<And>sid. r = Inr sid \<Longrightarrow> sessionAt q sm' = Some sid \<and> (sessionAt q sm = None \<longrightarrow> ws_File (sm_heap sm' sid) = Some i)"
    using eff by (auto simp: sessionAt_def)
  show "\<exists>sid. r = Inr sid" if "\<forall>a b. \<not> fl a b"
    using that assms(3,5) n fr by (auto simp: RecoverSessionFromStaging_def new_session_def Let_def split: option.splits sum.splits if_splits)
  have sf: "stagingFilePath sm' = stagingFilePath sm" using ef same_names_simps by (auto simp: entry_frame_def)
  have "os_lookup (sm_disk sm') (stagingFilePath sm r) \<noteq> None" if "r \<in> P" "recd sm r" for r
  proof (cases "r = q")
    case False
    then show ?thesis
      using frame_other [OF i assms(2) that(1) False, of "sm_disk sm'" "stagingFilePath sm r"] assms(1) that ef
      by (auto simp: recovering_def names_of_def entry_frame_def)
  qed (use l assms(3) in \<open>auto simp: data_inode_def split: option.splits\<close>)
  then show "recovering P sm'"
    using inv' assms(1) ef ix by (auto simp: recovering_def sf recd_def entry_frame_def)
qed

lemma entry_frame_refl [simp]: "entry_frame q sm sm"
  by (simp add: entry_frame_def same_names_def)

lemma entry_frame_trans: "entry_frame q a b \<Longrightarrow> entry_frame q b c \<Longrightarrow> entry_frame q a c"
  unfolding entry_frame_def using same_names_simps(2) [of a b] disk_frame_trans by (auto simp: same_names_def)

lemma entry_frame_disk: "disk_frame (stagingFilePath sm q) (sm_disk sm) d \<Longrightarrow> entry_frame q sm (sm\<lparr>sm_disk := d\<rparr>)"
  by (simp add: entry_frame_def same_names_def sessionAt_def)

lemma not_detached:
  assumes "hash_ok P (sm_hash sm)" "q \<in> P" "set t \<subseteq> set ''.datemp''"
  shows "\<not> sublist ''.data.detach-'' (sm_hash sm q @ t)"
proof
  assume "sublist ''.data.detach-'' (sm_hash sm q @ t)"
  then have "CHR ''-'' \<in> set (sm_hash sm q @ t)" by (auto dest!: set_mono_sublist)
  then show False using assms by (auto simp: hash_ok_def)
qed

definition restored :: "StagingManager \<Rightarrow> string \<Rightarrow> nat \<Rightarrow> bool" where
  "restored sm q i \<longleftrightarrow> IsDirty q (sm_dirtyIndex sm) \<and> data_inode (sm_disk sm) (stagingFilePath sm q) = Some i \<and>
     (\<exists>sid. sessionAt q sm = Some sid \<and> ws_File (sm_heap sm sid) = Some i \<and> ws_Dirty (sm_heap sm sid) \<and>
        ws_Size (sm_heap sm sid) = int (length (dk_inodes (sm_disk sm) i)))"

lemma recover_entry_spec:
  assumes "recovering P sm" "q \<in> P" "recover_entry fl now (sm_hash sm q @ ''.data'') (n, sm) = (n', sm')"
  shows "recovering P sm' \<and> entry_frame q sm sm' \<and>
    (\<forall>i. (\<forall>a b. \<not> fl a b) \<and> wanted sm q i \<and> sessionAt q sm = None \<and> \<not> IsConflicted q (sm_dirtyIndex sm) \<longrightarrow> restored sm' q i)"
proof -
  have i: "sm_inv {} P sm" and ne: "q \<noteq> []" using assms(1,2) by (auto simp: recovering_def sm_inv_def)
  have nd: "\<not> sublist ''.data.detach-'' (sm_hash sm q @ ''.data'')"
    using i assms(2) by (intro not_detached) (auto simp: sm_inv_def)
  have suf: "suffix ''.data'' (sm_hash sm q @ ''.data'')" by (simp add: suffix_def)
  obtain r sm1 where ad: "admit_entry fl (sm_hash sm q @ ''.data'') sm = (r, sm1)" by (metis surj_pair)
  obtain d where a: "sm1 = sm\<lparr>sm_disk := d\<rparr>" "disk_frame (stagingFilePath sm q) (sm_disk sm) d" "recovering P sm1"
    "\<And>st sz t. r = Some (st, sz, t) \<Longrightarrow> ps_OriginalPath st = q \<and> \<not> gm_has (sm_tombstones sm) q \<and>
       os_lookup d (stagingFilePath sm q) = os_lookup (sm_disk sm) (stagingFilePath sm q) \<and>
       side_path d (meta_name sm q) = Some q \<and>
       (\<exists>i. data_inode (sm_disk sm) (stagingFilePath sm q) = Some i \<and> sz = int (length (dk_inodes d i)))"
    "\<And>i. (\<forall>a b. \<not> fl a b) \<Longrightarrow> wanted sm q i \<Longrightarrow> r \<noteq> None"
    using admit_spec [OF assms(1,2) ad] by blast
  have ef1: "entry_frame q sm sm1" unfolding a(1) by (rule entry_frame_disk [OF a(2)])
  show ?thesis
  proof (cases r)
    case None
    then have "sm' = sm1" using assms(3) nd suf ad by (simp add: recover_entry_def)
    then show ?thesis using a ef1 None by auto
  next
    case (Some x)
    then obtain st sz t where x: "r = Some (st, sz, t)" by (cases x) auto
    obtain j where j: "data_inode (sm_disk sm) (stagingFilePath sm q) = Some j" "sz = int (length (dk_inodes d j))"
      "ps_OriginalPath st = q" "\<not> gm_has (sm_tombstones sm) q" "side_path d (meta_name sm q) = Some q"
      "os_lookup d (stagingFilePath sm q) = os_lookup (sm_disk sm) (stagingFilePath sm q)"
      using a(4) [OF x] by auto
    obtain r2 sm2 where rs: "RecoverSessionFromStaging fl now q sm1 = (r2, sm2)" by (metis surj_pair)
    have dj: "data_inode (sm_disk sm1) (stagingFilePath sm1 q) = Some j" using j(1,6) by (simp add: a(1) data_inode_def)
    note b = recover_session_spec [OF a(3) assms(2) dj _ rs]
    have b: "recovering P sm2" "entry_frame q sm1 sm2" "sm_dirtyIndex sm2 = sm_dirtyIndex sm"
      "side_path (sm_disk sm2) (meta_name sm q) = Some q"
      "os_lookup (sm_disk sm2) (stagingFilePath sm q) = os_lookup d (stagingFilePath sm q)"
      "\<And>sid. r2 = Inr sid \<Longrightarrow> sessionAt q sm2 = Some sid \<and> (sessionAt q sm = None \<longrightarrow> ws_File (sm_heap sm2 sid) = Some j)"
      "(\<forall>a b. \<not> fl a b) \<Longrightarrow> \<exists>sid. r2 = Inr sid"
      using b j(5) by (auto simp: a(1) sessionAt_def)
    have ef2: "entry_frame q sm sm2" using entry_frame_trans [OF ef1 b(2)] .
    have sf: "stagingFilePath sm2 = stagingFilePath sm" "sm_tombstones sm2 = sm_tombstones sm" "dk_inodes (sm_disk sm2) = dk_inodes d"
      using ef2 a(2) same_names_simps by (auto simp: entry_frame_def disk_frame_def)
    show ?thesis
    proof (cases r2)
      case (Inl e)
      then have "sm' = sm2" using assms(3) nd suf ad x rs j(3) by (simp add: recover_entry_def)
      then show ?thesis using b(1,7) ef2 Inl by auto
    next
      case (Inr sid)
      define m where "m = dirtyMetadataFromPathState st sz t"
      define sm3 where "sm3 = upd_session sid (\<lambda>ws. ws\<lparr>ws_Size := sz, ws_Dirty := True, ws_LastWrite := t, ws_LastAccess := t\<rparr>) sm2"
      have sm': "sm' = upd_index (RestoreDirty m) sm3"
        using assms(3) nd suf ad x rs j(3) Inr by (simp add: recover_entry_def Let_def m_def sm3_def)
      have mq: "dm_Path m = q" using j(3) by (simp add: m_def dirtyMetadataFromPathState_def)
      have i3: "sm_inv {} P sm3" unfolding sm3_def using b(1) by (intro inv_session) (auto simp: recovering_def)
      have "sm_inv {} P sm'" unfolding sm'
        using recs_RestoreDirty [of m] b(4) sf by (intro inv_upd_index [OF i3]) (auto simp: mq sm3_def)
      moreover have "recd sm2 x \<or> x = q" if "recd sm' x" for x
        using that recs_RestoreDirty [of m "sm_dirtyIndex sm2"] by (auto simp: sm' sm3_def recd_recs mq)
      ultimately have rec: "recovering P sm'"
        using b(1) j(1,4,6) b(5) by (auto simp: recovering_def sm' sm3_def sf data_inode_def split: option.splits)
      have at: "sessionAt q sm2 = Some sid" using b(6) [OF Inr] by simp
      have ns: "s \<noteq> sid" if "sessionAt x sm2 = Some s" "x \<noteq> q" for x s
        using that at b(1) inv_sessionD(3) [of "{}" P sm2 x s] inv_sessionD(3) [of "{}" P sm2 q sid] by (auto simp: recovering_def)
      have "entry_frame q sm2 sm'"
        using ns by (auto simp: entry_frame_def sm' sm3_def upd_session_def upd_index_def same_names_def sessionAt_def
            RestoreDirty_def mq nextGenerationLocked_def Let_def)
      then have ef: "entry_frame q sm sm'" by (rule entry_frame_trans [OF ef2])
      have "restored sm' q k" if "wanted sm q k" "sessionAt q sm = None" "\<not> IsConflicted q (sm_dirtyIndex sm)" for k
      proof -
        have "k = j" using that(1) j(1) by (auto simp: wanted_def)
        then show ?thesis
          using that(2,3) b(3,5) b(6) [OF Inr] at j(1,2,6) sf ne
          by (auto simp: restored_def sm' sm3_def data_inode_def IsDirty_def IsConflicted_def RestoreDirty_def mq
              nextGenerationLocked_def Let_def sessionAt_def upd_session_def upd_index_def)
      qed
      then show ?thesis using rec ef by auto
    qed
  qed
qed

definition entry_names :: "string set \<Rightarrow> StagingManager \<Rightarrow> string set" where
  "entry_names P sm = (\<Union>q \<in> P. {sm_hash sm q @ ''.data'', sm_hash sm q @ ''.data.metadata'', sm_hash sm q @ ''.data.metadata.tmp''})"

text \<open>What holds of a path after other paths have been recovered.\<close>

definition path_frame :: "string \<Rightarrow> StagingManager \<Rightarrow> StagingManager \<Rightarrow> bool" where
  "path_frame q sm sm' \<longleftrightarrow> same_names sm sm' \<and> sm_tombstones sm' = sm_tombstones sm \<and>
     di_conflicts (sm_dirtyIndex sm') = di_conflicts (sm_dirtyIndex sm) \<and>
     dk_inodes (sm_disk sm') = dk_inodes (sm_disk sm) \<and>
     (\<forall>f \<in> names_of sm q. os_lookup (sm_disk sm') f = os_lookup (sm_disk sm) f) \<and>
     gm_get (di_dirty (sm_dirtyIndex sm')) q = gm_get (di_dirty (sm_dirtyIndex sm)) q \<and>
     sessionAt q sm' = sessionAt q sm \<and> (\<forall>sid. sessionAt q sm = Some sid \<longrightarrow> sm_heap sm' sid = sm_heap sm sid)"

lemma path_frame_refl [simp]: "path_frame q sm sm"
  by (simp add: path_frame_def same_names_def)

lemma path_frame_keeps:
  assumes "path_frame q sm sm'"
  shows "wanted sm' q i = wanted sm q i" "restored sm' q i = restored sm q i" "sessionAt q sm' = sessionAt q sm"
    "IsConflicted q (sm_dirtyIndex sm') = IsConflicted q (sm_dirtyIndex sm)"
proof -
  have n: "stagingFilePath sm' = stagingFilePath sm" using assms same_names_simps by (auto simp: path_frame_def)
  have l: "os_lookup (sm_disk sm') (stagingFilePath sm q) = os_lookup (sm_disk sm) (stagingFilePath sm q)"
    "os_lookup (sm_disk sm') (meta_name sm q) = os_lookup (sm_disk sm) (meta_name sm q)"
    using assms by (auto simp: path_frame_def names_of_def)
  show "wanted sm' q i = wanted sm q i" "restored sm' q i = restored sm q i" "sessionAt q sm' = sessionAt q sm"
    "IsConflicted q (sm_dirtyIndex sm') = IsConflicted q (sm_dirtyIndex sm)"
    using assms l by (auto simp: path_frame_def wanted_def restored_def data_inode_def sidecar_at_def n IsDirty_def gm_has_def IsConflicted_def)
qed

lemma entry_other:
  assumes "sm_inv X P sm" "entry_frame q sm sm'" "q \<in> P" "r \<in> P" "r \<noteq> q"
  shows "path_frame r sm sm'"
proof -
  have d: "disk_frame (stagingFilePath sm q) (sm_disk sm) (sm_disk sm')" using assms(2) by (simp add: entry_frame_def)
  have "\<forall>f \<in> names_of sm r. os_lookup (sm_disk sm') f = os_lookup (sm_disk sm) f"
    using frame_other [OF assms(1,3-5) d] by blast
  moreover have "dk_inodes (sm_disk sm') = dk_inodes (sm_disk sm)" using d by (simp add: disk_frame_def)
  ultimately show ?thesis using assms(2,5) unfolding path_frame_def entry_frame_def by blast
qed

lemma recover_entry_other:
  assumes "hash_ok P (sm_hash sm)" "q \<in> P" "name = sm_hash sm q @ ''.data.metadata'' \<or> name = sm_hash sm q @ ''.data.metadata.tmp''"
  shows "recover_entry fl now name (n, sm) = (n, sm)"
proof -
  have "\<not> sublist ''.data.detach-'' name"
    using assms(3) not_detached [OF assms(1,2), of "''.data.metadata''"] not_detached [OF assms(1,2), of "''.data.metadata.tmp''"]
    by auto
  moreover have "\<not> suffix ''.data'' name" using assms(3) by (auto simp: suffix_to_prefix)
  ultimately show ?thesis by (simp add: recover_entry_def)
qed

lemma path_frame_trans: "path_frame q a b \<Longrightarrow> path_frame q b c \<Longrightarrow> path_frame q a c"
  using same_names_simps(5) [of a b] unfolding path_frame_def by (auto simp: same_names_def)

text \<open>The loop over the directory: each path is dealt with at its data file, once.\<close>

lemma recover_entries:
  assumes "recovering P sm" "set names \<subseteq> entry_names P sm" "fold (recover_entry fl now) names (n, sm) = (n', sm')"
  shows "recovering P sm' \<and> same_names sm sm' \<and> sm_tombstones sm' = sm_tombstones sm \<and>
    dk_inodes (sm_disk sm') = dk_inodes (sm_disk sm) \<and>
    di_conflicts (sm_dirtyIndex sm') = di_conflicts (sm_dirtyIndex sm) \<and>
    (\<forall>q \<in> P. sm_hash sm q @ ''.data'' \<notin> set names \<longrightarrow> path_frame q sm sm') \<and>
    (\<forall>q \<in> P. \<forall>i. (\<forall>a b. \<not> fl a b) \<and> distinct names \<and> sm_hash sm q @ ''.data'' \<in> set names \<and> wanted sm q i \<and>
       sessionAt q sm = None \<and> \<not> IsConflicted q (sm_dirtyIndex sm) \<longrightarrow> restored sm' q i)"
  using assms
proof (induction names arbitrary: n sm)
  case Nil
  then show ?case by (simp add: same_names_def)
next
  case (Cons name names)
  obtain n1 sm1 where s: "recover_entry fl now name (n, sm) = (n1, sm1)" by (metis surj_pair)
  have h: "hash_ok P (sm_hash sm)" and i: "sm_inv {} P sm" using Cons(2) by (auto simp: recovering_def sm_inv_def)
  obtain r where r: "r \<in> P" "name \<in> {sm_hash sm r @ ''.data'', sm_hash sm r @ ''.data.metadata'', sm_hash sm r @ ''.data.metadata.tmp''}"
    using Cons(3) by (auto simp: entry_names_def)
  have st: "recovering P sm1 \<and> entry_frame r sm sm1 \<and> (\<forall>q \<in> P. q \<noteq> r \<or> name \<noteq> sm_hash sm r @ ''.data'' \<longrightarrow> path_frame q sm sm1) \<and>
    (\<forall>i. (\<forall>a b. \<not> fl a b) \<and> name = sm_hash sm r @ ''.data'' \<and> wanted sm r i \<and> sessionAt r sm = None \<and>
      \<not> IsConflicted r (sm_dirtyIndex sm) \<longrightarrow> restored sm1 r i)"
  proof (cases "name = sm_hash sm r @ ''.data''")
    case True
    note k = recover_entry_spec [OF Cons(2) r(1), of fl now n n1 sm1]
    show ?thesis using k s True entry_other [OF i _ r(1)] by auto
  next
    case False
    then have "sm1 = sm" using recover_entry_other [OF h r(1), of name fl now n] r(2) s by auto
    then show ?thesis using Cons(2) False by auto
  qed
  have same: "same_names sm sm1" "sm_hash sm1 = sm_hash sm" "entry_names P sm1 = entry_names P sm"
    "sm_tombstones sm1 = sm_tombstones sm" "di_conflicts (sm_dirtyIndex sm1) = di_conflicts (sm_dirtyIndex sm)"
    "dk_inodes (sm_disk sm1) = dk_inodes (sm_disk sm)"
    using st by (auto simp: entry_frame_def disk_frame_def same_names_def entry_names_def)
  have ih: "recovering P sm' \<and> same_names sm1 sm' \<and> sm_tombstones sm' = sm_tombstones sm1 \<and>
    dk_inodes (sm_disk sm') = dk_inodes (sm_disk sm1) \<and>
    di_conflicts (sm_dirtyIndex sm') = di_conflicts (sm_dirtyIndex sm1) \<and>
    (\<forall>q \<in> P. sm_hash sm1 q @ ''.data'' \<notin> set names \<longrightarrow> path_frame q sm1 sm') \<and>
    (\<forall>q \<in> P. \<forall>i. (\<forall>a b. \<not> fl a b) \<and> distinct names \<and> sm_hash sm1 q @ ''.data'' \<in> set names \<and> wanted sm1 q i \<and>
       sessionAt q sm1 = None \<and> \<not> IsConflicted q (sm_dirtyIndex sm1) \<longrightarrow> restored sm' q i)"
    using st Cons(3,4) s same by (intro Cons.IH) auto
  have inj: "q = r" if "q \<in> P" "sm_hash sm q @ ''.data'' = name" for q
    using that r h by (auto simp: hash_ok_def inj_on_def append_eq_append_conv2)
  have p: "path_frame q sm sm1" if "q \<in> P" "sm_hash sm q @ ''.data'' \<noteq> name" for q using st that by auto
  have "restored sm' q j" if q: "q \<in> P" and nf: "\<forall>a b. \<not> fl a b" and di: "distinct (name # names)"
    and mem: "sm_hash sm q @ ''.data'' \<in> set (name # names)" and w: "wanted sm q j" "sessionAt q sm = None" "\<not> IsConflicted q (sm_dirtyIndex sm)" for q j
  proof (cases "sm_hash sm q @ ''.data'' = name")
    case True
    then have "q = r" using inj q by simp
    then have "restored sm1 q j" using st nf True w by auto
    moreover have "path_frame q sm1 sm'" using ih q True di same(2) by auto
    ultimately show ?thesis using path_frame_keeps(2) by blast
  next
    case False
    note f = path_frame_keeps [OF p [OF q False]]
    show ?thesis using ih q nf di mem False w f same(2) by auto
  qed
  moreover have "path_frame q sm sm'" if "q \<in> P" "sm_hash sm q @ ''.data'' \<notin> set (name # names)" for q
    using p [OF that(1)] ih that same(2) path_frame_trans by auto
  ultimately show ?case using ih same by (auto simp: same_names_def)
qed

section \<open>Stale sidecars\<close>

lemma remove_stale_step:
  assumes "recovering P sm" "name \<in> entry_names P sm"
  shows "recovering P (remove_stale fl name sm) \<and> (\<exists>d. remove_stale fl name sm = sm\<lparr>sm_disk := d\<rparr> \<and> dk_inodes d = dk_inodes (sm_disk sm)) \<and>
    (\<forall>q \<in> P. os_lookup (sm_disk sm) (stagingFilePath sm q) \<noteq> None \<longrightarrow> path_frame q sm (remove_stale fl name sm))"
proof -
  have i: "sm_inv {} P sm" using assms(1) by (simp add: recovering_def)
  obtain r where r: "r \<in> P" "name \<in> {sm_hash sm r @ ''.data'', sm_hash sm r @ ''.data.metadata'', sm_hash sm r @ ''.data.metadata.tmp''}"
    using assms(2) by (auto simp: entry_names_def)
  show ?thesis
  proof (cases "name = sm_hash sm r @ ''.data.metadata'' \<and> os_lookup (sm_disk sm) (stagingFilePath sm r) = None \<and> \<not> fl OpStat (stagingFilePath sm r)")
    case True
    let ?d = "snd (os_Remove fl (meta_name sm r) (sm_disk sm))"
    have "trim_suffix ((sm_hash sm r @ ''.data'') @ ''.metadata'') ''.metadata'' = sm_hash sm r @ ''.data''"
      by (rule trim_suffix_append)
    then have "trim_suffix name ''.metadata'' = sm_hash sm r @ ''.data''" using True by simp
    moreover have "suffix ''.metadata'' name" using True by (auto simp: suffix_to_prefix)
    ultimately have e: "remove_stale fl name sm = snd (remove_name fl (meta_name sm r) sm)"
      using True by (simp add: remove_stale_def stagingFilePath_def pathMetadataPath_def)
    have fr: "disk_frame (stagingFilePath sm r) (sm_disk sm) ?d" by (rule disk_frame_remove) simp
    have n: "\<not> recd sm r" using assms(1) True r(1) by (auto simp: recovering_def)
    have "sm_inv {} P (sm\<lparr>sm_disk := ?d\<rparr>)" using inv_remove_side [OF i r(1), of fl] n by (simp add: snd_remove_name)
    then have "recovering P (sm\<lparr>sm_disk := ?d\<rparr>)" using recovering_disk [OF assms(1) r(1) fr] n by simp
    moreover have "path_frame q sm (sm\<lparr>sm_disk := ?d\<rparr>)" if "q \<in> P" "os_lookup (sm_disk sm) (stagingFilePath sm q) \<noteq> None" for q
      using that(2) True by (intro entry_other [OF i entry_frame_disk [OF fr] r(1) that(1)]) auto
    moreover have "dk_inodes ?d = dk_inodes (sm_disk sm)" by (simp add: os_Remove_def)
    ultimately show ?thesis unfolding e snd_remove_name by blast
  next
    case False
    have "remove_stale fl name sm = sm"
    proof (cases "name = sm_hash sm r @ ''.data.metadata''")
      case True
      have "trim_suffix ((sm_hash sm r @ ''.data'') @ ''.metadata'') ''.metadata'' = sm_hash sm r @ ''.data''"
        by (rule trim_suffix_append)
      then show ?thesis using False True by (auto simp: remove_stale_def stagingFilePath_def Let_def)
    next
      case False
      then show ?thesis using r(2) by (auto simp: remove_stale_def suffix_to_prefix)
    qed
    then show ?thesis using assms(1) by (auto intro: exI [of _ "sm_disk sm"])
  qed
qed

lemma remove_stale_fold:
  assumes "recovering P sm" "set names \<subseteq> entry_names P sm"
  shows "recovering P (fold (remove_stale fl) names sm) \<and> (\<exists>d. fold (remove_stale fl) names sm = sm\<lparr>sm_disk := d\<rparr> \<and> dk_inodes d = dk_inodes (sm_disk sm)) \<and>
    (\<forall>q \<in> P. os_lookup (sm_disk sm) (stagingFilePath sm q) \<noteq> None \<longrightarrow> path_frame q sm (fold (remove_stale fl) names sm))"
  using assms
proof (induction names arbitrary: sm)
  case (Cons name names)
  let ?sm = "remove_stale fl name sm"
  have s: "recovering P ?sm" "\<exists>d. ?sm = sm\<lparr>sm_disk := d\<rparr> \<and> dk_inodes d = dk_inodes (sm_disk sm)"
    "\<And>q. q \<in> P \<Longrightarrow> os_lookup (sm_disk sm) (stagingFilePath sm q) \<noteq> None \<Longrightarrow> path_frame q sm ?sm"
    using remove_stale_step [OF Cons(2), of name fl] Cons(3) by auto
  then have n: "entry_names P ?sm = entry_names P sm" "stagingFilePath ?sm = stagingFilePath sm" by (auto simp: entry_names_def)
  have ih: "recovering P (fold (remove_stale fl) names ?sm)" "\<exists>d. fold (remove_stale fl) names ?sm = ?sm\<lparr>sm_disk := d\<rparr> \<and> dk_inodes d = dk_inodes (sm_disk ?sm)"
    "\<And>q. q \<in> P \<Longrightarrow> os_lookup (sm_disk ?sm) (stagingFilePath ?sm q) \<noteq> None \<Longrightarrow> path_frame q ?sm (fold (remove_stale fl) names ?sm)"
    using Cons.IH [OF s(1)] Cons(3) n by auto
  have "path_frame q sm (fold (remove_stale fl) names ?sm)" if "q \<in> P" "os_lookup (sm_disk sm) (stagingFilePath sm q) \<noteq> None" for q
  proof -
    have "os_lookup (sm_disk ?sm) (stagingFilePath ?sm q) \<noteq> None"
      using s(3) [OF that] that(2) n(2) by (auto simp: path_frame_def names_of_def)
    then show ?thesis using ih(3) [OF that(1)] s(3) [OF that] path_frame_trans by blast
  qed
  then show ?case using ih(1,2) s(2) by auto
next
  case Nil
  then show ?case by (auto intro: exI [of _ "sm_disk sm"])
qed

section \<open>Conflicts\<close>

lemma inv_disk_lost:
  assumes "sm_inv X P sm" "\<And>f. \<not> lost_name sm f \<Longrightarrow> os_lookup d f = os_lookup (sm_disk sm) f"
  shows "sm_inv X P (sm\<lparr>sm_disk := d\<rparr>)"
proof (cases "P = {}")
  case True
  have "lost_name sm f" if "os_lookup d f \<noteq> None" for f
    using that assms True by (cases "lost_name sm f") (auto simp: sm_inv_def)
  then show ?thesis using assms(1) True by (auto simp: sm_inv_def sessions_ok_def sessionAt_def)
next
  case False
  then obtain p where "p \<in> P" by auto
  from inv_disk_data [OF assms(1) this] assms(2) show ?thesis by blast
qed

lemma recover_conflict_step:
  assumes "sm_inv X P sm" "recover_conflict fl name (n, sm) = (n', sm')"
  shows "sm_inv X P sm' \<and> same_names sm sm' \<and> sm_tombstones sm' = sm_tombstones sm \<and>
    dk_inodes (sm_disk sm') = dk_inodes (sm_disk sm) \<and>
    (\<forall>q i. restored sm q i \<or> IsConflicted q (sm_dirtyIndex sm) \<longrightarrow> restored sm' q i \<or> IsConflicted q (sm_dirtyIndex sm'))"
proof -
  let ?f = "lostFoundDir sm @ ''/'' @ name"
  let ?d = "snd (os_Remove fl ?f (sm_disk sm))"
  have lf: "lost_name sm ?f" by (simp add: lost_name_def)
  have "sm' = sm \<or> sm' = sm\<lparr>sm_disk := ?d\<rparr> \<or> (\<exists>c. sm' = upd_index (MarkConflicted (Some c)) sm)"
    using assms(2) by (auto simp: recover_conflict_def Let_def split: if_splits option.splits dir_entry.splits json_doc.splits)
  then consider "sm' = sm" | "sm' = sm\<lparr>sm_disk := ?d\<rparr>" | c where "sm' = upd_index (MarkConflicted (Some c)) sm" by blast
  then show ?thesis
  proof cases
    case 1
    then show ?thesis using assms(1) by (simp add: same_names_def)
  next
    case 2
    have "sm_inv X P sm'" unfolding 2 using lf by (intro inv_disk_lost [OF assms(1)]) (auto simp: os_lookup_Remove)
    moreover have "data_inode ?d (stagingFilePath sm q) = data_inode (sm_disk sm) (stagingFilePath sm q)" for q
    proof -
      have "stagingFilePath sm q \<noteq> ?f" using lost_not_name [OF lf, of q] by (auto simp: names_of_def)
      then show ?thesis by (simp add: data_inode_def os_lookup_Remove)
    qed
    moreover have "dk_inodes ?d = dk_inodes (sm_disk sm)" by (simp add: os_Remove_def)
    ultimately show ?thesis by (auto simp: 2 same_names_def restored_def sessionAt_def)
  next
    case 3
    have "sm_inv X P sm'" unfolding 3 using recs_MarkConflicted by (intro inv_upd_index [OF assms(1)]) blast
    then show ?thesis
      by (auto simp: 3 same_names_def upd_index_def restored_def sessionAt_def MarkConflicted_def IsDirty_def IsConflicted_def gm_has_def
          split: if_splits)
  qed
qed

lemma recover_conflicts:
  assumes "sm_inv X P sm" "fold (recover_conflict fl) names (n, sm) = (n', sm')"
  shows "sm_inv X P sm' \<and> same_names sm sm' \<and> sm_tombstones sm' = sm_tombstones sm \<and>
    dk_inodes (sm_disk sm') = dk_inodes (sm_disk sm) \<and>
    (\<forall>q i. restored sm q i \<or> IsConflicted q (sm_dirtyIndex sm) \<longrightarrow> restored sm' q i \<or> IsConflicted q (sm_dirtyIndex sm'))"
  using assms
proof (induction names arbitrary: n sm)
  case (Cons name names)
  obtain n1 sm1 where s: "recover_conflict fl name (n, sm) = (n1, sm1)" by (metis surj_pair)
  note a = recover_conflict_step [OF Cons(2) s]
  then have b: "sm_inv X P sm' \<and> same_names sm1 sm' \<and> sm_tombstones sm' = sm_tombstones sm1 \<and>
    dk_inodes (sm_disk sm') = dk_inodes (sm_disk sm1) \<and>
    (\<forall>q i. restored sm1 q i \<or> IsConflicted q (sm_dirtyIndex sm1) \<longrightarrow> restored sm' q i \<or> IsConflicted q (sm_dirtyIndex sm'))"
    using Cons.IH [of sm1 n1] Cons(3) s by simp
  then show ?case using a by (simp add: same_names_def) blast
qed (simp add: same_names_def)

section \<open>A restart\<close>

lemma hash_no_slash: "hash_ok P h \<Longrightarrow> q \<in> P \<Longrightarrow> CHR ''/'' \<notin> set (h q)"
  by (auto simp: hash_ok_def)

text \<open>What a manager started on a disk promises, given the invariant of the disk.\<close>

lemma RecoverFromDisk_spec:
  assumes "recovering P sm" "\<And>q. \<not> recd sm q" "RecoverFromDisk fl now sm = (e, sm')"
  shows "sm_inv {} P sm'" "same_names sm sm'" "dk_inodes (sm_disk sm') = dk_inodes (sm_disk sm)"
    "\<And>q. q \<in> P \<Longrightarrow> (\<forall>a b. \<not> fl a b) \<Longrightarrow> tomb_path (sm_disk sm) (tombstoneFilePath sm q) \<noteq> None \<Longrightarrow> gm_has (sm_tombstones sm') q"
    "\<And>q i. q \<in> P \<Longrightarrow> (\<forall>a b. \<not> fl a b) \<Longrightarrow> tomb_path (sm_disk sm) (tombstoneFilePath sm q) = None \<Longrightarrow> wanted sm q i \<Longrightarrow>
       sm_sessions sm = [] \<Longrightarrow> di_conflicts (sm_dirtyIndex sm) = [] \<Longrightarrow> restored sm' q i \<or> IsConflicted q (sm_dirtyIndex sm')"
proof -
  obtain n1 sm1 where t: "recoverTombstonesFromDisk fl sm = (n1, sm1)" by (metis surj_pair)
  have i: "sm_inv {} P sm" using assms(1) by (simp add: recovering_def)
  note tt = recoverTombstones [OF i t]
  obtain d ts where tf: "sm1 = sm\<lparr>sm_disk := d, sm_tombstones := ts\<rparr>" "\<forall>f. tomb_path d f = tomb_path (sm_disk sm) f"
    "dk_inodes d = dk_inodes (sm_disk sm)" "\<forall>f. \<not> prefix (tombstoneDir sm) f \<longrightarrow> os_lookup d f = os_lookup (sm_disk sm) f"
    using tt(2) by (auto simp: tomb_frame_def)
  have rec1: "recovering P sm1"
    using tt(1) assms(2) unfolding recovering_def tf(1) by (auto simp: recd_def)
  define names where "names = os_ReadDir (sm_disk sm1) (activeDir sm1)"
  obtain n2 sm2 where en: "fold (recover_entry fl now) names (0, sm1) = (n2, sm2)" by (metis surj_pair)
  have sub: "set names \<subseteq> entry_names P sm1"
    using read_dir_names [OF tt(1)] unfolding names_def entry_names_def by blast
  note es = recover_entries [OF rec1 sub en]
  have sub2: "set names \<subseteq> entry_names P sm2" using sub es by (simp add: entry_names_def same_names_def)
  define sm3 where "sm3 = fold (remove_stale fl) names sm2"
  have rec2: "recovering P sm2" using es by simp
  note rs = remove_stale_fold [OF rec2 sub2, of fl, folded sm3_def]
  obtain d3 where d3: "sm3 = sm2\<lparr>sm_disk := d3\<rparr>" "dk_inodes d3 = dk_inodes (sm_disk sm2)" using rs by auto
  obtain n4 sm4 where co: "recoverConflictsFromDisk fl sm3 = (n4, sm4)" by (metis surj_pair)
  have i3: "sm_inv {} P sm3" using rs by (simp add: recovering_def)
  have c: "sm_inv {} P sm4 \<and> same_names sm3 sm4 \<and> sm_tombstones sm4 = sm_tombstones sm3 \<and>
    dk_inodes (sm_disk sm4) = dk_inodes (sm_disk sm3) \<and>
    (\<forall>q i. restored sm3 q i \<or> IsConflicted q (sm_dirtyIndex sm3) \<longrightarrow> restored sm4 q i \<or> IsConflicted q (sm_dirtyIndex sm4))"
    using co recover_conflicts [OF i3, of fl] i3 by (auto simp: recoverConflictsFromDisk_def same_names_def split: if_splits)
  have eq: "sm' = (if fl OpReadDir (activeDir sm1) then sm1 else sm4)"
    using assms(3) t en co by (simp add: RecoverFromDisk_def Let_def names_def sm3_def split: if_splits)
  show "sm_inv {} P sm'" using eq c tt(1) by simp
  have nm1: "same_names sm sm1" by (simp add: tf(1) same_names_def)
  have nm3: "same_names sm1 sm3" using es d3 by (simp add: same_names_def)
  show "same_names sm sm'" using eq nm1 nm3 c by (simp add: same_names_def split: if_splits)
  have "dk_inodes (sm_disk sm1) = dk_inodes (sm_disk sm)" using tf by simp
  then show "dk_inodes (sm_disk sm') = dk_inodes (sm_disk sm)" using eq c d3 es by simp
  have h: "hash_ok P (sm_hash sm)" using i by (simp add: sm_inv_def)
  show "gm_has (sm_tombstones sm') q" if "q \<in> P" "\<forall>a b. \<not> fl a b" "tomb_path (sm_disk sm) (tombstoneFilePath sm q) \<noteq> None" for q
    using tt(3) [OF that(1,2) hash_no_slash [OF h that(1)] that(3)] that(2) eq c d3 es by simp
  show "restored sm' q i \<or> IsConflicted q (sm_dirtyIndex sm')"
    if "q \<in> P" "\<forall>a b. \<not> fl a b" "tomb_path (sm_disk sm) (tombstoneFilePath sm q) = None" "wanted sm q i"
      "sm_sessions sm = []" "di_conflicts (sm_dirtyIndex sm) = []" for q i
  proof -
    have "\<not> gm_has ts q" using path_okD(2) [OF tt(1) that(1)] that(3) tf by auto
    moreover have "\<not> prefix (tombstoneDir sm) (stagingFilePath sm q)" "\<not> prefix (tombstoneDir sm) (meta_name sm q)"
      by (auto simp: name_defs)
    ultimately have w1: "wanted sm1 q i"
      using that(4) tf(4) by (simp add: wanted_def tf(1) data_inode_def sidecar_at_def)
    then have "os_lookup (sm_disk sm1) (stagingFilePath sm1 q) \<noteq> None" by (auto simp: wanted_def data_inode_def split: option.splits)
    then have "sm_hash sm1 q @ ''.data'' \<in> set names"
      unfolding names_def using hash_no_slash [OF h that(1)]
      by (intro read_dir_member) (auto simp: stagingFilePath_def tf(1))
    moreover have "distinct names" by (simp add: names_def os_ReadDir_def)
    ultimately have "restored sm2 q i"
      using es that w1 by (auto simp: tf(1) sessionAt_def IsConflicted_def gm_has_def)
    moreover from this have "os_lookup (sm_disk sm2) (stagingFilePath sm2 q) \<noteq> None"
      by (auto simp: restored_def data_inode_def split: option.splits)
    ultimately have "restored sm3 q i" using rs that(1) path_frame_keeps(2) by blast
    then show ?thesis using c eq that(2) by auto
  qed
qed

end
