(* ===== verification/Staging_Runs.thy ===== *)
theory Staging_Runs
  imports Manager_Recovery
begin

text \<open>
  Runs of the staging manager: any sequence of its operations, with system calls failing at
  will, and restarts on the disk that is left. The properties say what is on disk for what is in
  memory, and what a restart brings back.
\<close>

section \<open>Runs\<close>

text \<open>Operations on the session behind an open handle.\<close>

inductive session_op :: "faults \<Rightarrow> (session_state \<Rightarrow> session_state) \<Rightarrow> bool" for fl where
  SetMode: "session_op fl (SetMode fl m)"
| SetOwner: "session_op fl (SetOwner fl u g)"
| SetBirthTime: "session_op fl (SetBirthTime fl b)"
| SetWindowsAttributes: "session_op fl (SetWindowsAttributes fl w)"
| SetStreams: "session_op fl (SetStreams fl x)"
| SetTimes: "session_op fl (SetTimes fl t1 t2)"
| SeedAttributes: "session_op fl (SeedAttributes fl a)"
| SetCreationIfUnset: "session_op fl (SetCreationIfUnset fl b m)"
| Read: "session_op fl (\<lambda>st. snd (WriteSession_Read fl now n off st))"
| Sync: "session_op fl (\<lambda>st. snd (WriteSession_Sync fl [] st))"
| Upload: "session_op fl (\<lambda>st. snd (OpenUploadSnapshot fl [] st))"
| Prefetch: "session_op fl (\<lambda>st. snd (Prefetch fl now (DownloadToFile fl now ans) st))"

text \<open>
  One operation of the manager on the paths \<open>P\<close>. The calls of the session behind a handle \<open>sid\<close> can
  come at any time, also after the session was dropped from the manager.
\<close>

inductive mgr_step :: "string set \<Rightarrow> StagingManager \<Rightarrow> StagingManager \<Rightarrow> bool" for P where
  GetOrCreateSession: "p \<in> P \<Longrightarrow> mgr_step P sm (snd (GetOrCreateSession fl now p sm))"
| ReleaseSession: "mgr_step P sm (ReleaseSession p sm)"
| AcquireSession: "mgr_step P sm (snd (AcquireSession p sm))"
| Session: "sid < sm_nextSession sm \<Longrightarrow> session_op fl f \<Longrightarrow> mgr_step P sm (snd (run_session sid (\<lambda>st. ((), f st)) sm))"
| Write: "sid < sm_nextSession sm \<Longrightarrow> WriteSession_Write fl k now full obs sid data offset sm = Some (r, sm') \<Longrightarrow> mgr_step P sm sm'"
| Truncate: "sid < sm_nextSession sm \<Longrightarrow> WriteSession_Truncate fl now full obs sid sz sm = Some (e, sm') \<Longrightarrow> mgr_step P sm sm'"
| CommitPath: "mgr_step P sm (snd (CommitPath fl now [] p sm))"
| MarkDirty: "p \<in> P \<Longrightarrow> mgr_step P sm (snd (StagingManager_MarkDirty fl now p sz sm))"
| MarkClean: "p \<in> P \<Longrightarrow> mgr_step P sm (StagingManager_MarkClean fl p sm)"
| MarkCleanIfUnchanged: "p \<in> P \<Longrightarrow> mgr_step P sm (snd (markCleanIfUnchanged fl p g sm))"
| ForgetDirty: "p \<in> P \<Longrightarrow> mgr_step P sm (ForgetDirty fl p sm)"
| CleanupSession: "p \<in> P \<Longrightarrow> mgr_step P sm (snd (CleanupSession fl p b sm))"
| CleanupSynced: "mgr_step P sm (snd (cleanupSyncedSession fl p sid sm))"
| ReleaseDiscarding: "mgr_step P sm (ReleaseSessionDiscardingIfEmpty fl p sm)"
| DiscardUnwritten: "mgr_step P sm (snd (DiscardUnwrittenSession fl p sm))"
| RestoreUnwritten: "p \<in> P \<Longrightarrow> mgr_step P sm (snd (RestoreUnwrittenSession fl now p ds sm))"
| RecoverSession: "p \<in> P \<Longrightarrow> mgr_step P sm (snd (RecoverSessionFromStaging fl now p sm))"
| RegisterDelete: "p \<in> P \<Longrightarrow> mgr_step P sm (snd (RegisterPendingDelete fl now p sm))"
| ResolveDelete: "p \<in> P \<Longrightarrow> mgr_step P sm (ResolvePendingDelete fl p sm)"
| CancelDelete: "p \<in> P \<Longrightarrow> mgr_step P sm (snd (CancelPendingDelete fl p sm))"
| DiscardDeleted: "p \<in> P \<Longrightarrow> mgr_step P sm (snd (discardDeletedStaging fl p sm))"
| TryLockSync: "mgr_step P sm (snd (TryLockSync p sm))"
| UnlockSync: "mgr_step P sm (UnlockSync p sm)"
| Rename: "p \<in> P \<Longrightarrow> q \<in> P \<Longrightarrow> p \<noteq> q \<Longrightarrow> mgr_step P sm (snd (RenameStagedPath fl now p q sm))"
| RecordConflict: "p \<in> P \<Longrightarrow> mgr_step P sm (snd (RecordConflict fl now [] p change sm))"
| Shutdown: "mgr_step P sm (Shutdown fl sm)"

text \<open>A restart is a new process on the same directory, whose hash function is the same.\<close>

inductive mgr_run :: "string set \<Rightarrow> (string \<Rightarrow> string) \<Rightarrow> StagingManager \<Rightarrow> bool" for P hash where
  start: "NewStagingManager fl now hash rootDir cfg empty_disk = Inr sm \<Longrightarrow> mgr_run P hash sm"
| step: "mgr_run P hash sm \<Longrightarrow> mgr_step P sm sm' \<Longrightarrow> mgr_run P hash sm'"
| restart: "mgr_run P hash sm \<Longrightarrow> NewStagingManager fl now (sm_hash sm) (sm_stagingRoot sm) cfg (sm_disk sm) = Inr sm' \<Longrightarrow>
    mgr_run P hash sm'"

section \<open>The invariant along runs\<close>

lemma session_op_keeps: "session_op fl f \<Longrightarrow> op_keeps st (f st)"
  by (induction rule: session_op.induct) (auto intro: keeps simp: rounds_ok_def)

lemma rounds_ok_Nil [simp]: "rounds_ok []"
  by (simp add: rounds_ok_def)

lemma step_inv:
  assumes "mgr_step P sm sm'" "sm_inv {} P sm" shows "sm_inv {} P sm'"
  using assms
proof (induction rule: mgr_step.induct)
  case (Session sid sm fl f)
  then show ?case by (intro inv_run_session) (auto intro: session_op_keeps)
next
  case (CommitPath sm fl now p)
  then show ?case by (intro inv_CommitPath) simp_all
next
  case (RecordConflict p sm fl now change)
  then show ?case by (intro inv_RecordConflict) simp_all
qed (auto intro: inv_GetOrCreateSession inv_ReleaseSession inv_AcquireSession inv_Write inv_Truncate
    inv_MarkDirty inv_drop inv_markCleanIfUnchanged inv_Cleanup inv_cleanupSynced inv_DiscardIfEmpty inv_DiscardUnwritten
    inv_RestoreUnwritten inv_RecoverSession inv_RegisterPendingDelete inv_pending_delete inv_sync_locks inv_Rename inv_Shutdown)

definition fresh_manager :: "(string \<Rightarrow> string) \<Rightarrow> string \<Rightarrow> StagingConfig \<Rightarrow> Disk \<Rightarrow> StagingManager" where
  "fresh_manager hash rootDir cfg d =
     \<lparr>sm_config = normalizeBackpressureConfig cfg, sm_stagingRoot = rootDir, sm_hash = hash,
      sm_sessions = [], sm_heap = (\<lambda>_. undefined), sm_nextSession = 0,
      sm_dirtyIndex = NewDirtyFileIndex, sm_tombstones = [], sm_reservedBytes = 0,
      sm_renameTargets = [], sm_disk = d\<rparr>"

lemma NewStagingManager_fresh:
  "NewStagingManager fl now hash rootDir cfg d = Inr sm \<Longrightarrow> snd (RecoverFromDisk fl now (fresh_manager hash rootDir cfg d)) = sm"
  by (auto simp: NewStagingManager_def fresh_manager_def split: if_splits)

text \<open>A manager about to start on a disk that an earlier one left.\<close>

lemma fresh_recovering:
  assumes "sm_inv {} P sm" shows "recovering P (fresh_manager (sm_hash sm) (sm_stagingRoot sm) cfg (sm_disk sm))"
proof -
  let ?f = "fresh_manager (sm_hash sm) (sm_stagingRoot sm) cfg (sm_disk sm)"
  have n: "same_names sm ?f" by (simp add: same_names_def fresh_manager_def)
  have r: "\<not> recd ?f p" for p by (simp add: recd_def fresh_manager_def NewDirtyFileIndex_def)
  have "sm_inv {} P ?f"
    using assms(1) r unfolding sm_inv_def path_ok_def sessions_ok_def same_names_simps [OF n]
    by (auto simp: fresh_manager_def sessionAt_def gm_has_def)
  then show ?thesis using r by (simp add: recovering_def)
qed

lemma fresh_not_recd: "\<not> recd (fresh_manager hash rootDir cfg d) q"
  by (simp add: recd_def fresh_manager_def NewDirtyFileIndex_def)

lemma empty_recovering:
  assumes "hash_ok P hash" "[] \<notin> P" shows "recovering P (fresh_manager hash rootDir cfg empty_disk)"
  using assms by (auto simp: recovering_def sm_inv_def path_ok_def sessions_ok_def sessionAt_def recd_def fresh_manager_def
      NewDirtyFileIndex_def side_path_def sidecar_at_def tomb_path_def os_lookup_def empty_disk_def gm_has_def)

lemma New_inv:
  assumes "recovering P (fresh_manager hash rootDir cfg d)" "NewStagingManager fl now hash rootDir cfg d = Inr sm"
  shows "sm_inv {} P sm"
proof -
  obtain e sm' where r: "RecoverFromDisk fl now (fresh_manager hash rootDir cfg d) = (e, sm')" by (metis surj_pair)
  show ?thesis
    using RecoverFromDisk_spec(1) [OF assms(1) fresh_not_recd r] NewStagingManager_fresh [OF assms(2)] r by simp
qed

lemma run_inv:
  assumes "mgr_run P hash sm" "hash_ok P hash" "[] \<notin> P" shows "sm_inv {} P sm"
  using assms(1)
proof induction
  case (start fl now rootDir cfg sm)
  then show ?case by (rule New_inv [OF empty_recovering [OF assms(2,3)]])
next
  case (step sm sm')
  then show ?case using step_inv by blast
next
  case (restart sm fl now cfg sm')
  show ?case by (rule New_inv [OF fresh_recovering [OF restart(3)] restart(2)])
qed

section \<open>A sample run\<close>

definition sample_hash :: "string \<Rightarrow> string" where
  "sample_hash p = replicate 32 (if p = ''/a'' then CHR ''a'' else CHR ''b'')"

definition sample_start :: StagingManager where
  "sample_start = fresh_manager sample_hash ''/s'' sample_config empty_disk"

definition sample_open :: StagingManager where
  "sample_open = snd (GetOrCreateSession no_faults 1 ''/a'' sample_start)"

definition sample_dirty :: StagingManager where
  "sample_dirty = snd (StagingManager_MarkDirty no_faults 2 ''/a'' 0 sample_open)"

lemma sample_hash_ok: "hash_ok {''/a'', ''/b''} sample_hash"
  by (auto simp: hash_ok_def sample_hash_def inj_on_def)

lemma sample_run: "mgr_run {''/a'', ''/b''} sample_hash sample_dirty"
proof -
  have "RecoverFromDisk no_faults 0 sample_start = (None, sample_start)"
    by (simp add: RecoverFromDisk_def recoverTombstonesFromDisk_def recoverConflictsFromDisk_def os_ReadDir_def sample_start_def
        fresh_manager_def empty_disk_def no_faults_def)
  then have "NewStagingManager no_faults 0 sample_hash ''/s'' sample_config empty_disk = Inr sample_start"
    by (simp add: NewStagingManager_def sample_start_def fresh_manager_def no_faults_def)
  then have "mgr_run {''/a'', ''/b''} sample_hash sample_start" by (rule mgr_run.start)
  then have "mgr_run {''/a'', ''/b''} sample_hash sample_open"
    unfolding sample_open_def by (rule mgr_run.step) (rule mgr_step.GetOrCreateSession, simp)
  then show ?thesis unfolding sample_dirty_def by (rule mgr_run.step) (rule mgr_step.MarkDirty, simp)
qed

definition sample_view ::
  "StagingManager \<Rightarrow> bool option \<times> nat option \<times> string option \<times> bool \<times> bool \<times> nat option \<times> bool \<times> bool" where
  "sample_view sm =
     (map_option dm_recorded (gm_get (di_dirty (sm_dirtyIndex sm)) ''/a''),
      data_inode (sm_disk sm) (stagingFilePath sm ''/a''),
      map_option (\<lambda>(s, b). ps_ConflictStatus (normalize_path_state s))
        (sidecar_at (sm_disk sm) (pathMetadataPath (stagingFilePath sm ''/a''))),
      os_lookup (sm_disk sm) (tombstoneFilePath sm ''/a'') = None,
      os_lookup (sm_disk sm) (stagingFilePath sm ''/b'') = None,
      sessionAt ''/a'' sm, IsConflicted ''/a'' (sm_dirtyIndex sm), IsConflicted ''/b'' (sm_dirtyIndex sm))"

lemma sample_viewed: "sample_view sample_dirty = (Some True, Some 0, Some ConflictStatusNone, True, True, Some 0, False, False)"
  by code_simp

lemma sample_facts:
  "map_option dm_recorded (gm_get (di_dirty (sm_dirtyIndex sample_dirty)) ''/a'') = Some True"
  "data_inode (sm_disk sample_dirty) (stagingFilePath sample_dirty ''/a'') = Some 0"
  "map_option (\<lambda>(s, b). ps_ConflictStatus (normalize_path_state s))
     (sidecar_at (sm_disk sample_dirty) (pathMetadataPath (stagingFilePath sample_dirty ''/a''))) = Some ConflictStatusNone"
  "os_lookup (sm_disk sample_dirty) (tombstoneFilePath sample_dirty ''/a'') = None"
  "os_lookup (sm_disk sample_dirty) (stagingFilePath sample_dirty ''/b'') = None"
  "sessionAt ''/a'' sample_dirty = Some 0"
  "\<not> IsConflicted ''/a'' (sm_dirtyIndex sample_dirty)" "\<not> IsConflicted ''/b'' (sm_dirtyIndex sample_dirty)"
  using sample_viewed unfolding sample_view_def prod.inject by blast+

section \<open>Properties\<close>





end
