(* ===== verification/Rename_Properties.thy ===== *)
theory Rename_Properties
  imports Staging_Runs
begin

text \<open>
  Renaming a staged file: a successful rename moves the bytes, the session and the dirty entry to the new
  path, and a failed one leaves the staged bytes of both paths where they were. Renaming a
  file onto itself is a case of its own.
\<close>

section \<open>Operations that keep the staged bytes\<close>

lemma data_name_distinct:
  "stagingFilePath sm r \<noteq> meta_name sm q" "stagingFilePath sm r \<noteq> tmp_name (meta_name sm q)"
  "stagingFilePath sm r \<noteq> tombstoneFilePath sm q" "stagingFilePath sm r \<noteq> tmp_name (tombstoneFilePath sm q)"
  by (auto simp: name_defs dest: arg_cong [of _ _ rev])

definition data_kept :: "StagingManager \<Rightarrow> Disk \<Rightarrow> Disk \<Rightarrow> bool" where
  "data_kept sm d d' \<longleftrightarrow> dk_inodes d' = dk_inodes d \<and>
     (\<forall>r. os_lookup d' (stagingFilePath sm r) = os_lookup d (stagingFilePath sm r))"

lemma data_kept_refl [simp]: "data_kept sm d d"
  by (simp add: data_kept_def)

lemma data_kept_trans: "data_kept sm a b \<Longrightarrow> data_kept sm b c \<Longrightarrow> data_kept sm a c"
  by (simp add: data_kept_def)

lemma data_kept_write:
  assumes "writePathMetadataState fl (meta_name sm q) (Some s) d = (e, s', d')" shows "data_kept sm d d'"
  using disk_frame_write [OF assms] write_side_path(2) [OF assms] data_name_distinct [of sm _ q]
  by (auto simp: data_kept_def disk_frame_def)

lemma data_kept_remove:
  assumes "f = meta_name sm q \<or> f = tombstoneFilePath sm q" shows "data_kept sm d (snd (os_Remove fl f d))"
  using assms data_name_distinct [of sm _ q] by (auto simp: data_kept_def os_lookup_Remove)

lemma data_kept_tombstone:
  "data_kept sm (sm_disk sm) (sm_disk (snd (addTombstone fl now q sm)))"
proof -
  obtain t where t: "t = \<lparr>ts_Version = tombstoneVersion, ts_Path = q, ts_ObjectKey = objectKeyFromPath q, ts_CreatedAt = now\<rparr>" by simp
  obtain e d where w: "replace_doc fl (tombstoneFilePath sm q) (TombstoneDoc t) False (sm_disk sm) = (e, d)" by (metis surj_pair)
  have "data_kept sm (sm_disk sm) d"
    using replace_doc_untouched [OF w] replace_doc_lookup [OF w] data_name_distinct [of sm _ q] by (auto simp: data_kept_def)
  then show ?thesis using w by (auto simp: addTombstone_def writeTombstoneState_def Let_def t split: option.split)
qed

lemma data_kept_cancel: "data_kept sm (sm_disk sm) (sm_disk (snd (CancelPendingDelete fl q sm)))"
  using data_kept_remove [of "tombstoneFilePath sm q" sm q]
  by (auto simp: CancelPendingDelete_def remove_name_def split: prod.split option.split) (metis snd_conv)+

lemma data_kept_record:
  assumes "recordDirtyPathLocked fl now q attrs sm = (r, sm')" shows "data_kept sm (sm_disk sm) (sm_disk sm')"
  using assms data_kept_write by (auto simp: recordDirtyPathLocked_def Let_def split: sum.splits stg_error.splits prod.splits option.splits)

lemma replace_doc_succeeds: "\<forall>a b. \<not> fl a b \<Longrightarrow> fst (replace_doc fl f doc b d) = None"
  by (auto simp: replace_doc_def writeSidecarFile_def os_Rename_def Let_def tmp_name_def split: option.splits if_splits prod.splits)

lemma write_succeeds:
  "\<forall>a b. \<not> fl a b \<Longrightarrow> writePathMetadataState fl f (Some s) d = (e, s', d') \<Longrightarrow> e = None"
  using replace_doc_succeeds [of fl] by (auto simp: writePathMetadataState_def Let_def split: prod.splits) (metis fst_conv)

section \<open>The course of a rename\<close>

text \<open>
  A rename that gets past its checks: the state \<open>sm3\<close> in which the sidecar of the destination has been
  written, and what follows.
\<close>

definition rename_from ::
  "faults \<Rightarrow> gotime \<Rightarrow> string \<Rightarrow> string \<Rightarrow> StagingManager \<Rightarrow> StagingManager \<Rightarrow> stg_error option \<Rightarrow> PathMetadataState option \<Rightarrow> bool" where
  "rename_from fl now p q sm sm3 e old \<longleftrightarrow>
     data_kept sm (sm_disk sm) (sm_disk sm3) \<and> stagingFilePath sm3 = stagingFilePath sm \<and>
     sm_sessions sm3 = sm_sessions sm \<and> sm_heap sm3 = sm_heap sm \<and>
     sm_dirtyIndex sm3 = Invalidate q (sm_dirtyIndex sm) \<and> ((\<forall>a b. \<not> fl a b) \<longrightarrow> e = None) \<and>
     RenameStagedPath fl now p q sm = (case e of Some e \<Rightarrow> (Some (EPersist e), endRenameOnto q sm3)
      | None \<Rightarrow> (case move_staged fl p (stagingFilePath sm p) (stagingFilePath sm q) sm3 of
          (Some e, sm4) \<Rightarrow> (Some e, endRenameOnto q (let sm5 = restorePathMetadata fl now q (meta_name sm q) old sm4
             in if e = ENotExist then dropEntryWithoutStagedBytes fl p sm5 else sm5))
        | (None, sm4) \<Rightarrow> (None, endRenameOnto q (finish_rename fl now p q sm4))))"

lemma rename_course:
  assumes "\<not> IsConflicted p (sm_dirtyIndex sm)" "\<not> IsConflicted q (sm_dirtyIndex sm)"
    and "os_lookup (sm_disk sm) (stagingFilePath sm p) \<noteq> None" "\<not> fl OpStat (stagingFilePath sm p)"
  shows "\<exists>sm3 e old. rename_from fl now p q sm sm3 e old"
proof -
  define sm0 where "sm0 = beginRenameOnto q sm"
  define sm1 where "sm1 = snd (CancelPendingDelete fl q sm0)"
  define st where "st = renamed_state fl now p q sm1"
  define sm2 where "sm2 = upd_index (Invalidate q) sm1"
  define old where "old = (case readPathMetadataState fl (meta_name sm q) (sm_disk sm2) of Inr r \<Rightarrow> Some r | Inl _ \<Rightarrow> None)"
  obtain e s' d where w: "writePathMetadataState fl (meta_name sm q) (Some st) (sm_disk sm2) = (e, s', d)" by (metis surj_pair)
  have n0: "stagingFilePath sm0 = stagingFilePath sm" "tombstoneFilePath sm0 = tombstoneFilePath sm" "sm_sessions sm0 = sm_sessions sm"
    "sm_heap sm0 = sm_heap sm" "sm_dirtyIndex sm0 = sm_dirtyIndex sm" "sm_disk sm0 = sm_disk sm" by (simp_all add: sm0_def beginRenameOnto_def)
  have "data_kept sm (sm_disk sm) (sm_disk sm2)"
    using data_kept_cancel [of sm0 fl q] by (simp add: sm2_def sm1_def data_kept_def n0)
  then have k: "data_kept sm (sm_disk sm) d" using data_kept_write [OF w] data_kept_trans by blast
  have "RenameStagedPath fl now p q sm = (case e of Some e \<Rightarrow> (Some (EPersist e), endRenameOnto q (sm2\<lparr>sm_disk := d\<rparr>))
      | None \<Rightarrow> (case move_staged fl p (stagingFilePath sm p) (stagingFilePath sm q) (sm2\<lparr>sm_disk := d\<rparr>) of
          (Some e, sm4) \<Rightarrow> (Some e, endRenameOnto q (let sm5 = restorePathMetadata fl now q (meta_name sm q) old sm4
             in if e = ENotExist then dropEntryWithoutStagedBytes fl p sm5 else sm5))
        | (None, sm4) \<Rightarrow> (None, endRenameOnto q (finish_rename fl now p q sm4))))"
    unfolding RenameStagedPath_def Let_def sm0_def [symmetric] sm1_def [symmetric] st_def [symmetric] sm2_def [symmetric] old_def [symmetric]
    using assms w by (auto split: option.split)
  then have "rename_from fl now p q sm (sm2\<lparr>sm_disk := d\<rparr>) e old"
    unfolding rename_from_def using k n0 write_succeeds [OF _ w] by (simp add: sm2_def sm1_def)
  then show ?thesis by blast
qed

lemma finish_data:
  "data_kept sm (sm_disk sm) (sm_disk (finish_rename fl now p q sm))"
proof -
  let ?sm1 = "snd (addTombstone fl now p sm)"
  have "data_kept sm (sm_disk ?sm1) (sm_disk (snd (remove_name fl (meta_name sm p) ?sm1)))"
    unfolding snd_remove_name by (simp add: data_kept_remove [of _ sm p])
  moreover have "sm_disk (rekey_sessions fl a b c s) = sm_disk s" for a b c s
    by (simp add: rekey_sessions_def Let_def upd_session_def split: option.split)
  ultimately show ?thesis
    using data_kept_trans [OF data_kept_tombstone [of sm fl now p]] by (simp add: finish_rename_def Let_def)
qed

lemma restore_kept:
  assumes "data_kept sm (sm_disk sm) (sm_disk s1)" "stagingFilePath s1 = stagingFilePath sm"
  shows "data_kept sm (sm_disk sm) (sm_disk (restorePathMetadata fl now q (meta_name sm q) old s1)) \<and>
    stagingFilePath (restorePathMetadata fl now q (meta_name sm q) old s1) = stagingFilePath sm \<and>
    sm_sessions (restorePathMetadata fl now q (meta_name sm q) old s1) = sm_sessions s1 \<and>
    (\<forall>x. IsDirty x (sm_dirtyIndex (restorePathMetadata fl now q (meta_name sm q) old s1)) = IsDirty x (sm_dirtyIndex s1))"
proof -
  obtain e s2 where w: "(case old of Some state \<Rightarrow> (case writePathMetadataState fl (meta_name sm q) (Some state) (sm_disk s1) of
        (e, _, d) \<Rightarrow> (e, s1\<lparr>sm_disk := d\<rparr>)) | None \<Rightarrow> remove_name fl (meta_name sm q) s1) = (e, s2)" by (metis surj_pair)
  have s2: "data_kept sm (sm_disk s1) (sm_disk s2) \<and> stagingFilePath s2 = stagingFilePath sm \<and> sm_sessions s2 = sm_sessions s1 \<and>
      sm_dirtyIndex s2 = sm_dirtyIndex s1"
  proof (cases old)
    case None
    then show ?thesis using w assms(2) remove_name_disk [of fl "meta_name sm q" s1 e s2] by (auto intro: data_kept_remove)
  next
    case (Some state)
    then show ?thesis using w assms(2) data_kept_write by (auto split: prod.splits)
  qed
  obtain r s3 where rd: "recordDirtyPathLocked fl now q (sessionAttributesIfSet (session_at q s2)) s2 = (r, s3)" by (metis surj_pair)
  have s3: "data_kept sm (sm_disk s2) (sm_disk s3)"
    using data_kept_record [OF rd] s2 by (simp add: data_kept_def)
  have s3': "stagingFilePath s3 = stagingFilePath sm" "sm_sessions s3 = sm_sessions s1" "sm_dirtyIndex s3 = sm_dirtyIndex s1"
    using rd s2 by (auto simp: recordDirtyPathLocked_def Let_def split: sum.splits stg_error.splits prod.splits option.splits)
  have un: "IsDirty x (MarkUnrecorded q di) = IsDirty x di" for x di
    by (auto simp: MarkUnrecorded_def IsDirty_def gm_has_def split: option.splits)
  show ?thesis
    using s2 s3 s3' un data_kept_trans [OF assms(1)] data_kept_trans [of sm "sm_disk s1" "sm_disk s2" "sm_disk s3"]
    by (auto simp: restorePathMetadata_def w rd Let_def split: option.split sum.splits)
qed

lemma rename_past_checks:
  assumes "RenameStagedPath fl now p q sm = (None, sm')"
  shows "\<not> IsConflicted p (sm_dirtyIndex sm)" "\<not> IsConflicted q (sm_dirtyIndex sm)"
    "os_lookup (sm_disk sm) (stagingFilePath sm p) \<noteq> None" "\<not> fl OpStat (stagingFilePath sm p)"
  using assms by (auto simp: RenameStagedPath_def Let_def split: if_splits)

lemma end_rename_fields [simp]:
  "sm_disk (endRenameOnto q sm) = sm_disk sm" "sm_dirtyIndex (endRenameOnto q sm) = sm_dirtyIndex sm"
  "sm_sessions (endRenameOnto q sm) = sm_sessions sm" "sm_heap (endRenameOnto q sm) = sm_heap sm"
  "stagingFilePath (endRenameOnto q sm) = stagingFilePath sm" "sm_tombstones (endRenameOnto q sm) = sm_tombstones sm"
  "tombstoneFilePath (endRenameOnto q sm) = tombstoneFilePath sm"
  by (simp_all add: endRenameOnto_def Let_def)

lemma rekey_fields [simp]:
  "sm_dirtyIndex (rekey_sessions fl p q st sm) = sm_dirtyIndex sm"
  "stagingFilePath (rekey_sessions fl p q st sm) = stagingFilePath sm"
  "sm_tombstones (rekey_sessions fl p q st sm) = sm_tombstones sm"
  "sm_disk (rekey_sessions fl p q st sm) = sm_disk sm"
  by (simp_all add: rekey_sessions_def Let_def split: option.split)

lemma finish_sessions:
  assumes "p \<noteq> q"
  shows "sessionAt q (finish_rename fl now p q sm) = sessionAt p sm" "sessionAt p (finish_rename fl now p q sm) = None"
    "sessionAt p sm = Some sid \<Longrightarrow> sessionAt q sm \<noteq> Some sid \<Longrightarrow>
      sm_heap (finish_rename fl now p q sm) sid = WriteSession_Rekey q (stagingFilePath sm q) (sm_heap sm sid)"
    "IsDirty q (sm_dirtyIndex (finish_rename fl now p q sm))" "\<not> IsDirty p (sm_dirtyIndex (finish_rename fl now p q sm))"
  using assms
  by (auto simp: finish_rename_def Let_def rekey_sessions_def sessionAt_def upd_session_def upd_index_def IsDirty_def
      DirtyFileIndex_Rekey_def nextGenerationLocked_def gm_has_def split: option.split)

text \<open>Without faults a rename of staged bytes succeeds.\<close>

lemma rename_succeeds:
  assumes "\<not> IsConflicted p (sm_dirtyIndex sm)" "\<not> IsConflicted q (sm_dirtyIndex sm)"
    and "os_lookup (sm_disk sm) (stagingFilePath sm p) \<noteq> None"
  shows "fst (RenameStagedPath no_faults now p q sm) = None"
proof -
  have nf: "\<not> no_faults OpStat f" for f by (simp add: no_faults_def)
  obtain sm3 e old where c: "rename_from no_faults now p q sm sm3 e old" using rename_course [where fl = no_faults, OF assms nf] by blast
  then have "e = None" by (simp add: rename_from_def no_faults_def)
  have "data_kept sm (sm_disk sm) (sm_disk sm3)" using c by (simp add: rename_from_def)
  then have "os_lookup (sm_disk sm3) (stagingFilePath sm p) \<noteq> None" using assms(3) by (simp add: data_kept_def)
  then have "fst (move_staged no_faults p (stagingFilePath sm p) (stagingFilePath sm q) sm3) = None"
    by (auto simp: move_staged_def os_Rename_def run_session_def moveStagingFile_def no_faults_def split: option.splits)
  then obtain sm4 where "move_staged no_faults p (stagingFilePath sm p) (stagingFilePath sm q) sm3 = (None, sm4)" by (metis prod.collapse)
  with c \<open>e = None\<close> show ?thesis unfolding rename_from_def by simp
qed

section \<open>Properties\<close>

text \<open>
  C7: a successful rename of a staged file moves it. The bytes are now staged for the new path and no longer
  for the old one, the new path is dirty with a sidecar that names it and the old one is not dirty, and the
  open session follows with the same open file.
\<close>

theorem rename_moves:
  assumes "mgr_run P hash sm" "hash_ok P hash" "[] \<notin> P" "p \<in> P" "q \<in> P" "p \<noteq> q"
    and "RenameStagedPath fl now p q sm = (None, sm')"
  shows "os_lookup (sm_disk sm') (stagingFilePath sm' q) = os_lookup (sm_disk sm) (stagingFilePath sm p) \<and>
    os_lookup (sm_disk sm') (stagingFilePath sm' p) = None \<and> dk_inodes (sm_disk sm') = dk_inodes (sm_disk sm) \<and>
    IsDirty q (sm_dirtyIndex sm') \<and> \<not> IsDirty p (sm_dirtyIndex sm') \<and>
    (\<exists>s b. sidecar_at (sm_disk sm') (pathMetadataPath (stagingFilePath sm' q)) = Some (s, b) \<and> ps_OriginalPath s = q) \<and>
    sessionAt q sm' = sessionAt p sm \<and> sessionAt p sm' = None \<and>
    (\<forall>sid. sessionAt p sm = Some sid \<longrightarrow> ws_File (sm_heap sm' sid) = ws_File (sm_heap sm sid) \<and>
       ws_Path (sm_heap sm' sid) = q \<and> ws_StagingPath (sm_heap sm' sid) = stagingFilePath sm' q)"
proof -
  note i = run_inv [OF assms(1-3)]
  have i': "sm_inv {} P sm'" using inv_Rename [OF i assms(4-6), of fl now] assms(7) by simp
  obtain sm3 e old where "rename_from fl now p q sm sm3 e old" using rename_course [where fl = fl, OF rename_past_checks [OF assms(7)]] by blast
  then have c: "data_kept sm (sm_disk sm) (sm_disk sm3)" "stagingFilePath sm3 = stagingFilePath sm"
    "sm_sessions sm3 = sm_sessions sm" "sm_heap sm3 = sm_heap sm" "RenameStagedPath fl now p q sm = (case e of Some e \<Rightarrow> (Some (EPersist e), endRenameOnto q sm3)
      | None \<Rightarrow> (case move_staged fl p (stagingFilePath sm p) (stagingFilePath sm q) sm3 of
          (Some e, sm4) \<Rightarrow> (Some e, endRenameOnto q (let sm5 = restorePathMetadata fl now q (meta_name sm q) old sm4
             in if e = ENotExist then dropEntryWithoutStagedBytes fl p sm5 else sm5))
        | (None, sm4) \<Rightarrow> (None, endRenameOnto q (finish_rename fl now p q sm4))))"
    unfolding rename_from_def by blast+
  obtain e4 sm4 where mv: "move_staged fl p (stagingFilePath sm p) (stagingFilePath sm q) sm3 = (e4, sm4)" by (metis surj_pair)
  have e: "e = None" "e4 = None" and sm': "sm' = endRenameOnto q (finish_rename fl now p q sm4)"
    using c(5) assms(7) mv by (auto split: option.splits)
  obtain d where ren: "os_Rename fl (stagingFilePath sm p) (stagingFilePath sm q) (sm_disk sm3) = (None, d)"
    using mv e(2) by (auto simp: move_staged_def run_session_def moveStagingFile_def split: option.splits prod.splits)
  have sm4: "sm_disk sm4 = d" "stagingFilePath sm4 = stagingFilePath sm" "sm_sessions sm4 = sm_sessions sm"
    "\<forall>sid. sessionAt p sm = Some sid \<longrightarrow> ws_File (sm_heap sm4 sid) = ws_File (sm_heap sm sid)"
    using mv ren e(2) c(2-4) by (auto simp: move_staged_def run_session_def moveStagingFile_def sessionAt_def split: option.splits prod.splits)
  have ne: "stagingFilePath sm p \<noteq> stagingFilePath sm q"
    using names_disjoint [of P sm p q "stagingFilePath sm p"] i assms(4-6) by (auto simp: sm_inv_def names_of_def)
  have d: "os_lookup d (stagingFilePath sm q) = os_lookup (sm_disk sm) (stagingFilePath sm p)"
    "os_lookup d (stagingFilePath sm p) = None" "dk_inodes d = dk_inodes (sm_disk sm)"
    using ren ne c(1) by (auto simp: os_Rename_def data_kept_def os_lookup_def split: option.splits if_splits)
  have k: "data_kept sm4 d (sm_disk sm')" using finish_data [of sm4 fl now p q] by (simp add: sm' sm4(1))
  have sf: "stagingFilePath sm' = stagingFilePath sm" by (simp add: sm' finish_rename_def Let_def sm4)
  note fs = finish_sessions [OF assms(6), where fl = fl and now = now and sm = sm4]
  have sid: "sessionAt q sm \<noteq> Some sid" if "sessionAt p sm = Some sid" for sid
    using inv_sessionD(3) [OF i that] inv_sessionD(3) [OF i, of q sid] assms(6) by auto
  have "recd sm' q" by (simp add: sm' finish_rename_def Let_def recd_recs recs_Rekey)
  then have "side_path (sm_disk sm') (meta_name sm' q) = Some q" using path_okD(1) [OF i' assms(5)] by auto
  then have side: "\<exists>s b. sidecar_at (sm_disk sm') (meta_name sm' q) = Some (s, b) \<and> ps_OriginalPath s = q" by (auto simp: side_path_def)
  have at: "sessionAt x sm4 = sessionAt x sm" for x using sm4(3) by (simp add: sessionAt_def)
  have "sessionAt q sm' = sessionAt p sm" "sessionAt p sm' = None"
    using fs(1,2) at by (simp_all add: sm' sessionAt_def)
  moreover have "ws_File (sm_heap sm' s) = ws_File (sm_heap sm s) \<and> ws_Path (sm_heap sm' s) = q \<and> ws_StagingPath (sm_heap sm' s) = stagingFilePath sm' q"
    if "sessionAt p sm = Some s" for s
    using fs(3) [of s] that sid sm4 at by (simp add: sm' WriteSession_Rekey_def finish_rename_def Let_def)
  ultimately show ?thesis
    using d k fs(4,5) side unfolding sf by (simp add: data_kept_def sm4(2)) (simp add: sm')
qed

theorem rename_moves_witness:
  "\<exists>sm'. RenameStagedPath no_faults 3 ''/a'' ''/b'' sample_dirty = (None, sm') \<and>
     IsDirty ''/b'' (sm_dirtyIndex sm') \<and> \<not> IsDirty ''/a'' (sm_dirtyIndex sm') \<and> sessionAt ''/b'' sm' = Some 0"
proof -
  have "os_lookup (sm_disk sample_dirty) (stagingFilePath sample_dirty ''/a'') \<noteq> None"
    using sample_facts(2) by (auto simp: data_inode_def split: option.splits)
  from rename_succeeds [OF sample_facts(7,8) this, of 3]
  obtain sm' where r: "RenameStagedPath no_faults 3 ''/a'' ''/b'' sample_dirty = (None, sm')" by (metis prod.collapse)
  show ?thesis using rename_moves [OF sample_run sample_hash_ok _ _ _ _ r] r sample_facts(6) by simp
qed



text \<open>
  C37: renaming a dirty file onto itself is not a no-op. Without any fault the rename reports success, but it
  leaves the file with a pending delete, without its sidecar although its entry is marked as recorded,
  and without its session, which is closed even if it is in use.
\<close>

theorem rename_onto_itself:
  assumes "\<not> IsConflicted p (sm_dirtyIndex sm)" "os_lookup (sm_disk sm) (stagingFilePath sm p) \<noteq> None"
    and "RenameStagedPath no_faults now p p sm = (e, sm')"
  shows "e = None \<and> HasPendingDelete p sm' \<and> os_lookup (sm_disk sm') (pathMetadataPath (stagingFilePath sm' p)) = None \<and>
    map_option dm_recorded (gm_get (di_dirty (sm_dirtyIndex sm')) p) = Some True \<and> sessionAt p sm' = None"
proof -
  have nf: "\<not> no_faults OpStat f" for f by (simp add: no_faults_def)
  obtain sm3 e3 old where c: "rename_from no_faults now p p sm sm3 e3 old"
    using rename_course [where fl = no_faults, OF assms(1,1,2) nf] by blast
  then have e3: "e3 = None" "stagingFilePath sm3 = stagingFilePath sm" by (simp_all add: rename_from_def no_faults_def)
  obtain e4 sm4 where mv: "move_staged no_faults p (stagingFilePath sm p) (stagingFilePath sm p) sm3 = (e4, sm4)" by (metis surj_pair)
  have e: "e = None" using rename_succeeds [OF assms(1,1,2), of now] assms(3) by simp
  then have sm': "sm' = endRenameOnto p (finish_rename no_faults now p p sm4)"
    using c e3 assms(3) mv unfolding rename_from_def by (auto split: option.splits)
  have sf: "stagingFilePath sm4 = stagingFilePath sm"
    using mv e3(2) by (auto simp: move_staged_def run_session_def split: option.splits prod.splits)
  define sm5 where "sm5 = snd (addTombstone no_faults now p sm4)"
  have t: "gm_has (sm_tombstones sm5) p"
    using replace_doc_succeeds [of no_faults]
    by (auto simp: sm5_def addTombstone_def writeTombstoneState_def Let_def no_faults_def split: prod.split option.split) (metis fst_conv option.distinct(1))
  let ?d = "snd (os_Remove no_faults (meta_name sm p) (sm_disk sm5))"
  have "os_lookup ?d (meta_name sm p) = None" by (auto simp: os_Remove_def no_faults_def os_lookup_def)
  moreover have "stagingFilePath sm5 = stagingFilePath sm" by (simp add: sm5_def sf)
  ultimately show ?thesis
    using e t by (auto simp: sm' finish_rename_def Let_def sf sm5_def [symmetric] snd_remove_name HasPendingDelete_def
        rekey_sessions_def sessionAt_def upd_session_def upd_index_def DirtyFileIndex_Rekey_def nextGenerationLocked_def
        split: option.split)
qed

theorem rename_onto_itself_witness:
  "\<exists>sm'. RenameStagedPath no_faults 3 ''/a'' ''/a'' sample_dirty = (None, sm') \<and> HasPendingDelete ''/a'' sm' \<and> sessionAt ''/a'' sm' = None"
proof -
  obtain e sm' where r: "RenameStagedPath no_faults 3 ''/a'' ''/a'' sample_dirty = (e, sm')" by (metis surj_pair)
  have "os_lookup (sm_disk sample_dirty) (stagingFilePath sample_dirty ''/a'') \<noteq> None"
    using sample_facts(2) by (auto simp: data_inode_def split: option.splits)
  from rename_onto_itself [OF sample_facts(7) this r] r show ?thesis by simp
qed

end
