(* ===== verification/Streams_Codec.thy ===== *)
theory Streams_Codec
  imports Staging_Types Go_Text "HOL-Library.List_Lexorder" "HOL-Library.Char_ord"
begin

text \<open>
  The metadata value that keeps a file's named data streams
  (\<^verbatim>\<open>src/internal/posix/streams.go\<close>): length-prefixed names and contents in the order of the
  names, in unpadded base64. The first section is the part of Go's \<^verbatim>\<open>encoding/base64\<close> and
  \<^verbatim>\<open>encoding/binary\<close> packages the code uses.
\<close>

section \<open>Unpadded base64 and unsigned varints\<close>

definition byte_of :: "char \<Rightarrow> byte" where
  "byte_of c = of_nat (of_char c)"

definition char_of_byte :: "byte \<Rightarrow> char" where
  "char_of_byte b = char_of (unat b)"

lemma char_of_byte_of [simp]: "char_of_byte (byte_of c) = c"
proof -
  have "(of_char c :: nat) < 2 ^ 8" using of_char_mod_256 [of c, where 'a = nat] mod_less_divisor [of 256 "of_char c"] by simp
  then show ?thesis by (simp add: char_of_byte_def byte_of_def unat_of_nat take_bit_nat_eq_self)
qed

lemma bytes_of_string [simp]: "map (char_of_byte \<circ> byte_of) s = s"
  by (simp add: comp_def)

definition b64_char :: "nat \<Rightarrow> char" where
  "b64_char n =
     (if n < 26 then char_of (65 + n) else if n < 52 then char_of (71 + n)
      else if n < 62 then char_of (n - 4) else if n = 62 then CHR ''+'' else CHR ''/'')"

definition b64_val :: "char \<Rightarrow> nat option" where
  "b64_val c =
     (let n = of_char c :: nat
      in if 65 \<le> n \<and> n \<le> 90 then Some (n - 65) else if 97 \<le> n \<and> n \<le> 122 then Some (n - 71)
         else if 48 \<le> n \<and> n \<le> 57 then Some (n + 4) else if c = CHR ''+'' then Some 62
         else if c = CHR ''/'' then Some 63 else None)"

fun b64_sextets :: "bytes \<Rightarrow> nat list" where
  "b64_sextets [] = []"
| "b64_sextets [b0] = [unat b0 div 4, unat b0 mod 4 * 16]"
| "b64_sextets [b0, b1] = [unat b0 div 4, unat b0 mod 4 * 16 + unat b1 div 16, unat b1 mod 16 * 4]"
| "b64_sextets (b0 # b1 # b2 # bs) =
     unat b0 div 4 # (unat b0 mod 4 * 16 + unat b1 div 16) # (unat b1 mod 16 * 4 + unat b2 div 64)
     # unat b2 mod 64 # b64_sextets bs"

fun b64_unsextets :: "nat list \<Rightarrow> bytes option" where
  "b64_unsextets [] = Some []"
| "b64_unsextets [s0] = None"
| "b64_unsextets [s0, s1] = Some [of_nat (s0 * 4 + s1 div 16)]"
| "b64_unsextets [s0, s1, s2] = Some [of_nat (s0 * 4 + s1 div 16), of_nat (s1 mod 16 * 16 + s2 div 4)]"
| "b64_unsextets (s0 # s1 # s2 # s3 # ss) =
     map_option (\<lambda>bs. of_nat (s0 * 4 + s1 div 16) # of_nat (s1 mod 16 * 16 + s2 div 4)
       # of_nat (s2 mod 4 * 64 + s3) # bs) (b64_unsextets ss)"

definition EncodeToString :: "bytes \<Rightarrow> string" where
  "EncodeToString bs = map b64_char (b64_sextets bs)"

text \<open>Decoding skips line ends and refuses every other character outside the alphabet.\<close>

definition DecodeString :: "string \<Rightarrow> bytes option" where
  "DecodeString s =
     (let t = filter (\<lambda>c. c \<noteq> char_of (10 :: nat) \<and> c \<noteq> char_of (13 :: nat)) s
      in if \<exists>c \<in> set t. b64_val c = None then None else b64_unsextets (map (the \<circ> b64_val) t))"

definition EncodedLen :: "nat \<Rightarrow> nat" where
  "EncodedLen n = n div 3 * 4 + (n mod 3 * 8 + 5) div 6"

function AppendUvarint :: "bytes \<Rightarrow> nat \<Rightarrow> bytes" where
  "AppendUvarint dst x =
     (if 128 \<le> x then AppendUvarint (dst @ [of_nat (x mod 128 + 128)]) (x div 128) else dst @ [of_nat x])"
  by pat_completeness auto

termination AppendUvarint
  by (relation "measure snd") auto

declare AppendUvarint.simps [simp del]

text \<open>The value and the number of bytes read; no result when the buffer is too small or the value too large.\<close>

fun Uvarint :: "nat \<Rightarrow> nat \<Rightarrow> bytes \<Rightarrow> (nat \<times> nat) option" where
  "Uvarint i x [] = None"
| "Uvarint i x (b # bs) =
     (if i = 10 then None
      else if unat b < 128 then (if i = 9 \<and> 1 < unat b then None else Some (x + unat b * 2 ^ (7 * i), i + 1))
      else Uvarint (i + 1) (x + unat b mod 128 * 2 ^ (7 * i)) bs)"

lemma byte_roundtrip: "n < 256 \<Longrightarrow> unat (of_nat n :: byte) = n"
  by (simp add: unat_of_nat take_bit_nat_eq_self)

lemma byte_less: "unat (b :: byte) < 256"
  using unsigned_less [of b, where 'a = nat] by simp

lemma b64_val_char: "n < 64 \<Longrightarrow> b64_val (b64_char n) = Some n"
  by (auto simp: b64_val_def b64_char_def Let_def)

lemma b64_char_visible: "b64_char n \<noteq> char_of (10 :: nat) \<and> b64_char n \<noteq> char_of (13 :: nat)"
proof -
  have "b64_val (b64_char n) \<noteq> None" by (cases "n < 64") (simp_all add: b64_val_char, simp add: b64_char_def b64_val_def)
  moreover have "b64_val (char_of (10 :: nat)) = None" "b64_val (char_of (13 :: nat)) = None" by code_simp+
  ultimately show ?thesis by metis
qed

lemma split_byte:
  fixes a b :: nat
  assumes "b < 256"
  shows "a mod 4 * 16 + b div 16 < 64" "a mod 16 * 4 + b div 64 < 64"
    "(a mod 4 * 16 + b div 16) div 16 = a mod 4" "(a mod 4 * 16 + b div 16) mod 16 = b div 16"
    "(a mod 16 * 4 + b div 64) div 4 = a mod 16" "(a mod 16 * 4 + b div 64) mod 4 = b div 64"
    "b div 16 mod 16 = b div 16" "b div 64 mod 4 = b div 64"
proof -
  have "a mod 4 < 4" "a mod 16 < 16" "b div 16 < 16" "b div 64 < 4" using assms by (simp_all add: less_mult_imp_div_less)
  then show "a mod 4 * 16 + b div 16 < 64" "a mod 16 * 4 + b div 64 < 64" by linarith+
qed (use assms in \<open>simp_all add: less_mult_imp_div_less\<close>)

lemma join_byte: "(a :: nat) div 4 * 4 + a mod 4 = a" "a div 16 * 16 + a mod 16 = a" "a div 64 * 64 + a mod 64 = a"
  by simp_all

lemmas split_bytes = split_byte [OF byte_less] join_byte

lemma b64_sextets_less: "s \<in> set (b64_sextets bs) \<Longrightarrow> s < 64"
  by (induction bs rule: b64_sextets.induct)
    (auto simp: split_bytes byte_less less_mult_imp_div_less intro: order_less_le_trans [OF mod_less_divisor])

lemma b64_unsextets_sextets: "b64_unsextets (b64_sextets bs) = Some bs"
  by (induction bs rule: b64_sextets.induct) (simp_all add: split_bytes del: of_nat_add of_nat_mult)

lemma DecodeString_EncodeToString: "DecodeString (EncodeToString bs) = Some bs"
proof -
  have "filter (\<lambda>c. c \<noteq> char_of (10 :: nat) \<and> c \<noteq> char_of (13 :: nat)) (EncodeToString bs) = EncodeToString bs"
    using b64_char_visible by (auto simp: EncodeToString_def intro: filter_True)
  moreover have "map (the \<circ> b64_val) (EncodeToString bs) = b64_sextets bs"
    using b64_sextets_less [of _ bs] by (auto simp: EncodeToString_def b64_val_char intro: map_idI)
  moreover have "b64_val c \<noteq> None" if "c \<in> set (EncodeToString bs)" for c
    using that b64_sextets_less [of _ bs] by (auto simp: EncodeToString_def b64_val_char)
  ultimately show ?thesis by (auto simp: DecodeString_def Let_def b64_unsextets_sextets)
qed

lemma length_EncodeToString: "length (EncodeToString bs) = EncodedLen (length bs)"
proof -
  have "length (b64_sextets bs) = EncodedLen (length bs)"
    by (induction bs rule: b64_sextets.induct) (auto simp: EncodedLen_def div_add_self1)
  then show ?thesis by (simp add: EncodeToString_def)
qed

lemma AppendUvarint_append: "AppendUvarint dst x = dst @ AppendUvarint [] x"
proof (induction x arbitrary: dst rule: less_induct)
  case (less x)
  show ?case
  proof (cases "128 \<le> x")
    case True
    then have "AppendUvarint (dst' @ [b]) (x div 128) = dst' @ [b] @ AppendUvarint [] (x div 128)" for dst' b
      using less.IH [of "x div 128" "dst' @ [b]"] by simp
    note * = this [of dst] this [of "[]"]
    show ?thesis
      using True by (subst (1 2) AppendUvarint.simps) (simp add: * [simplified])
  next
    case False
    then show ?thesis by (subst (1 2) AppendUvarint.simps) simp
  qed
qed

lemma AppendUvarint_rec:
  "AppendUvarint [] x = (if 128 \<le> x then of_nat (x mod 128 + 128) # AppendUvarint [] (x div 128) else [of_nat x])"
  using AppendUvarint_append [of "[of_nat (x mod 128 + 128)]" "x div 128"] by (subst AppendUvarint.simps) simp

lemma Uvarint_AppendUvarint:
  assumes "x * 2 ^ (7 * i) < 2 ^ 64" "i \<le> 9"
  shows "Uvarint i acc (AppendUvarint [] x @ rest) = Some (acc + x * 2 ^ (7 * i), i + length (AppendUvarint [] x))"
  using assms
proof (induction x arbitrary: i acc rule: less_induct)
  case (less x)
  show ?case
  proof (cases "128 \<le> x")
    case True
    have "x div 128 * 2 ^ (7 * (i + 1)) = x div 128 * 128 * 2 ^ (7 * i)" by (simp add: power_add)
    also have "\<dots> \<le> x * 2 ^ (7 * i)" by simp
    finally have small: "x div 128 * 2 ^ (7 * (i + 1)) < 2 ^ 64" using less.prems(1) by linarith
    have "i \<noteq> 9" using True less.prems(1) by auto
    moreover have "x mod 128 * 2 ^ (7 * i) + x div 128 * 2 ^ (7 * (i + 1)) = x * 2 ^ (7 * i)"
    proof -
      have "x mod 128 * 2 ^ (7 * i) + x div 128 * 2 ^ (7 * (i + 1)) = (x mod 128 + x div 128 * 128) * 2 ^ (7 * i)"
        unfolding add_mult_distrib by (simp add: power_add)
      then show ?thesis by (simp only: mod_div_mult_eq)
    qed
    moreover have b: "unat (of_nat (x mod 128 + 128) :: byte) = x mod 128 + 128"
      by (rule byte_roundtrip) (use mod_less_divisor [of 128 x] in linarith)
    moreover have "(x mod 128 + 128) mod 128 = x mod 128" by simp
    ultimately show ?thesis
      using True less.prems(2) less.IH [of "x div 128" "i + 1" "acc + x mod 128 * 2 ^ (7 * i)", OF _ small]
      by (subst (1 2) AppendUvarint_rec) (simp add: b del: of_nat_add)
  next
    case False
    then have "unat (of_nat x :: byte) = x" by (simp add: byte_roundtrip)
    with False less.prems show ?thesis by (subst (1 2) AppendUvarint_rec) auto
  qed
qed

lemma Uvarint_size: "Uvarint i x bs = Some (n, k) \<Longrightarrow> i < k \<and> k \<le> i + length bs"
  by (induction i x bs rule: Uvarint.induct) (auto split: if_splits)

section \<open>Named streams\<close>

definition appendStreams :: "bytes \<Rightarrow> streams \<Rightarrow> bytes" where
  "appendStreams dst streams =
     foldl (\<lambda>dst name.
         let dst = AppendUvarint dst (length name);
             dst = dst @ map byte_of name;
             dst = AppendUvarint dst (length (gm_or [] streams name))
         in dst @ gm_or [] streams name)
       dst (sort (gm_keys streams))"

definition EncodeStreams :: "streams \<Rightarrow> string" where
  "EncodeStreams streams = EncodeToString (appendStreams [] streams)"

definition takeField :: "bytes \<Rightarrow> (bytes \<times> bytes) option" where
  "takeField b =
     (case Uvarint 0 0 b of
        None \<Rightarrow> None
      | Some (n, s) \<Rightarrow> if length b - s < n then None else (let b = drop s b in Some (take n b, drop n b)))"

lemma takeField_shorter: "takeField b = Some (f, r) \<Longrightarrow> length r < length b"
  using Uvarint_size [of 0 0 b] by (auto simp: takeField_def Let_def split: option.splits if_splits)

text \<open>The loop of \<^verbatim>\<open>DecodeStreams\<close>; \<^const>\<open>None\<close> is its early return.\<close>

function decode_fields :: "streams \<Rightarrow> bytes \<Rightarrow> streams option" where
  "decode_fields streams raw =
     (if raw = [] then Some streams
      else case takeField raw of
             None \<Rightarrow> None
           | Some (name, rest) \<Rightarrow>
               (case takeField rest of
                  None \<Rightarrow> None
                | Some (data, rest) \<Rightarrow> decode_fields (gm_set (map char_of_byte name) data streams) rest))"
  by pat_completeness auto

termination decode_fields
  by (relation "measure (length \<circ> snd)") (auto dest!: takeField_shorter)

declare decode_fields.simps [simp del]

definition DecodeStreams :: "string \<Rightarrow> streams" where
  "DecodeStreams v =
     (case DecodeString v of
        None \<Rightarrow> []
      | Some raw \<Rightarrow> (case decode_fields [] raw of None \<Rightarrow> [] | Some streams \<Rightarrow> streams))"

definition StreamsSize :: "streams \<Rightarrow> nat" where
  "StreamsSize streams = (if streams = [] then 0 else EncodedLen (length (appendStreams [] streams)))"

subsection \<open>Round trip\<close>

definition field :: "bytes \<Rightarrow> bytes" where
  "field b = AppendUvarint [] (length b) @ b"

lemma takeField_field:
  assumes "length b < 2 ^ 64"
  shows "takeField (field b @ rest) = Some (b, rest)"
  using Uvarint_AppendUvarint [of "length b" 0 0 "b @ rest"] assms by (simp add: takeField_def field_def Let_def)

lemma appendStreams_fields:
  "appendStreams dst s = dst @ concat (map (\<lambda>n. field (map byte_of n) @ field (gm_or [] s n)) (sort (gm_keys s)))"
proof -
  have "foldl (\<lambda>dst name.
         let dst = AppendUvarint dst (length name);
             dst = dst @ map byte_of name;
             dst = AppendUvarint dst (length (gm_or [] s name))
         in dst @ gm_or [] s name) dst ns =
      dst @ concat (map (\<lambda>n. field (map byte_of n) @ field (gm_or [] s n)) ns)" for ns
  proof (induction ns arbitrary: dst)
    case (Cons n ns)
    have "AppendUvarint (AppendUvarint dst (length n) @ map byte_of n) k =
        dst @ field (map byte_of n) @ AppendUvarint [] k" for k
      by (subst AppendUvarint_append, subst AppendUvarint_append) (simp add: field_def)
    then show ?case using Cons.IH by (simp add: Let_def field_def)
  qed simp
  then show ?thesis by (simp add: appendStreams_def)
qed

lemma field_not_Nil [simp]: "field b \<noteq> []"
  by (subst field_def, subst AppendUvarint_rec) simp

lemma decode_fields_concat:
  assumes "\<forall>n \<in> set ns. length n < 2 ^ 64 \<and> length (f n) < 2 ^ 64"
  shows "decode_fields s (concat (map (\<lambda>n. field (map byte_of n) @ field (f n)) ns)) =
    Some (foldl (\<lambda>s n. gm_set n (f n) s) s ns)"
  using assms
proof (induction ns arbitrary: s)
  case Nil
  then show ?case by (simp add: decode_fields.simps)
next
  case (Cons n ns)
  then show ?case by (subst decode_fields.simps) (simp add: takeField_field)
qed

lemma foldl_set_get:
  "gm_get (foldl (\<lambda>s n. gm_set n (f n) s) s ns) = (\<lambda>k. if k \<in> set ns then Some (f k) else gm_get s k)"
  by (induction ns arbitrary: s) (auto simp: fun_eq_iff)

definition streams_fit :: "streams \<Rightarrow> bool" where
  "streams_fit s \<longleftrightarrow> (\<forall>(n, d) \<in> set s. length n < 2 ^ 64 \<and> length d < 2 ^ 64)"

lemma Decode_EncodeStreams:
  assumes "streams_fit s"
  shows "gm_get (DecodeStreams (EncodeStreams s)) = gm_get s"
proof -
  let ?ns = "sort (gm_keys s)"
  have "\<forall>n \<in> set ?ns. length n < 2 ^ 64 \<and> length (gm_or [] s n) < 2 ^ 64"
    using assms map_of_SomeD [of s]
    by (fastforce simp: streams_fit_def gm_or_def split: option.splits)
  then have "DecodeStreams (EncodeStreams s) = foldl (\<lambda>t n. gm_set n (gm_or [] s n) t) [] ?ns"
    by (simp add: DecodeStreams_def EncodeStreams_def DecodeString_EncodeToString appendStreams_fields decode_fields_concat)
  then show ?thesis
    using gm_keys_dom [of s] by (auto simp: foldl_set_get fun_eq_iff gm_or_def split: option.splits)
qed

lemma EncodeStreams_size: "s \<noteq> [] \<Longrightarrow> StreamsSize s = length (EncodeStreams s)"
  by (simp add: StreamsSize_def EncodeStreams_def length_EncodeToString)

lemma decode_fields_wf: "decode_fields s raw = Some t \<Longrightarrow> gm_wf s \<Longrightarrow> gm_wf t"
  by (induction s raw rule: decode_fields.induct)
    (subst (asm) decode_fields.simps, auto split: if_splits option.splits)

lemma DecodeStreams_wf [simp]: "gm_wf (DecodeStreams v)"
  using decode_fields_wf [of "[]"] by (auto simp: DecodeStreams_def split: option.splits)

end
