(* ===== verification/Posix_Attributes.thy ===== *)
theory Posix_Attributes
  imports Streams_Codec
begin

text \<open>
  POSIX attributes in the user metadata of an object (\<^verbatim>\<open>src/internal/posix/attributes.go\<close>):
  encoding, decoding with case-insensitive and legacy keys, merging over existing metadata, and
  attribute updates. Metadata is an association list in the order a \<^verbatim>\<open>range\<close> loop visits it. The
  time the process started and the offset from UTC (in minutes) of the location of each time are
  parameters. Metadata keys are header names, so lower-casing them concerns ASCII letters only.
\<close>

unbundle bit_operations_syntax

section \<open>Encoding\<close>

definition MetaKeyMode :: string where "MetaKeyMode = ''mode''"
definition MetaKeyUID :: string where "MetaKeyUID = ''uid''"
definition MetaKeyGID :: string where "MetaKeyGID = ''gid''"
definition MetaKeyAtime :: string where "MetaKeyAtime = ''atime''"
definition MetaKeyMtime :: string where "MetaKeyMtime = ''mtime''"
definition MetaKeyCtime :: string where "MetaKeyCtime = ''ctime''"
definition MetaKeyBtime :: string where "MetaKeyBtime = ''btime''"
definition MetaKeyWindowsAttributes :: string where "MetaKeyWindowsAttributes = ''windows-attributes''"
definition MetaKeyStreams :: string where "MetaKeyStreams = ''streams''"
definition legacyMetaKeyPrefix :: string where "legacyMetaKeyPrefix = ''x-amz-meta-''"

lemmas meta_keys = MetaKeyMode_def MetaKeyUID_def MetaKeyGID_def MetaKeyAtime_def MetaKeyMtime_def
  MetaKeyCtime_def MetaKeyBtime_def MetaKeyWindowsAttributes_def MetaKeyStreams_def

definition posixMetaKeys :: "string list" where
  "posixMetaKeys =
     [MetaKeyMode, MetaKeyUID, MetaKeyGID, MetaKeyAtime, MetaKeyMtime, MetaKeyCtime,
      MetaKeyBtime, MetaKeyWindowsAttributes, MetaKeyStreams]"

definition WindowsAttributesStored :: u32 where
  "WindowsAttributesStored = 0x1 OR 0x2 OR 0x4 OR 0x20"

definition ModeDir :: u32 where
  "ModeDir = 2 ^ 31"

definition DefaultAttributes :: "gotime \<Rightarrow> bool \<Rightarrow> POSIXAttributes" where
  "DefaultAttributes startup isDir =
     \<lparr>pa_Mode = (if isDir then 0x1ED OR ModeDir else 0x1A4), pa_UID = 1000, pa_GID = 1000,
      pa_Atime = startup, pa_Mtime = startup, pa_Ctime = startup, pa_Btime = 0,
      pa_WindowsAttributes = 0, pa_Streams = []\<rparr>"

type_synonym metadata = "(string, string) gomap"

definition set_if :: "bool \<Rightarrow> string \<Rightarrow> string \<Rightarrow> metadata \<Rightarrow> metadata" where
  "set_if c k v m = (if c then gm_set k v m else m)"

definition EncodePOSIXAttributes :: "gotime \<Rightarrow> (string \<Rightarrow> int) \<Rightarrow> POSIXAttributes option \<Rightarrow> metadata" where
  "EncodePOSIXAttributes startup off attrs =
     (let a = (case attrs of None \<Rightarrow> DefaultAttributes startup False | Some a \<Rightarrow> a);
          m = [(MetaKeyMode, digits 8 (unat (pa_Mode a))), (MetaKeyUID, Itoa (pa_UID a)), (MetaKeyGID, Itoa (pa_GID a))];
          m = foldl (\<lambda>m (key, t). set_if (\<not> is_zero_time t) key (format_RFC3339 (off key) t) m) m
                [(MetaKeyAtime, pa_Atime a), (MetaKeyMtime, pa_Mtime a), (MetaKeyCtime, pa_Ctime a)];
          m = set_if (\<not> is_zero_time (pa_Btime a)) MetaKeyBtime (format_RFC3339Nano 0 (pa_Btime a)) m;
          flags = pa_WindowsAttributes a AND WindowsAttributesStored;
          m = set_if (flags \<noteq> 0) MetaKeyWindowsAttributes (digits 10 (unat flags)) m
      in set_if (pa_Streams a \<noteq> []) MetaKeyStreams (EncodeStreams (pa_Streams a)) m)"

section \<open>Decoding\<close>

text \<open>The loop of \<^verbatim>\<open>metaValue\<close>: the first key that spells \<open>key\<close> ends it, a legacy key is remembered.\<close>

primrec metaValue_loop :: "string option \<Rightarrow> string \<Rightarrow> metadata \<Rightarrow> string option" where
  "metaValue_loop legacy key [] = legacy"
| "metaValue_loop legacy key (kv # m) =
     (if to_lower (fst kv) = key then Some (snd kv)
      else if to_lower (fst kv) = legacyMetaKeyPrefix @ key then metaValue_loop (Some (snd kv)) key m
      else metaValue_loop legacy key m)"

definition metaValue :: "metadata \<Rightarrow> string \<Rightarrow> string option" where
  "metaValue m key = metaValue_loop None key m"

definition StoredMtime :: "metadata \<Rightarrow> gotime option" where
  "StoredMtime m = (case metaValue m MetaKeyMtime of None \<Rightarrow> None | Some v \<Rightarrow> parse_RFC3339 v)"

text \<open>An attribute keeps its default unless the key is present and its value parses.\<close>

definition decoded :: "metadata \<Rightarrow> string \<Rightarrow> (string \<Rightarrow> 'a option) \<Rightarrow> 'a \<Rightarrow> 'a" where
  "decoded m key parse d =
     (case metaValue m key of None \<Rightarrow> d | Some v \<Rightarrow> (case parse v of None \<Rightarrow> d | Some x \<Rightarrow> x))"

definition DecodePOSIXAttributes :: "gotime \<Rightarrow> metadata \<Rightarrow> bool \<Rightarrow> POSIXAttributes" where
  "DecodePOSIXAttributes startup m isDir =
     (let a = DefaultAttributes startup isDir;
          a = a\<lparr>pa_Mode := decoded m MetaKeyMode (\<lambda>v. map_option of_nat (ParseUint v 8 32)) (pa_Mode a)\<rparr>;
          a = a\<lparr>pa_UID := decoded m MetaKeyUID Atoi (pa_UID a)\<rparr>;
          a = a\<lparr>pa_GID := decoded m MetaKeyGID Atoi (pa_GID a)\<rparr>;
          a = a\<lparr>pa_Atime := decoded m MetaKeyAtime parse_RFC3339 (pa_Atime a)\<rparr>;
          a = a\<lparr>pa_Mtime := decoded m MetaKeyMtime parse_RFC3339 (pa_Mtime a)\<rparr>;
          a = a\<lparr>pa_Ctime := decoded m MetaKeyCtime parse_RFC3339 (pa_Ctime a)\<rparr>;
          a = a\<lparr>pa_Btime := decoded m MetaKeyBtime parse_RFC3339 (pa_Btime a)\<rparr>;
          a = a\<lparr>pa_WindowsAttributes :=
                 decoded m MetaKeyWindowsAttributes
                   (\<lambda>v. map_option (\<lambda>n. of_nat n AND WindowsAttributesStored) (ParseUint v 10 32))
                   (pa_WindowsAttributes a)\<rparr>
      in a\<lparr>pa_Streams := decoded m MetaKeyStreams (\<lambda>v. Some (DecodeStreams v)) (pa_Streams a)\<rparr>)"

section \<open>Merging and updating\<close>

definition isPOSIXMetaKey :: "string \<Rightarrow> bool" where
  "isPOSIXMetaKey k = (trim_prefix (to_lower k) legacyMetaKeyPrefix \<in> set posixMetaKeys)"

definition MergePOSIXMetadata :: "gotime \<Rightarrow> (string \<Rightarrow> int) \<Rightarrow> metadata \<Rightarrow> POSIXAttributes option \<Rightarrow> metadata" where
  "MergePOSIXMetadata startup off existing attrs =
     (let merged = foldl (\<lambda>m (k, v). if \<not> isPOSIXMetaKey k then gm_set k v m else m) [] existing
      in foldl (\<lambda>m (k, v). gm_set k v m) merged (EncodePOSIXAttributes startup off attrs))"

text \<open>
  A nil field of an update is \<^const>\<open>None\<close>; for the streams, \<^verbatim>\<open>nil\<close> keeps them and an empty
  map removes them all.
\<close>

record AttributeUpdate =
  au_Mode :: "u32 option"
  au_UID :: "int option"
  au_GID :: "int option"
  au_Atime :: "gotime option"
  au_Mtime :: "gotime option"
  au_Btime :: "gotime option"
  au_WindowsAttributes :: "u32 option"
  au_Streams :: "streams option"

definition put_field :: "'v option \<Rightarrow> ('v \<Rightarrow> POSIXAttributes \<Rightarrow> POSIXAttributes) \<Rightarrow>
    bool \<times> POSIXAttributes \<Rightarrow> bool \<times> POSIXAttributes" where
  "put_field v set_field ca = (case v of None \<Rightarrow> ca | Some x \<Rightarrow> (True, set_field x (snd ca)))"

definition AttributeUpdate_Apply :: "AttributeUpdate \<Rightarrow> gotime \<Rightarrow> POSIXAttributes \<Rightarrow> POSIXAttributes" where
  "AttributeUpdate_Apply u now attrs =
     (let ca = (False, attrs);
          ca = put_field (au_Mode u) (\<lambda>v a. a\<lparr>pa_Mode := v\<rparr>) ca;
          ca = put_field (au_UID u) (\<lambda>v a. a\<lparr>pa_UID := v\<rparr>) ca;
          ca = put_field (au_GID u) (\<lambda>v a. a\<lparr>pa_GID := v\<rparr>) ca;
          ca = put_field (au_Atime u) (\<lambda>v a. a\<lparr>pa_Atime := v\<rparr>) ca;
          ca = put_field (au_Mtime u) (\<lambda>v a. a\<lparr>pa_Mtime := v\<rparr>) ca;
          ca = put_field (au_Btime u) (\<lambda>v a. a\<lparr>pa_Btime := v\<rparr>) ca;
          ca = put_field (au_WindowsAttributes u) (\<lambda>v a. a\<lparr>pa_WindowsAttributes := v AND WindowsAttributesStored\<rparr>) ca;
          ca = put_field (au_Streams u) (\<lambda>v a. a\<lparr>pa_Streams := CloneStreams v\<rparr>) ca
      in if fst ca then snd ca\<lparr>pa_Ctime := now\<rparr> else snd ca)"

text \<open>The older \<^verbatim>\<open>UpdateAttributes\<close> function: zero fields of \<open>updates\<close> keep the current value.\<close>

definition UpdateAttributes :: "gotime \<Rightarrow> gotime \<Rightarrow> POSIXAttributes option \<Rightarrow> POSIXAttributes option \<Rightarrow> POSIXAttributes" where
  "UpdateAttributes startup now attrs updates =
     (let a = (case attrs of None \<Rightarrow> DefaultAttributes startup False | Some a \<Rightarrow> a)
      in case updates of
           None \<Rightarrow> a
         | Some u \<Rightarrow>
             (let r = \<lparr>pa_Mode = pa_Mode a, pa_UID = pa_UID a, pa_GID = pa_GID a, pa_Atime = pa_Atime a,
                       pa_Mtime = pa_Mtime a, pa_Ctime = pa_Ctime a, pa_Btime = 0,
                       pa_WindowsAttributes = 0, pa_Streams = []\<rparr>;
                  r = (if pa_Mode u \<noteq> 0 then r\<lparr>pa_Mode := pa_Mode u, pa_Ctime := now\<rparr> else r);
                  r = (if pa_UID u \<noteq> 0 then r\<lparr>pa_UID := pa_UID u, pa_Ctime := now\<rparr> else r);
                  r = (if pa_GID u \<noteq> 0 then r\<lparr>pa_GID := pa_GID u, pa_Ctime := now\<rparr> else r);
                  r = (if \<not> is_zero_time (pa_Atime u) then r\<lparr>pa_Atime := pa_Atime u\<rparr> else r)
              in if \<not> is_zero_time (pa_Mtime u) then r\<lparr>pa_Mtime := pa_Mtime u\<rparr> else r))"

definition ValidateMode :: "u32 \<Rightarrow> string option" where
  "ValidateMode mode = (if mode > 0x1FF then Some (''invalid mode: '' @ digits 8 (unat mode)) else None)"

definition ValidateUID :: "int \<Rightarrow> string option" where
  "ValidateUID uid = (if uid < 0 then Some (''invalid UID: '' @ Itoa uid) else None)"

definition ValidateGID :: "int \<Rightarrow> string option" where
  "ValidateGID gid = (if gid < 0 then Some (''invalid GID: '' @ Itoa gid) else None)"

section \<open>What decoding finds\<close>

text \<open>Metadata in which every spelling of an attribute key is the current one.\<close>

definition canonical :: "metadata \<Rightarrow> bool" where
  "canonical m \<longleftrightarrow> (\<forall>k \<in> set (gm_keys m). isPOSIXMetaKey k \<longrightarrow> k \<in> set posixMetaKeys)"

lemma posix_key_spelling:
  assumes "key \<in> set posixMetaKeys"
  shows "to_lower key = key" "isPOSIXMetaKey key" "trim_prefix key legacyMetaKeyPrefix = key"
    "legacyMetaKeyPrefix @ key \<notin> set posixMetaKeys"
proof -
  have "list_all (\<lambda>key. to_lower key = key \<and> isPOSIXMetaKey key \<and> trim_prefix key legacyMetaKeyPrefix = key \<and>
      legacyMetaKeyPrefix @ key \<notin> set posixMetaKeys) posixMetaKeys"
    by code_simp
  with assms show "to_lower key = key" "isPOSIXMetaKey key" "trim_prefix key legacyMetaKeyPrefix = key"
    "legacyMetaKeyPrefix @ key \<notin> set posixMetaKeys"
    by (auto simp: list_all_iff)
qed

lemma metaValue_canonical:
  assumes "key \<in> set posixMetaKeys" "canonical m"
  shows "metaValue m key = gm_get m key"
proof -
  have k: "to_lower k = key \<longleftrightarrow> k = key" "to_lower k \<noteq> legacyMetaKeyPrefix @ key" if "k \<in> set (gm_keys m)" for k
  proof -
    have "k \<in> set posixMetaKeys" if "to_lower k = key \<or> to_lower k = legacyMetaKeyPrefix @ key"
      using that \<open>k \<in> set (gm_keys m)\<close> assms posix_key_spelling(3) [OF assms(1)]
      by (auto simp: canonical_def isPOSIXMetaKey_def)
    then show "to_lower k = key \<longleftrightarrow> k = key" "to_lower k \<noteq> legacyMetaKeyPrefix @ key"
      using posix_key_spelling(1) [of k] posix_key_spelling(1,4) [OF assms(1)] by metis+
  qed
  have "metaValue_loop l key m' = (case gm_get m' key of None \<Rightarrow> l | Some v \<Rightarrow> Some v)"
    if "set (gm_keys m') \<subseteq> set (gm_keys m)" for l m'
    using that by (induction m' arbitrary: l) (auto simp: k)
  then show ?thesis by (simp add: metaValue_def split: option.splits)
qed

lemma decoded_canonical:
  assumes "key \<in> set posixMetaKeys" "canonical m"
  shows "decoded m key parse d = (case Option.bind (gm_get m key) parse of None \<Rightarrow> d | Some x \<Rightarrow> x)"
  by (simp add: decoded_def metaValue_canonical [OF assms] split: option.splits)

lemma gm_get_set_if [simp]: "gm_get (set_if c k v m) = (if c then (gm_get m)(k \<mapsto> v) else gm_get m)"
  unfolding set_if_def by (cases c) (simp_all only: gm_get_set if_True if_False)

lemma gm_get_notin: "k \<notin> fst ` set m \<Longrightarrow> gm_get m k = None"
  by (simp add: map_of_eq_None_iff)

definition attrs_of :: "gotime \<Rightarrow> POSIXAttributes option \<Rightarrow> POSIXAttributes" where
  "attrs_of startup attrs = (case attrs of None \<Rightarrow> DefaultAttributes startup False | Some a \<Rightarrow> a)"

lemma posix_keys_distinct: "distinct posixMetaKeys" "distinct (rev posixMetaKeys)"
  by code_simp+

lemmas meta_neq = posix_keys_distinct [unfolded posixMetaKeys_def, simplified]

lemma encoded_get:
  fixes startup off attrs
  defines "m \<equiv> EncodePOSIXAttributes startup off attrs" and "a \<equiv> attrs_of startup attrs"
  shows "gm_get m MetaKeyMode = Some (digits 8 (unat (pa_Mode a)))"
    "gm_get m MetaKeyUID = Some (Itoa (pa_UID a))" "gm_get m MetaKeyGID = Some (Itoa (pa_GID a))"
    "gm_get m MetaKeyAtime = (if pa_Atime a = 0 then None else Some (format_RFC3339 (off MetaKeyAtime) (pa_Atime a)))"
    "gm_get m MetaKeyMtime = (if pa_Mtime a = 0 then None else Some (format_RFC3339 (off MetaKeyMtime) (pa_Mtime a)))"
    "gm_get m MetaKeyCtime = (if pa_Ctime a = 0 then None else Some (format_RFC3339 (off MetaKeyCtime) (pa_Ctime a)))"
    "gm_get m MetaKeyBtime = (if pa_Btime a = 0 then None else Some (format_RFC3339Nano 0 (pa_Btime a)))"
    "gm_get m MetaKeyWindowsAttributes =
      (let f = pa_WindowsAttributes a AND WindowsAttributesStored in if f = 0 then None else Some (digits 10 (unat f)))"
    "gm_get m MetaKeyStreams = (if pa_Streams a = [] then None else Some (EncodeStreams (pa_Streams a)))"
  unfolding m_def EncodePOSIXAttributes_def Let_def attrs_of_def [symmetric] a_def [symmetric]
  by (simp_all add: meta_neq is_zero_time_def)

lemma encoded_keys: "set (gm_keys (EncodePOSIXAttributes startup off attrs)) \<subseteq> set posixMetaKeys"
  unfolding gm_keys_dom EncodePOSIXAttributes_def Let_def
  by (auto simp: posixMetaKeys_def split: if_splits)

lemma encoded_canonical [simp]: "canonical (EncodePOSIXAttributes startup off attrs)"
  using encoded_keys [of startup off attrs] by (auto simp: canonical_def)

lemma encoded_wf [simp]: "gm_wf (EncodePOSIXAttributes startup off attrs)"
  by (auto simp: EncodePOSIXAttributes_def Let_def set_if_def meta_keys)

lemma merge_get:
  assumes "gm_wf existing"
  shows "gm_get (MergePOSIXMetadata startup off existing attrs) k =
    (case gm_get (EncodePOSIXAttributes startup off attrs) k of
       Some v \<Rightarrow> Some v | None \<Rightarrow> if isPOSIXMetaKey k then None else gm_get existing k)"
proof -
  have kept: "gm_get (foldl (\<lambda>m (k, v). if \<not> isPOSIXMetaKey k then gm_set k v m else m) m existing) k =
      (if isPOSIXMetaKey k then gm_get m k else case gm_get existing k of Some v \<Rightarrow> Some v | None \<Rightarrow> gm_get m k)"
    if "gm_wf existing" for m existing
    using that
    by (induction existing arbitrary: m) (auto simp: gm_get_notin split: option.splits)
  have put: "gm_get (foldl (\<lambda>m (k, v). gm_set k v m) m e) k = (case gm_get e k of Some v \<Rightarrow> Some v | None \<Rightarrow> gm_get m k)"
    if "gm_wf e" for m and e :: metadata
    using that by (induction e arbitrary: m) (auto simp: gm_get_notin split: option.splits)
  show ?thesis
    unfolding MergePOSIXMetadata_def Let_def put [OF encoded_wf] kept [OF assms] by (simp split: option.splits)
qed

lemma merge_canonical:
  assumes "gm_wf existing"
  shows "canonical (MergePOSIXMetadata startup off existing attrs)"
  unfolding canonical_def gm_keys_dom
  using encoded_keys [of startup off attrs, unfolded gm_keys_dom]
  by (auto simp: merge_get [OF assms] split: option.splits if_splits)

lemma decode_cong:
  assumes "canonical m" "canonical m'" "\<And>k. k \<in> set posixMetaKeys \<Longrightarrow> gm_get m k = gm_get m' k"
  shows "DecodePOSIXAttributes startup m isDir = DecodePOSIXAttributes startup m' isDir"
proof -
  have "decoded m key parse d = decoded m' key parse d" if "key \<in> set posixMetaKeys" for key and parse :: "string \<Rightarrow> 'a option" and d
    using that assms by (simp add: decoded_canonical)
  note this [simp]
  show ?thesis by (simp add: DecodePOSIXAttributes_def Let_def posixMetaKeys_def)
qed

section \<open>Properties\<close>

text \<open>Attributes within the ranges of their Go types whose times have a year of four digits.\<close>

definition storable :: "(string \<Rightarrow> int) \<Rightarrow> POSIXAttributes \<Rightarrow> bool" where
  "storable off a \<longleftrightarrow>
     - (2 ^ 63) \<le> pa_UID a \<and> pa_UID a < 2 ^ 63 \<and> - (2 ^ 63) \<le> pa_GID a \<and> pa_GID a < 2 ^ 63 \<and>
     list_all (\<lambda>(key, t). year_ok (off key) t \<and> \<bar>off key\<bar> \<le> 1440)
       [(MetaKeyAtime, pa_Atime a), (MetaKeyMtime, pa_Mtime a), (MetaKeyCtime, pa_Ctime a)] \<and>
     year_ok 0 (pa_Btime a) \<and> streams_fit (pa_Streams a)"

lemma unat_u32: "unat (w :: u32) < 2 ^ 32"
  using unsigned_less [of w, where 'a = nat] by simp

lemma decoded_encoded:
  assumes "key \<in> set posixMetaKeys" "gm_get (EncodePOSIXAttributes startup off attrs) key = v"
  shows "decoded (EncodePOSIXAttributes startup off attrs) key parse d =
    (case Option.bind v parse of None \<Rightarrow> d | Some x \<Rightarrow> x)"
  by (simp add: decoded_canonical [OF assms(1) encoded_canonical] assms(2))

text \<open>
  C21: Attributes stored in object metadata and read back are the same: mode, owner, group, creation
  time and named streams exactly, access, modification and change time to the second (a zero time is
  not stored and reads as the default), and the Windows flags that are kept.
\<close>

theorem attributes_roundtrip:
  assumes "storable off a"
  shows "let d = DecodePOSIXAttributes startup (EncodePOSIXAttributes startup off (Some a)) isDir in
    pa_Mode d = pa_Mode a \<and> pa_UID d = pa_UID a \<and> pa_GID d = pa_GID a \<and> pa_Btime d = pa_Btime a \<and>
    pa_Atime d = (if pa_Atime a = 0 then startup else pa_Atime a - pa_Atime a mod second) \<and>
    pa_Mtime d = (if pa_Mtime a = 0 then startup else pa_Mtime a - pa_Mtime a mod second) \<and>
    pa_Ctime d = (if pa_Ctime a = 0 then startup else pa_Ctime a - pa_Ctime a mod second) \<and>
    pa_WindowsAttributes d = pa_WindowsAttributes a AND WindowsAttributesStored \<and>
    gm_get (pa_Streams d) = gm_get (pa_Streams a)"
proof -
  let ?m = "EncodePOSIXAttributes startup off (Some a)"
  have key: "MetaKeyMode \<in> set posixMetaKeys" "MetaKeyUID \<in> set posixMetaKeys" "MetaKeyGID \<in> set posixMetaKeys"
    "MetaKeyAtime \<in> set posixMetaKeys" "MetaKeyMtime \<in> set posixMetaKeys" "MetaKeyCtime \<in> set posixMetaKeys"
    "MetaKeyBtime \<in> set posixMetaKeys" "MetaKeyWindowsAttributes \<in> set posixMetaKeys" "MetaKeyStreams \<in> set posixMetaKeys"
    by (simp_all add: posixMetaKeys_def)
  note get = encoded_get [of startup off "Some a", unfolded attrs_of_def option.case]
  note ok = assms(1) [unfolded storable_def list.pred_inject prod.case]
  have "decoded ?m MetaKeyMode (\<lambda>v. map_option of_nat (ParseUint v 8 32)) d = pa_Mode a" for d
    using unat_u32 [of "pa_Mode a"] by (simp add: decoded_encoded [OF key(1) get(1)])
  moreover have "decoded ?m MetaKeyUID Atoi d = pa_UID a" "decoded ?m MetaKeyGID Atoi d = pa_GID a" for d
    using ok by (simp_all add: decoded_encoded [OF key(2) get(2)] decoded_encoded [OF key(3) get(3)] Atoi_Itoa)
  moreover have
    "decoded ?m MetaKeyAtime parse_RFC3339 d = (if pa_Atime a = 0 then d else pa_Atime a - pa_Atime a mod second)"
    "decoded ?m MetaKeyMtime parse_RFC3339 d = (if pa_Mtime a = 0 then d else pa_Mtime a - pa_Mtime a mod second)"
    "decoded ?m MetaKeyCtime parse_RFC3339 d = (if pa_Ctime a = 0 then d else pa_Ctime a - pa_Ctime a mod second)"
    for d
    using ok by (simp_all add: decoded_encoded [OF key(4) get(4)] decoded_encoded [OF key(5) get(5)]
        decoded_encoded [OF key(6) get(6)] parse_format_RFC3339)
  moreover have "decoded ?m MetaKeyBtime parse_RFC3339 0 = pa_Btime a"
    using ok by (simp add: decoded_encoded [OF key(7) get(7)] parse_format_RFC3339Nano)
  moreover have "decoded ?m MetaKeyWindowsAttributes
      (\<lambda>v. map_option (\<lambda>n. of_nat n AND WindowsAttributesStored) (ParseUint v 10 32)) 0 =
      pa_WindowsAttributes a AND WindowsAttributesStored"
    using unat_u32 [of "pa_WindowsAttributes a AND WindowsAttributesStored"]
    by (simp add: decoded_encoded [OF key(8) get(8)] Let_def and.assoc)
  moreover have "gm_get (decoded ?m MetaKeyStreams (\<lambda>v. Some (DecodeStreams v)) []) = gm_get (pa_Streams a)"
    using ok by (simp add: decoded_encoded [OF key(9) get(9)] Decode_EncodeStreams)
  ultimately show ?thesis by (simp add: DecodePOSIXAttributes_def Let_def DefaultAttributes_def)
qed

definition sample_attrs :: POSIXAttributes where
  "sample_attrs = \<lparr>pa_Mode = 0x1A4, pa_UID = 501, pa_GID = 20, pa_Atime = 0, pa_Mtime = 63900000000 * second + 7,
     pa_Ctime = 63900000001 * second, pa_Btime = 63800000000 * second + 5, pa_WindowsAttributes = 0x22,
     pa_Streams = [(''tag'', [1, 2, 3])]\<rparr>"

theorem attributes_roundtrip_witness:
  "storable (\<lambda>_. -180) sample_attrs \<and>
   pa_Mtime (DecodePOSIXAttributes 5 (EncodePOSIXAttributes 5 (\<lambda>_. -180) (Some sample_attrs)) False) =
     63900000000 * second"
proof -
  have "year_ok (-180) 0" "year_ok (-180) (63900000000 * second + 7)" "year_ok (-180) (63900000001 * second)"
    "year_ok 0 (63800000000 * second + 5)"
    by code_simp+
  then have ok: "storable (\<lambda>_. -180) sample_attrs" by (simp add: storable_def sample_attrs_def streams_fit_def)
  show ?thesis
    using ok attributes_roundtrip [OF ok, of 5 False] by (simp add: Let_def sample_attrs_def)
qed

text \<open>
  C22: Writing attributes over existing metadata keeps every other key, leaves no legacy or differently
  spelled attribute key behind, and reads back as the new attributes whatever was stored before.
\<close>

theorem merge_replaces_attributes:
  assumes "gm_wf existing"
  shows "DecodePOSIXAttributes startup (MergePOSIXMetadata startup off existing attrs) isDir =
      DecodePOSIXAttributes startup (EncodePOSIXAttributes startup off attrs) isDir \<and>
    (\<forall>k. gm_get (MergePOSIXMetadata startup off existing attrs) k =
      (if k \<in> set posixMetaKeys then gm_get (EncodePOSIXAttributes startup off attrs) k
       else if isPOSIXMetaKey k then None else gm_get existing k))"
proof -
  have none: "gm_get (EncodePOSIXAttributes startup off attrs) k = None" if "k \<notin> set posixMetaKeys" for k
    using that encoded_keys [of startup off attrs] unfolding gm_keys_dom by (auto simp: domIff)
  have get: "gm_get (MergePOSIXMetadata startup off existing attrs) k =
      (if k \<in> set posixMetaKeys then gm_get (EncodePOSIXAttributes startup off attrs) k
       else if isPOSIXMetaKey k then None else gm_get existing k)" for k
    using none [of k] posix_key_spelling(2) [of k] by (auto simp: merge_get [OF assms] split: option.splits)
  then show ?thesis by (auto intro!: decode_cong merge_canonical assms)
qed

theorem merge_replaces_attributes_witness:
  "gm_get (MergePOSIXMetadata 5 (\<lambda>_. 0) [(''X-Amz-Meta-Mode'', ''777''), (''owner'', ''x'')] (Some sample_attrs)) ''owner'' =
     Some ''x'' \<and>
   gm_get (MergePOSIXMetadata 5 (\<lambda>_. 0) [(''X-Amz-Meta-Mode'', ''777''), (''owner'', ''x'')] (Some sample_attrs))
     ''X-Amz-Meta-Mode'' = None"
proof -
  have "gm_wf [(''X-Amz-Meta-Mode'', ''777''), (''owner'', ''x'')]" by simp
  note m = merge_replaces_attributes [OF this, of 5 "\<lambda>_. 0" "Some sample_attrs" False, THEN conjunct2, rule_format]
  have "''owner'' \<notin> set posixMetaKeys" "''X-Amz-Meta-Mode'' \<notin> set posixMetaKeys"
    "\<not> isPOSIXMetaKey ''owner''" "isPOSIXMetaKey ''X-Amz-Meta-Mode''"
    by code_simp+
  then show ?thesis by (simp add: m)
qed

text \<open>
  C31: The size a protocol checks against the metadata limit is exactly the length of the stored value,
  and the value decodes to the same streams.
\<close>

theorem streams_roundtrip:
  assumes "streams_fit s" "s \<noteq> []"
  shows "gm_get (DecodeStreams (EncodeStreams s)) = gm_get s \<and> StreamsSize s = length (EncodeStreams s)"
  using Decode_EncodeStreams [OF assms(1)] EncodeStreams_size [OF assms(2)] by blast

theorem streams_roundtrip_witness:
  "gm_get (DecodeStreams (EncodeStreams [(''tag'', [1, 2, 3]), (''a'', [])])) ''a'' = Some [] \<and>
   StreamsSize [(''tag'', [1, 2, 3]), (''a'', [])] = 15"
proof -
  have ok: "streams_fit [(''tag'', [1, 2, 3]), (''a'', [])]" by (simp add: streams_fit_def)
  have "length (EncodeStreams [(''tag'', [1, 2, 3]), (''a'', [])]) = 15" by code_simp
  then show ?thesis using streams_roundtrip [OF ok] by simp
qed

end
