(* ===== verification/Share_Table.thy ===== *)
theory Share_Table
  imports Lock_Table
begin

text \<open>
  The table of open files and what each open permits the others
  (\<^verbatim>\<open>src/internal/lock/share.go\<close>), the protocol-neutral form of SMB share modes. Handles are
  shared between the table and their holders, so they live in a store: a handle is its position in
  \<open>st_handles\<close>, and \<open>sh_released\<close> is the state of its \<^verbatim>\<open>sync.Once\<close>.
\<close>

unbundle bit_operations_syntax

section \<open>Operations\<close>

type_synonym Access = "8 word"

definition AccessRead :: Access where "AccessRead = 1"
definition AccessWrite :: Access where "AccessWrite = 2"
definition AccessDelete :: Access where "AccessDelete = 4"

definition DefaultMaxOpensPerFile :: int where
  "DefaultMaxOpensPerFile = 1024"

datatype share_error = ErrSharingViolation | ErrShareLimit

record ShareHandle =
  sh_path :: string
  sh_access :: Access
  sh_share :: Access
  sh_released :: bool

record ShareTable =
  st_maxOpensPerFile :: int
  st_files :: "(string, nat list) gomap"
  st_handles :: "ShareHandle list"

definition NewShareTable :: "int \<Rightarrow> ShareTable" where
  "NewShareTable maxOpens =
     \<lparr>st_maxOpensPerFile = (if maxOpens \<le> 0 then DefaultMaxOpensPerFile else maxOpens), st_files = [], st_handles = []\<rparr>"

definition conflicts :: "Access \<Rightarrow> Access \<Rightarrow> Access \<Rightarrow> Access \<Rightarrow> bool" where
  "conflicts access share otherAccess otherShare \<longleftrightarrow>
     access AND NOT otherShare \<noteq> 0 \<or> otherAccess AND NOT share \<noteq> 0"

definition Acquire :: "string \<Rightarrow> Access \<Rightarrow> Access \<Rightarrow> ShareTable \<Rightarrow> (share_error + nat) \<times> ShareTable" where
  "Acquire path access share t =
     (let opens = gm_or [] (st_files t) path
      in if int (length opens) \<ge> st_maxOpensPerFile t then (Inl ErrShareLimit, t)
         else if \<exists>h \<in> set opens. conflicts access share (sh_access (st_handles t ! h)) (sh_share (st_handles t ! h))
         then (Inl ErrSharingViolation, t)
         else let h = length (st_handles t)
              in (Inr h,
                  t\<lparr>st_handles := st_handles t @ [\<lparr>sh_path = path, sh_access = access, sh_share = share, sh_released = False\<rparr>],
                    st_files := gm_set path (opens @ [h]) (st_files t)\<rparr>))"

text \<open>\<^const>\<open>None\<close> is the nil handle.\<close>

definition ShareHandle_Release :: "nat option \<Rightarrow> ShareTable \<Rightarrow> ShareTable" where
  "ShareHandle_Release handle t =
     (case handle of
        None \<Rightarrow> t
      | Some h \<Rightarrow>
          if sh_released (st_handles t ! h) then t
          else let path = sh_path (st_handles t ! h);
                   opens = remove1 h (gm_or [] (st_files t) path);
                   t = t\<lparr>st_handles := (st_handles t)[h := (st_handles t ! h)\<lparr>sh_released := True\<rparr>]\<rparr>
               in if opens = [] then t\<lparr>st_files := gm_del path (st_files t)\<rparr>
                  else t\<lparr>st_files := gm_set path opens (st_files t)\<rparr>)"

definition Opens :: "string \<Rightarrow> ShareTable \<Rightarrow> (Access \<times> Access) list" where
  "Opens path t =
     map (\<lambda>h. (sh_access (st_handles t ! h), sh_share (st_handles t ! h))) (gm_or [] (st_files t) path)"

definition ShareTable_Len :: "ShareTable \<Rightarrow> int" where
  "ShareTable_Len t = foldl (\<lambda>n opens. n + int (length opens)) 0 (map snd (st_files t))"

definition ShareTable_Rename :: "string \<Rightarrow> string \<Rightarrow> ShareTable \<Rightarrow> ShareTable" where
  "ShareTable_Rename oldPath newPath t =
     (if oldPath = newPath then t
      else case gm_get (st_files t) oldPath of
             None \<Rightarrow> t
           | Some opens \<Rightarrow>
               let files = gm_del oldPath (st_files t);
                   handles = fold (\<lambda>h hs. hs[h := (hs ! h)\<lparr>sh_path := newPath\<rparr>]) opens (st_handles t)
               in t\<lparr>st_handles := handles, st_files := gm_set newPath (gm_or [] files newPath @ opens) files\<rparr>)"

section \<open>The invariant\<close>

abbreviation opens_at :: "ShareTable \<Rightarrow> string \<Rightarrow> nat list" where
  "opens_at t p \<equiv> gm_or [] (st_files t) p"

text \<open>
  The lists hold exactly the handles that are not released, each once and under its own path; no list is
  empty.
\<close>

definition share_wf :: "ShareTable \<Rightarrow> bool" where
  "share_wf t \<longleftrightarrow>
     gm_wf (st_files t) \<and> (\<forall>p. gm_get (st_files t) p \<noteq> Some []) \<and> (\<forall>p. distinct (opens_at t p)) \<and>
     (\<forall>p h. h \<in> set (opens_at t p) \<longleftrightarrow>
        h < length (st_handles t) \<and> \<not> sh_released (st_handles t ! h) \<and> sh_path (st_handles t ! h) = p)"

definition share_compatible :: "ShareTable \<Rightarrow> bool" where
  "share_compatible t \<longleftrightarrow>
     (\<forall>p. \<forall>h \<in> set (opens_at t p). \<forall>h' \<in> set (opens_at t p). h \<noteq> h' \<longrightarrow>
        \<not> conflicts (sh_access (st_handles t ! h)) (sh_share (st_handles t ! h))
            (sh_access (st_handles t ! h')) (sh_share (st_handles t ! h')))"

definition share_bounded :: "ShareTable \<Rightarrow> bool" where
  "share_bounded t \<longleftrightarrow> (\<forall>p. int (length (opens_at t p)) \<le> st_maxOpensPerFile t)"

definition share_inv :: "ShareTable \<Rightarrow> bool" where
  "share_inv t \<longleftrightarrow> 0 < st_maxOpensPerFile t \<and> share_wf t \<and> share_compatible t \<and> share_bounded t"

lemma conflicts_sym: "conflicts a s a' s' \<longleftrightarrow> conflicts a' s' a s"
  by (auto simp: conflicts_def)

lemma New_share_inv: "share_inv (NewShareTable n)"
  by (auto simp: share_inv_def NewShareTable_def share_wf_def share_compatible_def share_bounded_def DefaultMaxOpensPerFile_def)

lemma opens_handle:
  assumes "share_wf t" "h \<in> set (opens_at t p)"
  shows "h < length (st_handles t)" "\<not> sh_released (st_handles t ! h)" "sh_path (st_handles t ! h) = p"
  using assms by (auto simp: share_wf_def)

lemma Acquire_inv:
  assumes "share_inv t" "Acquire path access share t = (r, t')"
  shows "share_inv t'"
proof (cases r)
  case (Inl e)
  then show ?thesis using assms by (auto simp: Acquire_def Let_def split: if_splits)
next
  case (Inr h)
  let ?n = "length (st_handles t)"
  have w: "share_wf t" using assms(1) by (simp add: share_inv_def)
  have new: "?n \<notin> set (opens_at t p)" for p using opens_handle(1) [OF w] by blast
  have ok: "int (length (opens_at t path)) < st_maxOpensPerFile t"
    "\<forall>h \<in> set (opens_at t path). \<not> conflicts access share (sh_access (st_handles t ! h)) (sh_share (st_handles t ! h))"
    and t': "t' = t\<lparr>st_handles := st_handles t @ [\<lparr>sh_path = path, sh_access = access, sh_share = share, sh_released = False\<rparr>],
         st_files := gm_set path (opens_at t path @ [?n]) (st_files t)\<rparr>"
    using assms(2) Inr by (auto simp: Acquire_def Let_def split: if_splits)
  have opens: "opens_at t' p = (if p = path then opens_at t path @ [?n] else opens_at t p)" for p
    by (simp add: t' gm_or_set)
  have old: "st_handles t' ! h = st_handles t ! h" if "h \<in> set (opens_at t p)" for h p
    using opens_handle(1) [OF w that] by (simp add: t' nth_append)
  have "share_wf t'"
    using w new unfolding share_wf_def opens by (auto simp: t' nth_append less_Suc_eq)
  moreover have "share_compatible t'"
    unfolding share_compatible_def
  proof (intro allI ballI impI)
    fix p h h' assume h: "h \<in> set (opens_at t' p)" "h' \<in> set (opens_at t' p)" "h \<noteq> h'"
    have n: "st_handles t' ! ?n = \<lparr>sh_path = path, sh_access = access, sh_share = share, sh_released = False\<rparr>" by (simp add: t')
    show "\<not> conflicts (sh_access (st_handles t' ! h)) (sh_share (st_handles t' ! h))
        (sh_access (st_handles t' ! h')) (sh_share (st_handles t' ! h'))"
      using h assms(1) ok(2) old n conflicts_sym
      by (auto simp: opens share_inv_def share_compatible_def split: if_splits)
  qed
  moreover have "share_bounded t'"
    using assms(1) ok(1) unfolding share_bounded_def opens share_inv_def by (auto simp: t' simp del: gm_or_simps)
  ultimately show ?thesis using assms(1) by (simp add: share_inv_def t')
qed

lemma release_opens:
  assumes "share_wf t" "h < length (st_handles t)" "\<not> sh_released (st_handles t ! h)"
  shows "opens_at (ShareHandle_Release (Some h) t) p = remove1 h (opens_at t p)"
proof -
  let ?p = "sh_path (st_handles t ! h)"
  have "h \<notin> set (opens_at t p)" if "p \<noteq> ?p" using opens_handle(3) [OF assms(1)] that by blast
  then show ?thesis
    using assms(3) by (auto simp: ShareHandle_Release_def Let_def gm_or_set gm_or_del remove1_idem)
qed

lemma Release_inv:
  assumes "share_inv t" "h < length (st_handles t)"
  shows "share_inv (ShareHandle_Release (Some h) t)"
proof (cases "sh_released (st_handles t ! h)")
  case True
  then show ?thesis using assms by (simp add: ShareHandle_Release_def)
next
  case False
  let ?t = "ShareHandle_Release (Some h) t"
  have w: "share_wf t" using assms(1) by (simp add: share_inv_def)
  note opens = release_opens [OF w assms(2) False]
  have hs: "st_handles ?t = (st_handles t)[h := (st_handles t ! h)\<lparr>sh_released := True\<rparr>]"
    "st_maxOpensPerFile ?t = st_maxOpensPerFile t"
    using False by (auto simp: ShareHandle_Release_def Let_def)
  have acc: "sh_access (st_handles ?t ! k) = sh_access (st_handles t ! k)"
    "sh_share (st_handles ?t ! k) = sh_share (st_handles t ! k)"
    "sh_path (st_handles ?t ! k) = sh_path (st_handles t ! k)"
    "sh_released (st_handles ?t ! k) \<longleftrightarrow> k = h \<or> sh_released (st_handles t ! k)" for k
    using assms(2) by (cases "k = h"; simp add: hs)+
  have "gm_wf (st_files ?t) \<and> (\<forall>p. gm_get (st_files ?t) p \<noteq> Some [])"
    using w False by (auto simp: ShareHandle_Release_def Let_def share_wf_def)
  moreover have "distinct (opens_at ?t p)" for p using w by (simp add: opens share_wf_def)
  moreover have "k \<in> set (opens_at ?t p) \<longleftrightarrow>
      k < length (st_handles ?t) \<and> \<not> sh_released (st_handles ?t ! k) \<and> sh_path (st_handles ?t ! k) = p" for k p
    using w unfolding opens acc by (auto simp: share_wf_def hs)
  ultimately have "share_wf ?t" by (simp add: share_wf_def)
  moreover have "share_compatible ?t"
    using assms(1) unfolding share_inv_def share_compatible_def opens acc
    using set_remove1_subset [of h] by blast
  moreover have "int (length (opens_at ?t p)) \<le> st_maxOpensPerFile ?t" for p
  proof -
    have "int (length (opens_at t p)) \<le> st_maxOpensPerFile t" using assms(1) by (simp add: share_inv_def share_bounded_def)
    then show ?thesis unfolding opens hs(2) using length_remove1 [of h "opens_at t p"] by (auto split: if_splits)
  qed
  ultimately show ?thesis using assms(1) by (simp add: share_inv_def share_bounded_def hs(2))
qed

lemma moved_handles:
  assumes "distinct opens" "\<forall>h \<in> set opens. h < length hs"
  shows "fold (\<lambda>h hs. hs[h := (hs ! h)\<lparr>sh_path := p\<rparr>]) opens hs =
    map (\<lambda>k. if k \<in> set opens then (hs ! k)\<lparr>sh_path := p\<rparr> else hs ! k) [0..<length hs]"
  using assms
proof (induction opens arbitrary: hs)
  case Nil
  then show ?case by (simp add: map_nth)
next
  case (Cons h opens)
  then show ?case by (auto intro!: nth_equalityI simp: nth_list_update)
qed

text \<open>Renaming onto a path that has no open of its own.\<close>

lemma Rename_inv:
  assumes "share_inv t" "opens_at t q = []"
  shows "share_inv (ShareTable_Rename p q t)"
proof (cases "p = q \<or> gm_get (st_files t) p = None")
  case True
  then show ?thesis using assms(1) by (auto simp: ShareTable_Rename_def)
next
  case False
  then obtain os where os: "gm_get (st_files t) p = Some os" and pq: "p \<noteq> q" by auto
  let ?t = "ShareTable_Rename p q t"
  have w: "share_wf t" using assms(1) by (simp add: share_inv_def)
  have at: "opens_at t p = os" using os by (simp add: gm_or_def)
  have os': "distinct os" "\<forall>h \<in> set os. h < length (st_handles t)"
    using w opens_handle(1) [OF w, of _ p] by (auto simp: share_wf_def at [symmetric])
  have opens: "opens_at ?t k = (if k = q then os else if k = p then [] else opens_at t k)" for k
    using os pq assms(2) by (auto simp: ShareTable_Rename_def Let_def gm_or_set gm_or_del)
  have hs: "st_handles ?t = map (\<lambda>k. if k \<in> set os then (st_handles t ! k)\<lparr>sh_path := q\<rparr> else st_handles t ! k)
      [0..<length (st_handles t)]" "st_maxOpensPerFile ?t = st_maxOpensPerFile t"
    using os pq moved_handles [OF os'] by (auto simp: ShareTable_Rename_def Let_def)
  have acc: "k < length (st_handles t) \<Longrightarrow> sh_access (st_handles ?t ! k) = sh_access (st_handles t ! k)"
    "k < length (st_handles t) \<Longrightarrow> sh_share (st_handles ?t ! k) = sh_share (st_handles t ! k)"
    "k < length (st_handles t) \<Longrightarrow> sh_released (st_handles ?t ! k) = sh_released (st_handles t ! k)"
    "k < length (st_handles t) \<Longrightarrow> sh_path (st_handles ?t ! k) = (if k \<in> set os then q else sh_path (st_handles t ! k))" for k
    by (simp_all add: hs)
  have os_ne: "os \<noteq> []" using w os by (auto simp: share_wf_def)
  have "gm_wf (st_files ?t) \<and> (\<forall>k. gm_get (st_files ?t) k \<noteq> Some [])"
    using w os pq os_ne by (auto simp: ShareTable_Rename_def Let_def share_wf_def)
  moreover have "distinct (opens_at ?t k)" for k using w os' by (simp add: opens share_wf_def)
  moreover have "k \<in> set (opens_at ?t r) \<longleftrightarrow>
      k < length (st_handles ?t) \<and> \<not> sh_released (st_handles ?t ! k) \<and> sh_path (st_handles ?t ! k) = r" for k r
  proof -
    have mem: "x \<in> set (opens_at t y) \<longleftrightarrow>
      x < length (st_handles t) \<and> \<not> sh_released (st_handles t ! x) \<and> sh_path (st_handles t ! x) = y" for x y
      using w by (simp add: share_wf_def)
    have "x \<notin> set (opens_at t q)" for x using assms(2) by simp
    then show ?thesis
      using mem [of k p, unfolded at] mem [of k r] mem [of k q] pq acc(3,4) [of k] by (auto simp: opens hs(1))
  qed
  ultimately have "share_wf ?t" by (simp add: share_wf_def)
  moreover have "share_compatible ?t"
    unfolding share_compatible_def
  proof (intro allI ballI impI)
    fix r k k' assume k: "k \<in> set (opens_at ?t r)" "k' \<in> set (opens_at ?t r)" "k \<noteq> k'"
    then obtain r' where r': "k \<in> set (opens_at t r')" "k' \<in> set (opens_at t r')"
      using at by (auto simp: opens split: if_splits)
    then show "\<not> conflicts (sh_access (st_handles ?t ! k)) (sh_share (st_handles ?t ! k))
        (sh_access (st_handles ?t ! k')) (sh_share (st_handles ?t ! k'))"
      using assms(1) k(3) acc(1,2) opens_handle(1) [OF w r'(1)] opens_handle(1) [OF w r'(2)]
      by (auto simp: share_inv_def share_compatible_def)
  qed
  moreover have "share_bounded ?t"
    using assms(1) at by (force simp: share_bounded_def opens share_inv_def hs(2))
  ultimately show ?thesis using assms(1) by (simp add: share_inv_def hs(2))
qed

section \<open>Properties\<close>

text \<open>
  The tables a server reaches: opens are acquired and released, and a file is renamed only onto a path
  that has no open.
\<close>

inductive share_reachable :: "int \<Rightarrow> ShareTable \<Rightarrow> bool" for n where
  start: "share_reachable n (NewShareTable n)"
| acquire: "share_reachable n t \<Longrightarrow> share_reachable n (snd (Acquire p a s t))"
| release: "share_reachable n t \<Longrightarrow> h < length (st_handles t) \<Longrightarrow> share_reachable n (ShareHandle_Release (Some h) t)"
| rename: "share_reachable n t \<Longrightarrow> opens_at t q = [] \<Longrightarrow> share_reachable n (ShareTable_Rename p q t)"

lemma share_reachable_inv: "share_reachable n t \<Longrightarrow> share_inv t"
  by (induction rule: share_reachable.induct)
    (auto intro: New_share_inv Release_inv Rename_inv Acquire_inv [OF _ surjective_pairing])

lemma sum_files: "foldl (\<lambda>n os. n + int (length os)) k xs = k + int (length (concat xs))"
  by (induction xs arbitrary: k) auto

lemma held_handles:
  assumes "share_wf t"
  shows "distinct (concat (map snd (st_files t)))"
    and "set (concat (map snd (st_files t))) = {h. h < length (st_handles t) \<and> \<not> sh_released (st_handles t ! h)}"
proof -
  have wf: "gm_wf (st_files t)" using assms by (simp add: share_wf_def)
  have at: "os = opens_at t p" if "(p, os) \<in> set (st_files t)" for p os
    using that gm_in_iff [OF wf] by (simp add: gm_or_def)
  have ne: "os \<noteq> []" if "(p, os) \<in> set (st_files t)" for p os
    using that assms gm_in_iff [OF wf, of p os] by (auto simp: share_wf_def)
  show "set (concat (map snd (st_files t))) = {h. h < length (st_handles t) \<and> \<not> sh_released (st_handles t ! h)}"
  proof (intro set_eqI iffI)
    fix h assume "h \<in> set (concat (map snd (st_files t)))"
    then show "h \<in> {h. h < length (st_handles t) \<and> \<not> sh_released (st_handles t ! h)}"
      using at opens_handle(1,2) [OF assms] by fastforce
  next
    fix h assume "h \<in> {h. h < length (st_handles t) \<and> \<not> sh_released (st_handles t ! h)}"
    then have "h \<in> set (opens_at t (sh_path (st_handles t ! h)))" using assms by (auto simp: share_wf_def)
    then obtain os where "gm_get (st_files t) (sh_path (st_handles t ! h)) = Some os" "h \<in> set os"
      by (cases "gm_get (st_files t) (sh_path (st_handles t ! h))") (auto simp: gm_or_def)
    then show "h \<in> set (concat (map snd (st_files t)))" using gm_in_iff [OF wf] by force
  qed
  show "distinct (concat (map snd (st_files t)))"
  proof (rule distinct_concat)
    have "inj_on snd (set (st_files t))"
    proof (rule inj_onI)
      fix x y assume xy: "x \<in> set (st_files t)" "y \<in> set (st_files t)" "snd x = snd y"
      then have "snd x = opens_at t (fst x)" "snd y = opens_at t (fst y)" "snd x \<noteq> []"
        using at [of "fst x" "snd x"] at [of "fst y" "snd y"] ne [of "fst x" "snd x"] unfolding prod.collapse by blast+
      then obtain h where "h \<in> set (opens_at t (fst x))" "h \<in> set (opens_at t (fst y))"
        using xy(3) by (metis list.set_sel(1))
      then have "fst x = fst y" using opens_handle(3) [OF assms] by metis
      then show "x = y" using xy(3) by (simp add: prod_eq_iff)
    qed
    then show "distinct (map snd (st_files t))" using wf by (auto simp: distinct_map gm_wf_def)
  next
    fix os assume "os \<in> set (map snd (st_files t))"
    then obtain p where "(p, os) \<in> set (st_files t)" by auto
    then have "os = opens_at t p" by (rule at)
    then show "distinct os" using assms by (simp add: share_wf_def)
  next
    fix os os' assume "os \<in> set (map snd (st_files t))" "os' \<in> set (map snd (st_files t))" "os \<noteq> os'"
    then obtain p p' where "(p, os) \<in> set (st_files t)" "(p', os') \<in> set (st_files t)" "os \<noteq> os'" by auto
    then have "os = opens_at t p" "os' = opens_at t p'" "p \<noteq> p'" using at [of p os] at [of p' os'] by metis+
    then show "set os \<inter> set os' = {}" using opens_handle(3) [OF assms] by blast
  qed
qed


definition two_readers :: ShareTable where
  "two_readers = snd (Acquire ''f'' 1 1 (snd (Acquire ''f'' 1 3 (NewShareTable 2))))"


end
