(* ===== verification/Lock_Protocols.thy ===== *)
theory Lock_Protocols
  imports Lock_Table Go_Path
begin

text \<open>
  The adapters through which the NFS server (\<^verbatim>\<open>src/internal/nfs/locker.go\<close>) and the SMB server
  (\<^verbatim>\<open>src/internal/smb/locker.go\<close>) use the shared lock table. The owner, range and conflict types are
  those of the protocol libraries. How an SMB name resolves to the key path it names
  (\<^verbatim>\<open>Filesystem.KeyPath\<close>) is a parameter, absent when the locker has no file system.
\<close>

section \<open>NFS\<close>

record nfs_LockOwner =
  no_Client :: string
  no_Owner :: string

record proto_LockRange =
  lr_Start :: u64
  lr_End :: u64
  lr_Exclusive :: bool

record nfs_LockConflict =
  nc_LockRange :: proto_LockRange
  nc_Owner :: nfs_LockOwner

datatype nfs_error = ErrLockLimit | NfsLockError lock_error

definition nfs_lockOwner :: "nfs_LockOwner \<Rightarrow> Owner" where
  "nfs_lockOwner o' = \<lparr>Client = no_Client o', ID = no_Owner o'\<rparr>"

definition proto_lockRange :: "proto_LockRange \<Rightarrow> Range" where
  "proto_lockRange r = \<lparr>Start = lr_Start r, End = lr_End r\<rparr>"

definition proto_lockMode :: "proto_LockRange \<Rightarrow> Mode" where
  "proto_lockMode r = (if lr_Exclusive r then Exclusive else Shared)"

definition nfsConflict :: "Lock option \<Rightarrow> nfs_LockConflict option" where
  "nfsConflict c =
     (case c of
        None \<Rightarrow> None
      | Some l \<Rightarrow> Some
          \<lparr>nc_LockRange = \<lparr>lr_Start = Start l, lr_End = End l, lr_Exclusive = (lock_mode l = Exclusive)\<rparr>,
           nc_Owner = \<lparr>no_Client = Client (lock_owner l), no_Owner = ID (lock_owner l)\<rparr>\<rparr>)"

definition nfs_Lock :: "nfs_LockOwner \<Rightarrow> string \<Rightarrow> proto_LockRange \<Rightarrow> LockManager
    \<Rightarrow> (nfs_error + nfs_LockConflict option) \<times> LockManager" where
  "nfs_Lock owner path r m =
     (case LockManager_Lock (nfs_lockOwner owner) (lock_Key path) (proto_lockRange r) (proto_lockMode r) m of
        (Inl ErrLimit, m') \<Rightarrow> (Inl ErrLockLimit, m')
      | (Inl e, m') \<Rightarrow> (Inl (NfsLockError e), m')
      | (Inr c, m') \<Rightarrow> (Inr (nfsConflict c), m'))"

definition nfs_Unlock :: "nfs_LockOwner \<Rightarrow> string \<Rightarrow> proto_LockRange \<Rightarrow> LockManager \<Rightarrow> lock_error option \<times> LockManager" where
  "nfs_Unlock owner path r m = LockManager_Unlock (nfs_lockOwner owner) (lock_Key path) (proto_lockRange r) m"

definition nfs_Test :: "nfs_LockOwner \<Rightarrow> string \<Rightarrow> proto_LockRange \<Rightarrow> LockManager
    \<Rightarrow> lock_error + nfs_LockConflict option" where
  "nfs_Test owner path r m =
     (case LockManager_Test (nfs_lockOwner owner) (lock_Key path) (proto_lockRange r) (proto_lockMode r) m of
        Inl e \<Rightarrow> Inl e
      | Inr c \<Rightarrow> Inr (nfsConflict c))"

definition nfs_ReleaseOwner :: "nfs_LockOwner \<Rightarrow> LockManager \<Rightarrow> LockManager" where
  "nfs_ReleaseOwner owner m = LockManager_ReleaseOwner (nfs_lockOwner owner) m"

definition nfs_ReleaseClient :: "string \<Rightarrow> LockManager \<Rightarrow> LockManager" where
  "nfs_ReleaseClient client m = LockManager_ReleaseClient client m"

section \<open>SMB\<close>

record smb_LockOwner =
  so_Client :: string
  so_ID :: string

record smb_LockConflict =
  sc_LockRange :: proto_LockRange
  sc_Owner :: smb_LockOwner

definition sharePath :: "string \<Rightarrow> string" where
  "sharePath name = path_Clean (''/'' @ map (\<lambda>c. if c = CHR 92 then CHR ''/'' else c) name)"

definition smb_key :: "(string \<Rightarrow> string) option \<Rightarrow> string \<Rightarrow> string" where
  "smb_key fs name =
     (let p = sharePath name;
          p = (case fs of None \<Rightarrow> p | Some keyPath \<Rightarrow> keyPath p)
      in lock_Key p)"

definition smb_lockOwner :: "smb_LockOwner \<Rightarrow> Owner" where
  "smb_lockOwner o' = \<lparr>Client = so_Client o', ID = so_ID o'\<rparr>"

definition smbConflict :: "Lock option \<Rightarrow> smb_LockConflict option" where
  "smbConflict c =
     (case c of
        None \<Rightarrow> None
      | Some l \<Rightarrow> Some
          \<lparr>sc_LockRange = \<lparr>lr_Start = Start l, lr_End = End l, lr_Exclusive = (lock_mode l = Exclusive)\<rparr>,
           sc_Owner = \<lparr>so_Client = Client (lock_owner l), so_ID = ID (lock_owner l)\<rparr>\<rparr>)"

definition smb_Lock :: "(string \<Rightarrow> string) option \<Rightarrow> smb_LockOwner \<Rightarrow> string \<Rightarrow> proto_LockRange \<Rightarrow> LockManager
    \<Rightarrow> (lock_error + smb_LockConflict option) \<times> LockManager" where
  "smb_Lock fs owner path r m =
     (case LockManager_Lock (smb_lockOwner owner) (smb_key fs path) (proto_lockRange r) (proto_lockMode r) m of
        (Inl e, m') \<Rightarrow> (Inl e, m')
      | (Inr c, m') \<Rightarrow> (Inr (smbConflict c), m'))"

definition smb_Unlock :: "(string \<Rightarrow> string) option \<Rightarrow> smb_LockOwner \<Rightarrow> string \<Rightarrow> proto_LockRange \<Rightarrow> LockManager
    \<Rightarrow> lock_error option \<times> LockManager" where
  "smb_Unlock fs owner path r m = LockManager_Unlock (smb_lockOwner owner) (smb_key fs path) (proto_lockRange r) m"

definition smb_ReleaseOwner :: "smb_LockOwner \<Rightarrow> LockManager \<Rightarrow> LockManager" where
  "smb_ReleaseOwner owner m = LockManager_ReleaseOwner (smb_lockOwner owner) m"

definition smb_ReleaseClient :: "string \<Rightarrow> LockManager \<Rightarrow> LockManager" where
  "smb_ReleaseClient client m = LockManager_ReleaseClient client m"

section \<open>Properties\<close>

lemma proto_mode_valid [simp]: "valid_mode (proto_lockMode r)"
  by (simp add: proto_lockMode_def valid_mode_def)

lemma nfs_Lock_granted:
  "nfs_Lock owner path r m = (Inr None, m') \<Longrightarrow>
   LockManager_Lock (nfs_lockOwner owner) (lock_Key path) (proto_lockRange r) (proto_lockMode r) m = (Inr None, m')"
  by (auto simp: nfs_Lock_def nfsConflict_def split: prod.splits sum.splits lock_error.splits option.splits)



end
