(* ===== verification/Listing_Fence.thy ===== *)
theory Listing_Fence
  imports Go_Prelude "HOL-Library.Word"
begin

text \<open>
  The fence that keeps a directory listing out of the cache when the directory was
  invalidated while the listing was in flight (\<^verbatim>\<open>src/internal/posix/listing_fence.go\<close>). Entries are
  held in the map by value: every operation runs under the fence's lock and no entry escapes.
\<close>

section \<open>Operations\<close>

record listingFenceEntry =
  fe_listings :: int
  fe_generation :: "64 word"

type_synonym listingFence = "(string, listingFenceEntry) gomap"

definition fence_begin :: "string \<Rightarrow> listingFence \<Rightarrow> 64 word \<times> listingFence" where
  "fence_begin dir f =
     (let entry = (case gm_get f dir of None \<Rightarrow> \<lparr>fe_listings = 0, fe_generation = 0\<rparr> | Some e \<Rightarrow> e);
          entry = entry\<lparr>fe_listings := fe_listings entry + 1\<rparr>
      in (fe_generation entry, gm_set dir entry f))"

definition fence_end :: "string \<Rightarrow> 64 word \<Rightarrow> listingFence \<Rightarrow> bool \<times> listingFence" where
  "fence_end dir generation f =
     (case gm_get f dir of
        None \<Rightarrow> (False, f)
      | Some entry \<Rightarrow>
          let unchanged = (fe_generation entry = generation);
              entry = entry\<lparr>fe_listings := fe_listings entry - 1\<rparr>
          in (unchanged, if fe_listings entry = 0 then gm_del dir f else gm_set dir entry f))"

definition fence_invalidate :: "string \<Rightarrow> listingFence \<Rightarrow> listingFence" where
  "fence_invalidate dir f =
     (case gm_get f dir of
        None \<Rightarrow> f
      | Some entry \<Rightarrow> gm_set dir (entry\<lparr>fe_generation := fe_generation entry + 1\<rparr>) f)"

definition fence_invalidatePrefix :: "string \<Rightarrow> listingFence \<Rightarrow> listingFence" where
  "fence_invalidatePrefix pre f =
     map (\<lambda>(path, entry).
       (path, if has_prefix path pre then entry\<lparr>fe_generation := fe_generation entry + 1\<rparr> else entry)) f"

section \<open>Listings in flight\<close>

text \<open>
  A run of the fence. A listing in flight is the directory, the generation it
  got from \<^verbatim>\<open>begin\<close>, and the number of invalidations of its directory since.
\<close>

record in_flight =
  if_dir :: string
  if_generation :: "64 word"
  if_invalidated :: nat

definition invalidated :: "(string \<Rightarrow> bool) \<Rightarrow> in_flight list \<Rightarrow> in_flight list" where
  "invalidated P = map (\<lambda>l. if P (if_dir l) then l\<lparr>if_invalidated := if_invalidated l + 1\<rparr> else l)"

inductive fence_run :: "listingFence \<Rightarrow> in_flight list \<Rightarrow> bool" where
  start: "fence_run [] []"
| began: "fence_run f ls \<Longrightarrow> fence_begin dir f = (g, f') \<Longrightarrow>
    fence_run f' (ls @ [\<lparr>if_dir = dir, if_generation = g, if_invalidated = 0\<rparr>])"
| ended: "fence_run f (xs @ l # ys) \<Longrightarrow> fence_run (snd (fence_end (if_dir l) (if_generation l) f)) (xs @ ys)"
| invalidate: "fence_run f ls \<Longrightarrow> fence_run (fence_invalidate dir f) (invalidated (\<lambda>d. d = dir) ls)"
| invalidatePrefix: "fence_run f ls \<Longrightarrow> fence_run (fence_invalidatePrefix pre f) (invalidated (\<lambda>d. has_prefix d pre) ls)"

definition listings_of :: "string \<Rightarrow> in_flight list \<Rightarrow> in_flight list" where
  "listings_of d ls = filter (\<lambda>l. if_dir l = d) ls"

definition fence_ok :: "listingFence \<Rightarrow> in_flight list \<Rightarrow> bool" where
  "fence_ok f ls \<longleftrightarrow>
     gm_wf f \<and>
     (\<forall>d. case gm_get f d of
            None \<Rightarrow> listings_of d ls = []
          | Some e \<Rightarrow> listings_of d ls \<noteq> [] \<and> fe_listings e = int (length (listings_of d ls)) \<and>
              (\<forall>l \<in> set (listings_of d ls). fe_generation e = if_generation l + of_nat (if_invalidated l)))"

lemma fence_entry:
  assumes "fence_ok f ls" "l \<in> set ls"
  obtains e where "gm_get f (if_dir l) = Some e" "fe_generation e = if_generation l + of_nat (if_invalidated l)"
    "fe_listings e = int (length (listings_of (if_dir l) ls))"
proof -
  have "l \<in> set (listings_of (if_dir l) ls)" using assms(2) by (simp add: listings_of_def)
  then show ?thesis
    using assms(1) that by (auto simp: fence_ok_def split: option.splits dest!: spec [of _ "if_dir l"])
qed

lemma listings_of_append [simp]: "listings_of d (xs @ ys) = listings_of d xs @ listings_of d ys"
  by (simp add: listings_of_def)

lemma listings_of_Cons: "listings_of d (l # ls) = (if if_dir l = d then l # listings_of d ls else listings_of d ls)"
  by (simp add: listings_of_def)

lemma listings_of_Nil [simp]: "listings_of d [] = []"
  by (simp add: listings_of_def)

lemma listings_of_invalidated: "listings_of d (invalidated P ls) = invalidated P (listings_of d ls)"
  by (induction ls) (auto simp: invalidated_def listings_of_def)

lemma invalidated_none: "\<not> P d \<Longrightarrow> invalidated P (listings_of d ls) = listings_of d ls"
  by (induction ls) (auto simp: invalidated_def listings_of_def)

lemma invalidated_all:
  "P d \<Longrightarrow> l \<in> set (invalidated P (listings_of d ls)) \<Longrightarrow>
   \<exists>l' \<in> set (listings_of d ls). if_generation l = if_generation l' \<and> if_invalidated l = if_invalidated l' + 1"
  by (induction ls) (auto simp: invalidated_def listings_of_def)

lemma invalidated_simps [simp]: "length (invalidated P ls) = length ls" "invalidated P ls = [] \<longleftrightarrow> ls = []"
  by (auto simp: invalidated_def)

lemma ok_invalidated:
  assumes "fence_ok f ls" "gm_wf f'"
    and "\<And>d. gm_get f' d = map_option (\<lambda>e. if P d then e\<lparr>fe_generation := fe_generation e + 1\<rparr> else e) (gm_get f d)"
  shows "fence_ok f' (invalidated P ls)"
proof -
  have "case gm_get f' d of
      None \<Rightarrow> listings_of d (invalidated P ls) = []
    | Some e \<Rightarrow> listings_of d (invalidated P ls) \<noteq> [] \<and> fe_listings e = int (length (listings_of d (invalidated P ls))) \<and>
        (\<forall>l \<in> set (listings_of d (invalidated P ls)). fe_generation e = if_generation l + of_nat (if_invalidated l))" for d
  proof (cases "P d")
    case True
    then show ?thesis
      using assms(1) invalidated_all [of P d, OF True] unfolding listings_of_invalidated assms(3) fence_ok_def
      by (fastforce split: option.splits dest!: spec [of _ d])
  next
    case False
    then show ?thesis
      using assms(1) unfolding listings_of_invalidated invalidated_none [of P d, OF False] assms(3) fence_ok_def
      by (auto split: option.splits dest!: spec [of _ d])
  qed
  with assms(2) show ?thesis by (simp add: fence_ok_def)
qed

lemma ok_begin:
  assumes "fence_ok f ls" "fence_begin dir f = (g, f')"
  shows "fence_ok f' (ls @ [\<lparr>if_dir = dir, if_generation = g, if_invalidated = 0\<rparr>])"
proof -
  let ?l = "\<lparr>if_dir = dir, if_generation = g, if_invalidated = 0\<rparr>"
  have "case gm_get f' d of
      None \<Rightarrow> listings_of d (ls @ [?l]) = []
    | Some e \<Rightarrow> listings_of d (ls @ [?l]) \<noteq> [] \<and> fe_listings e = int (length (listings_of d (ls @ [?l]))) \<and>
        (\<forall>l \<in> set (listings_of d (ls @ [?l])). fe_generation e = if_generation l + of_nat (if_invalidated l))" for d
    using assms unfolding fence_ok_def fence_begin_def Let_def
    by (cases "d = dir"; cases "gm_get f d") (auto simp: listings_of_Cons split: option.splits dest!: spec [of _ d])
  moreover have "gm_wf f'" using assms by (auto simp: fence_begin_def fence_ok_def Let_def)
  ultimately show ?thesis by (simp add: fence_ok_def)
qed

lemma ok_end:
  assumes "fence_ok f (xs @ l # ys)"
  shows "fence_ok (snd (fence_end (if_dir l) g f)) (xs @ ys)"
proof -
  obtain e where e: "gm_get f (if_dir l) = Some e" "fe_listings e = int (length (listings_of (if_dir l) (xs @ l # ys)))"
    using fence_entry [OF assms, of l] by auto
  let ?f = "snd (fence_end (if_dir l) g f)"
  have z: "fe_listings e - 1 = 0 \<longleftrightarrow> listings_of (if_dir l) (xs @ ys) = []"
  proof -
    have "length (listings_of (if_dir l) (xs @ l # ys)) = Suc (length (listings_of (if_dir l) (xs @ ys)))"
      by (simp add: listings_of_Cons)
    then show ?thesis using e(2) by (metis add_diff_cancel_left' length_0_conv of_nat_0_eq_iff of_nat_Suc)
  qed
  have "case gm_get ?f d of
      None \<Rightarrow> listings_of d (xs @ ys) = []
    | Some e \<Rightarrow> listings_of d (xs @ ys) \<noteq> [] \<and> fe_listings e = int (length (listings_of d (xs @ ys))) \<and>
        (\<forall>l \<in> set (listings_of d (xs @ ys)). fe_generation e = if_generation l + of_nat (if_invalidated l))" for d
    using assms e z unfolding fence_ok_def fence_end_def Let_def
    by (cases "d = if_dir l") (auto simp: listings_of_Cons split: option.splits if_splits dest!: spec [of _ d])
  moreover have "gm_wf ?f" using assms by (auto simp: fence_end_def fence_ok_def Let_def split: option.splits)
  ultimately show ?thesis by (simp add: fence_ok_def)
qed

lemma gm_get_map_values: "gm_get (map (\<lambda>(k, v). (k, h k v)) f) d = map_option (h d) (gm_get f d)"
  by (induction f) auto

lemma fence_run_ok: "fence_run f ls \<Longrightarrow> fence_ok f ls"
proof (induction rule: fence_run.induct)
  case start
  then show ?case by (simp add: fence_ok_def)
next
  case (began f ls dir g f')
  then show ?case by (simp add: ok_begin)
next
  case (ended f xs l ys)
  then show ?case by (simp add: ok_end)
next
  case (invalidate f ls dir)
  have "gm_get (fence_invalidate dir f) d =
      map_option (\<lambda>e. if d = dir then e\<lparr>fe_generation := fe_generation e + 1\<rparr> else e) (gm_get f d)" for d
    by (cases "gm_get f d"; cases "gm_get f dir") (auto simp: fence_invalidate_def)
  moreover have "gm_wf (fence_invalidate dir f)"
    using invalidate.IH by (auto simp: fence_ok_def fence_invalidate_def split: option.splits)
  ultimately show ?case using ok_invalidated [OF invalidate.IH, of _ "\<lambda>d. d = dir"] by blast
next
  case (invalidatePrefix f ls pre)
  have "gm_wf (fence_invalidatePrefix pre f)"
    using invalidatePrefix.IH by (auto simp: fence_invalidatePrefix_def fence_ok_def gm_wf_def comp_def case_prod_beta)
  moreover have "gm_get (fence_invalidatePrefix pre f) d =
      map_option (\<lambda>e. if has_prefix d pre then e\<lparr>fe_generation := fe_generation e + 1\<rparr> else e) (gm_get f d)" for d
    unfolding fence_invalidatePrefix_def by (rule gm_get_map_values)
  ultimately show ?case using ok_invalidated [OF invalidatePrefix.IH, of _ "\<lambda>d. has_prefix d pre"] by blast
qed

section \<open>Properties\<close>

text \<open>
  C24: A listing may be cached exactly when its directory was not invalidated between its begin and its
  end, whatever other listings of the directory began or ended meanwhile (fewer than
  \<open>2 ^ 64\<close> invalidations apart), and the fence keeps entries only for directories with listings in flight.
\<close>

theorem fence_end_correct:
  assumes "fence_run f ls" "l \<in> set ls" "if_invalidated l < 2 ^ 64"
  shows "(fst (fence_end (if_dir l) (if_generation l) f) \<longleftrightarrow> if_invalidated l = 0) \<and>
    (\<forall>d. gm_has f d \<longleftrightarrow> (\<exists>l' \<in> set ls. if_dir l' = d))"
proof
  note ok = fence_run_ok [OF assms(1)]
  obtain e where e: "gm_get f (if_dir l) = Some e" "fe_generation e = if_generation l + of_nat (if_invalidated l)"
    using fence_entry [OF ok assms(2)] by metis
  have n: "unat (of_nat (if_invalidated l) :: 64 word) = if_invalidated l"
    using assms(3) by (simp add: unat_of_nat take_bit_nat_eq_self)
  have "(of_nat (if_invalidated l) :: 64 word) = 0 \<longleftrightarrow> if_invalidated l = 0"
  proof
    assume "(of_nat (if_invalidated l) :: 64 word) = 0"
    with n show "if_invalidated l = 0" by (simp only: unsigned_0)
  qed simp
  then show "fst (fence_end (if_dir l) (if_generation l) f) \<longleftrightarrow> if_invalidated l = 0"
    using e by (simp add: fence_end_def Let_def)
  show "\<forall>d. gm_has f d \<longleftrightarrow> (\<exists>l' \<in> set ls. if_dir l' = d)"
  proof
    fix d
    have "gm_has f d \<longleftrightarrow> listings_of d ls \<noteq> []"
      using ok by (auto simp: fence_ok_def gm_has_def split: option.splits dest!: spec [of _ d])
    then show "gm_has f d \<longleftrightarrow> (\<exists>l' \<in> set ls. if_dir l' = d)" by (auto simp: listings_of_def filter_empty_conv)
  qed
qed

theorem fence_end_correct_witness:
  "\<not> fst (fence_end ''/d'' 0 (fence_invalidatePrefix ''/'' (snd (fence_begin ''/d'' []))))"
proof -
  let ?f = "snd (fence_begin ''/d'' [])" and ?l = "\<lparr>if_dir = ''/d'', if_generation = 0, if_invalidated = 0\<rparr>"
  have "fence_begin ''/d'' [] = (0, ?f)" by (simp add: fence_begin_def)
  from fence_run.began [OF fence_run.start this]
  have "fence_run (fence_invalidatePrefix ''/'' ?f) (invalidated (\<lambda>d. has_prefix d ''/'') ([] @ [?l]))"
    by (rule fence_run.invalidatePrefix)
  then have "fence_run (fence_invalidatePrefix ''/'' ?f) [?l\<lparr>if_invalidated := 1\<rparr>]" by (simp add: invalidated_def)
  from fence_end_correct [OF this, of "?l\<lparr>if_invalidated := 1\<rparr>"] show ?thesis by simp
qed

end
