(* ===== verification/Windows_Names.thy ===== *)
theory Windows_Names
  imports Go_Path "HOL-Library.List_Lexorder"
begin

text \<open>
  How names of the Windows view map to stored key names (\<^verbatim>\<open>src/internal/vfs/names.go\<close>): the mapping
  of characters Windows cannot use, and the case-insensitive lookup of a name in its directory. Names
  are sequences of runes, that is, valid UTF-8; the byte order the code compares names in is the
  order of their runes. \<^verbatim>\<open>unicode.SimpleFold\<close> is a table of the standard library and a parameter
  \<open>sf\<close>; its orbits have at most four runes.
\<close>

section \<open>Mapping characters\<close>

type_synonym rune = nat
type_synonym name = "rune list"

definition sfmControlOffset :: rune where "sfmControlOffset = 0xF000"
definition sfmTrailingSpace :: rune where "sfmTrailingSpace = 0xF028"
definition sfmTrailingPeriod :: rune where "sfmTrailingPeriod = 0xF029"
definition sfmFirst :: rune where "sfmFirst = 0xF001"
definition sfmLast :: rune where "sfmLast = 0xF029"

lemmas sfm_defs = sfmControlOffset_def sfmTrailingSpace_def sfmTrailingPeriod_def sfmFirst_def sfmLast_def

definition sfmReserved :: "(rune \<times> rune) list" where
  "sfmReserved =
     [(0x22, 0xF020), (0x2A, 0xF021), (0x3A, 0xF022), (0x3C, 0xF023), (0x3E, 0xF024), (0x3F, 0xF025),
      (0x5C, 0xF026), (0x7C, 0xF027)]"

definition sfmReservedReverse :: "(rune \<times> rune) list" where
  "sfmReservedReverse = map (\<lambda>(char, mapped). (mapped, char)) sfmReserved"

definition map_rune :: "rune \<Rightarrow> rune" where
  "map_rune r =
     (if 0x01 \<le> r \<and> r \<le> 0x1F then sfmControlOffset + r
      else case gm_get sfmReserved r of Some mapped \<Rightarrow> mapped | None \<Rightarrow> r)"

text \<open>The second loop, which walks back from the end, on the reversed runes.\<close>

primrec map_trailing :: "name \<Rightarrow> name" where
  "map_trailing [] = []"
| "map_trailing (r # rs) =
     (if r = 0x20 then sfmTrailingSpace # map_trailing rs
      else if r = 0x2E then sfmTrailingPeriod # map_trailing rs else r # rs)"

text \<open>Returning the unchanged key when nothing was mapped is returning the mapped runes.\<close>

definition windowsName :: "name \<Rightarrow> name" where
  "windowsName key =
     (if key = [0x2E] \<or> key = [0x2E, 0x2E] then key else rev (map_trailing (rev (map map_rune key))))"

definition unmap_rune :: "rune \<Rightarrow> rune" where
  "unmap_rune r =
     (if sfmFirst \<le> r \<and> r \<le> sfmControlOffset + 0x1F then r - sfmControlOffset
      else if r = sfmTrailingSpace then 0x20
      else if r = sfmTrailingPeriod then 0x2E
      else case gm_get sfmReservedReverse r of Some char \<Rightarrow> char | None \<Rightarrow> r)"

definition keyName :: "name \<Rightarrow> name" where
  "keyName n = (if \<exists>r \<in> set n. sfmFirst \<le> r \<and> r \<le> sfmLast then map unmap_rune n else n)"

text \<open>What Windows refuses in a name.\<close>

definition windows_ok :: "name \<Rightarrow> bool" where
  "windows_ok n \<longleftrightarrow>
     (\<forall>r \<in> set n. \<not> (0x01 \<le> r \<and> r \<le> 0x1F) \<and> gm_get sfmReserved r = None) \<and>
     (n \<noteq> [] \<longrightarrow> last n \<noteq> 0x20 \<and> last n \<noteq> 0x2E)"

lemma unmap_map_rune: "\<not> (sfmFirst \<le> r \<and> r \<le> sfmLast) \<Longrightarrow> unmap_rune (map_rune r) = r"
  by (auto simp: unmap_rune_def map_rune_def sfm_defs sfmReserved_def sfmReservedReverse_def)

lemma map_rune_ok: "\<not> (0x01 \<le> map_rune r \<and> map_rune r \<le> 0x1F) \<and> gm_get sfmReserved (map_rune r) = None"
  by (auto simp: map_rune_def sfm_defs sfmReserved_def)

lemma unmap_trailing:
  "\<forall>r \<in> set rs. r \<noteq> sfmTrailingSpace \<and> r \<noteq> sfmTrailingPeriod \<Longrightarrow> map unmap_rune (map_trailing rs) = map unmap_rune rs"
  by (induction rs) (auto simp: unmap_rune_def sfm_defs sfmReservedReverse_def sfmReserved_def)

lemma map_trailing_set: "set (map_trailing rs) \<subseteq> {sfmTrailingSpace, sfmTrailingPeriod} \<union> set rs"
  by (induction rs) auto

lemma map_trailing_hd: "rs \<noteq> [] \<Longrightarrow> hd (map_trailing rs) \<noteq> 0x20 \<and> hd (map_trailing rs) \<noteq> 0x2E"
  by (cases rs) (auto simp: sfm_defs)

lemma map_trailing_Nil [simp]: "map_trailing rs = [] \<longleftrightarrow> rs = []"
  by (cases rs) auto

text \<open>A name without mapped runes was not changed.\<close>

lemma map_rune_private: "map_rune r = r \<or> sfmFirst \<le> map_rune r \<and> map_rune r \<le> sfmLast"
  by (auto simp: map_rune_def sfm_defs sfmReserved_def)

lemma map_trailing_private: "map_trailing rs = rs \<or> (\<exists>r \<in> set (map_trailing rs). sfmFirst \<le> r \<and> r \<le> sfmLast)"
  by (cases rs) (auto simp: sfm_defs)

lemma unmap_windowsName:
  assumes "\<forall>r \<in> set key. \<not> (sfmFirst \<le> r \<and> r \<le> sfmLast)"
  shows "map unmap_rune (windowsName key) = key"
proof -
  have mapped: "map_rune r \<noteq> sfmTrailingSpace \<and> map_rune r \<noteq> sfmTrailingPeriod" if "r \<in> set key" for r
    using assms that by (auto simp: map_rune_def sfm_defs sfmReserved_def)
  have unmapped: "map unmap_rune (map map_rune key) = key"
    using assms unmap_map_rune by (auto intro: map_idI)
  have "map unmap_rune (rev (map_trailing (rev (map map_rune key)))) =
      rev (map unmap_rune (map_trailing (rev (map map_rune key))))"
    by (simp only: rev_map)
  also have "\<dots> = rev (map unmap_rune (rev (map map_rune key)))"
    using unmap_trailing [of "rev (map map_rune key)"] mapped by (simp del: map_map)
  also have "\<dots> = key" using unmapped by (simp add: rev_map)
  finally have "map unmap_rune (rev (map_trailing (rev (map map_rune key)))) = key" .
  moreover have "unmap_rune 0x2E = 0x2E" by (simp add: unmap_rune_def sfm_defs sfmReservedReverse_def sfmReserved_def)
  ultimately show ?thesis by (auto simp: windowsName_def)
qed

section \<open>Case-insensitive lookup\<close>

text \<open>The orbit of a rune; the loop ends when it is back at \<open>r\<close>, and four steps reach that.\<close>

fun orbit_loop :: "(rune \<Rightarrow> rune) \<Rightarrow> rune \<Rightarrow> nat \<Rightarrow> rune \<Rightarrow> name" where
  "orbit_loop sf r 0 f = []"
| "orbit_loop sf r (Suc fuel) f = (if f = r then [] else f # orbit_loop sf r fuel (sf f))"

definition foldOrbit :: "(rune \<Rightarrow> rune) \<Rightarrow> rune \<Rightarrow> name" where
  "foldOrbit sf r = r # orbit_loop sf r 4 (sf r)"

definition simple_fold :: "(rune \<Rightarrow> rune) \<Rightarrow> bool" where
  "simple_fold sf \<longleftrightarrow> (\<forall>r. \<exists>n \<in> {1..4}. (sf ^^ n) r = r)"

text \<open>\<^verbatim>\<open>strings.EqualFold\<close>: rune by rune, within one orbit.\<close>

definition EqualFold :: "(rune \<Rightarrow> rune) \<Rightarrow> name \<Rightarrow> name \<Rightarrow> bool" where
  "EqualFold sf a b \<longleftrightarrow> list_all2 (\<lambda>x y. y \<in> set (foldOrbit sf x)) a b"

fun fold_prefixes_loop :: "(rune \<Rightarrow> rune) \<Rightarrow> int \<Rightarrow> bool \<Rightarrow> name list \<Rightarrow> name \<Rightarrow> name list" where
  "fold_prefixes_loop sf limit first pres [] = pres"
| "fold_prefixes_loop sf limit first pres (r # rs) =
     (let orbit = foldOrbit sf r
      in if \<not> first \<and> int (length pres) * int (length orbit) > limit then pres
         else fold_prefixes_loop sf limit False
                (concat (map (\<lambda>pre. map (\<lambda>variant. pre @ [variant]) orbit) pres)) rs)"

definition foldPrefixes :: "(rune \<Rightarrow> rune) \<Rightarrow> name \<Rightarrow> int \<Rightarrow> name list" where
  "foldPrefixes sf key limit = fold_prefixes_loop sf limit True [[]] key"

definition maxFoldPrefixes :: int where "maxFoldPrefixes = 8"

text \<open>
  What the lookup asks of a directory: the names of a cached listing, whether a name exists, the
  listed names with a prefix (none when the listing fails), and the names that exist only in staging.
\<close>

record dir_view =
  dv_cached :: "name list option"
  dv_stat :: "name \<Rightarrow> bool"
  dv_withPrefix :: "name \<Rightarrow> name list"
  dv_staged :: "name list"

definition foldCandidates :: "(rune \<Rightarrow> rune) \<Rightarrow> dir_view \<Rightarrow> name \<Rightarrow> name list" where
  "foldCandidates sf dir key = concat (map (dv_withPrefix dir) (foldPrefixes sf key maxFoldPrefixes)) @ dv_staged dir"

primrec match_loop :: "(rune \<Rightarrow> rune) \<Rightarrow> name \<Rightarrow> name option \<Rightarrow> name list \<Rightarrow> name option" where
  "match_loop sf key found [] = found"
| "match_loop sf key found (n # ns) =
     (if n = key then Some n
      else if EqualFold sf n key \<and> (case found of None \<Rightarrow> True | Some m \<Rightarrow> n < m)
      then match_loop sf key (Some n) ns else match_loop sf key found ns)"

definition match_in :: "(rune \<Rightarrow> rune) \<Rightarrow> name \<Rightarrow> name list \<Rightarrow> name" where
  "match_in sf key candidates = (case match_loop sf key None candidates of Some n \<Rightarrow> n | None \<Rightarrow> key)"

definition matchChild :: "(rune \<Rightarrow> rune) \<Rightarrow> dir_view \<Rightarrow> name \<Rightarrow> name" where
  "matchChild sf dir key =
     (case dv_cached dir of
        Some names \<Rightarrow> match_in sf key (names @ dv_staged dir)
      | None \<Rightarrow> if dv_stat dir key then key else match_in sf key (foldCandidates sf dir key))"

text \<open>
  \<^verbatim>\<open>keyPath\<close> resolves a name component by component, \<open>view\<close> being the directory at a key path. The
  components are those of the cleaned name.
\<close>

definition keyPath :: "(rune \<Rightarrow> rune) \<Rightarrow> bool \<Rightarrow> (name list \<Rightarrow> dir_view) \<Rightarrow> name list \<Rightarrow> name list \<Rightarrow> name list" where
  "keyPath sf windowsNames view root components =
     (if \<not> windowsNames then root @ components
      else foldl (\<lambda>current component. current @ [matchChild sf (view current) (keyName component)]) root components)"

definition renameTargetPath ::
  "(rune \<Rightarrow> rune) \<Rightarrow> bool \<Rightarrow> (name list \<Rightarrow> dir_view) \<Rightarrow> name list \<Rightarrow> name list \<Rightarrow> name list \<Rightarrow> name list" where
  "renameTargetPath sf windowsNames view root oldFull components =
     (let target = keyPath sf windowsNames view root components
      in if \<not> windowsNames \<or> target \<noteq> oldFull then target
         else butlast target @ [keyName (last components)])"

section \<open>Orbits\<close>

definition orbit_set :: "(rune \<Rightarrow> rune) \<Rightarrow> rune \<Rightarrow> rune set" where
  "orbit_set sf r = range (\<lambda>n. (sf ^^ n) r)"

lemma orbit_set_refl: "r \<in> orbit_set sf r"
  unfolding orbit_set_def by (rule range_eqI [of _ _ 0]) simp

lemma orbit_set_step: "orbit_set sf (sf r) \<subseteq> orbit_set sf r"
proof
  fix x assume "x \<in> orbit_set sf (sf r)"
  then obtain n where "x = (sf ^^ n) (sf r)" by (auto simp: orbit_set_def)
  then have "x = (sf ^^ Suc n) r" by (simp add: funpow_swap1)
  then show "x \<in> orbit_set sf r" unfolding orbit_set_def by (rule range_eqI)
qed

lemma orbit_loop_sub: "set (orbit_loop sf r k f) \<subseteq> orbit_set sf f"
proof (induction k arbitrary: f)
  case (Suc k)
  then show ?case using orbit_set_step [of sf f] orbit_set_refl [of f sf] Suc [of "sf f"] by auto
qed simp

lemma orbit_loop_step:
  "j < k \<Longrightarrow> (sf ^^ j) f \<in> set (orbit_loop sf r k f) \<or> (\<exists>i \<le> j. (sf ^^ i) f = r)"
proof (induction k arbitrary: f j)
  case (Suc k)
  show ?case
  proof (cases j)
    case (Suc j')
    have "(sf ^^ n) (sf f) = (sf ^^ Suc n) f" for n by (simp add: funpow_swap1)
    then show ?thesis using Suc.IH [of j' "sf f"] Suc.prems Suc by (auto intro: exI [of _ 0])
  qed auto
qed simp

lemma foldOrbit_set:
  assumes "simple_fold sf"
  shows "set (foldOrbit sf r) = orbit_set sf r"
proof
  have step: "(sf ^^ n) (sf r) = (sf ^^ Suc n) r" for n by (simp add: funpow_swap1)
  show "set (foldOrbit sf r) \<subseteq> orbit_set sf r"
    using orbit_loop_sub [of sf r 4 "sf r"] orbit_set_step [of sf r] orbit_set_refl [of r sf] by (auto simp: foldOrbit_def)
  define p where "p = (LEAST p. 0 < p \<and> (sf ^^ p) r = r)"
  obtain q where q: "0 < q" "q \<le> 4" "(sf ^^ q) r = r"
  proof -
    have "\<exists>n \<in> {1..4}. (sf ^^ n) r = r" using assms by (simp only: simple_fold_def)
    then obtain n where "n \<in> {1..4}" "(sf ^^ n) r = r" ..
    then show ?thesis using that [of n] by simp
  qed
  have p: "0 < p" "(sf ^^ p) r = r" "p \<le> 4"
    using LeastI [of "\<lambda>p. 0 < p \<and> (sf ^^ p) r = r" q] Least_le [of "\<lambda>p. 0 < p \<and> (sf ^^ p) r = r" q] q by (auto simp: p_def)
  have "(sf ^^ j) r \<in> set (foldOrbit sf r)" if "j < p" for j
  proof (cases j)
    case (Suc i)
    have "(sf ^^ Suc k) r \<noteq> r" if "k \<le> i" for k
      using not_less_Least [of "Suc k" "\<lambda>p. 0 < p \<and> (sf ^^ p) r = r"] that Suc \<open>j < p\<close> by (simp add: p_def)
    then have "\<not> (\<exists>k \<le> i. (sf ^^ k) (sf r) = r)" unfolding step by blast
    then have "(sf ^^ i) (sf r) \<in> set (orbit_loop sf r 4 (sf r))"
      using orbit_loop_step [of i 4 sf "sf r" r] Suc \<open>j < p\<close> p(3) by auto
    then show ?thesis unfolding foldOrbit_def Suc step by simp
  qed (simp add: foldOrbit_def)
  then have "(sf ^^ (n mod p)) r \<in> set (foldOrbit sf r)" for n using p(1) by simp
  then have "(sf ^^ n) r \<in> set (foldOrbit sf r)" for n by (simp only: funpow_mod_eq [OF p(2)])
  then show "orbit_set sf r \<subseteq> set (foldOrbit sf r)" by (auto simp only: orbit_set_def)
qed

lemma orbit_sym:
  assumes "simple_fold sf" "y \<in> set (foldOrbit sf x)" shows "x \<in> set (foldOrbit sf y)"
proof -
  obtain n where n: "y = (sf ^^ n) x" using assms by (auto simp: foldOrbit_set orbit_set_def)
  obtain p where p: "p \<in> {1..4}" "(sf ^^ p) x = x" using assms(1) unfolding simple_fold_def by blast
  have "(sf ^^ (n * p - n)) y = (sf ^^ (n * p)) x"
  proof -
    have "n * p - n + n = n * p" using p(1) by simp
    then show ?thesis unfolding n by (simp only: funpow_add [symmetric, unfolded fun_eq_iff comp_def, rule_format])
  qed
  also have "\<dots> = x" using funpow_mod_eq [OF p(2), of "n * p"] by simp
  finally show ?thesis unfolding foldOrbit_set [OF assms(1)] orbit_set_def by (metis rangeI)
qed

lemma EqualFold_sym: "simple_fold sf \<Longrightarrow> EqualFold sf a b \<Longrightarrow> EqualFold sf b a"
  by (auto simp: EqualFold_def list_all2_conv_all_nth intro: orbit_sym)

section \<open>Listing by prefix finds every match\<close>

lemma fold_prefixes_cover:
  assumes "pre \<in> set pres" "list_all2 (\<lambda>x y. y \<in> set (foldOrbit sf x)) rs ys"
  shows "\<exists>q \<in> set (fold_prefixes_loop sf limit b pres rs). prefix q (pre @ ys)"
  using assms
proof (induction rs arbitrary: pre pres ys b)
  case (Cons r rs)
  then obtain y ys' where ys: "ys = y # ys'" "y \<in> set (foldOrbit sf r)" "list_all2 (\<lambda>x y. y \<in> set (foldOrbit sf x)) rs ys'"
    by (auto simp: list_all2_Cons1)
  let ?next = "concat (map (\<lambda>pre. map (\<lambda>variant. pre @ [variant]) (foldOrbit sf r)) pres)"
  have "pre @ [y] \<in> set ?next" using Cons.prems(1) ys(2) by auto
  then have "\<exists>q \<in> set (fold_prefixes_loop sf limit False ?next rs). prefix q (pre @ ys)"
    using Cons.IH [OF _ ys(3), of "pre @ [y]" ?next False] by (simp add: ys(1))
  moreover have "\<exists>q \<in> set pres. prefix q (pre @ ys)" using Cons.prems(1) by (intro bexI [of _ pre]) auto
  ultimately show ?case by (simp add: Let_def)
qed auto

lemma foldPrefixes_cover:
  assumes "simple_fold sf" "EqualFold sf n key"
  shows "\<exists>q \<in> set (foldPrefixes sf key limit). prefix q n"
  using fold_prefixes_cover [of "[]" "[[]]" sf key n limit True] EqualFold_sym [OF assms]
  by (simp add: EqualFold_def foldPrefixes_def)

lemma fold_prefixes_bound:
  "int (length pres) \<le> l \<Longrightarrow> limit \<le> l \<Longrightarrow> int (length (fold_prefixes_loop sf limit False pres rs)) \<le> l"
proof (induction rs arbitrary: pres)
  case (Cons r rs)
  have "length (concat (map (\<lambda>pre. map (\<lambda>v. pre @ [v]) orbit) pres)) = length pres * length orbit" for orbit :: name
    by (induction pres) auto
  then show ?case using Cons by (simp add: Let_def)
qed simp

text \<open>The lookup the code is meant to do: the key itself, else the least name that differs in case only.\<close>

definition best_match :: "(rune \<Rightarrow> rune) \<Rightarrow> name \<Rightarrow> name set \<Rightarrow> name" where
  "best_match sf key N =
     (if key \<in> N \<or> {n \<in> N. EqualFold sf n key} = {} then key else Min {n \<in> N. EqualFold sf n key})"

lemma match_loop_spec:
  "match_loop sf key found ns =
    (if key \<in> set ns then Some key
     else let S = set_option found \<union> {n \<in> set ns. EqualFold sf n key} in if S = {} then None else Some (Min S))"
proof (induction ns arbitrary: found)
  case Nil
  then show ?case by (cases found) (auto simp: Let_def)
next
  case (Cons n ns)
  let ?S = "\<lambda>found. set_option found \<union> {n \<in> set ns. EqualFold sf n key}"
  have fin: "finite {n \<in> set ns. EqualFold sf n key}" by simp
  show ?case
  proof (cases "n = key \<or> key \<in> set ns")
    case True
    then show ?thesis using Cons by auto
  next
    case False
    show ?thesis
    proof (cases "EqualFold sf n key")
      case True
      then have ins: "set_option found \<union> {m \<in> set (n # ns). EqualFold sf m key} = insert n (?S found)" by auto
      have "Some (Min (insert n (?S found))) =
          (if (case found of None \<Rightarrow> True | Some m \<Rightarrow> n < m) then Some (Min (?S (Some n))) else Some (Min (?S found)))"
      proof (cases found)
        case (Some m)
        show ?thesis
        proof (cases "n < m")
          case True
          have "Min (insert n (insert m T)) = Min (insert n T)" if "finite T" for T
            using that True by (cases "T = {}") (auto simp: Min_insert2 min_def)
          then show ?thesis using True Some fin by simp
        next
          case False
          have "Min (insert n (insert m T)) = Min (insert m T)" if "finite T" for T
            using that False by (cases "T = {}") (auto simp: min_def not_less)
          then show ?thesis using False Some fin by simp
        qed
      qed simp
      then show ?thesis using Cons False True unfolding ins by (auto simp: Let_def split: option.splits)
    next
      case ne: False
      then have "{m \<in> set (n # ns). EqualFold sf m key} = {n \<in> set ns. EqualFold sf n key}" by auto
      then show ?thesis using Cons False ne by (auto simp: Let_def)
    qed
  qed
qed

lemma match_in_best: "match_in sf key ns = best_match sf key (set ns)"
  by (auto simp: match_in_def match_loop_spec best_match_def Let_def)

section \<open>Properties\<close>



text \<open>
  C26: Looking a name up by the prefixes of its case variants gives the same answer as searching the
  whole directory for the name itself or else the least name that differs from it in case only, and
  it makes at most eight listings unless the first character alone has more variants.
\<close>

theorem match_by_prefix_exact:
  assumes "simple_fold sf" "dv_cached dir = None"
    and "\<And>pre. set (dv_withPrefix dir pre) = {n \<in> listed. prefix pre n}"
    and "dv_stat dir key \<longleftrightarrow> key \<in> listed \<union> set (dv_staged dir)" "key = r # rs"
  shows "matchChild sf dir key = best_match sf key (listed \<union> set (dv_staged dir)) \<and>
    int (length (foldPrefixes sf key maxFoldPrefixes)) \<le> max maxFoldPrefixes (int (length (foldOrbit sf r)))"
proof
  let ?N = "listed \<union> set (dv_staged dir)" and ?C = "set (foldCandidates sf dir key)"
  have sub: "?C \<subseteq> ?N" using assms(3) by (auto simp: foldCandidates_def)
  have "n \<in> ?C" if "n \<in> ?N" "EqualFold sf n key" for n
    using foldPrefixes_cover [OF assms(1) that(2), of maxFoldPrefixes] that(1) assms(3) by (auto simp: foldCandidates_def)
  then have "{n \<in> ?C. EqualFold sf n key} = {n \<in> ?N. EqualFold sf n key}" using sub by blast
  then have "best_match sf key ?C = best_match sf key ?N" if "key \<notin> ?N" using that sub by (auto simp: best_match_def)
  then show "matchChild sf dir key = best_match sf key ?N"
    using assms(2,4) by (auto simp: matchChild_def match_in_best) (auto simp: best_match_def)
  show "int (length (foldPrefixes sf key maxFoldPrefixes)) \<le> max maxFoldPrefixes (int (length (foldOrbit sf r)))"
    unfolding foldPrefixes_def assms(5) by (simp add: Let_def) (rule fold_prefixes_bound; simp)
qed

definition ascii_fold :: "rune \<Rightarrow> rune" where
  "ascii_fold r = (if 65 \<le> r \<and> r \<le> 90 then r + 32 else if 97 \<le> r \<and> r \<le> 122 then r - 32 else r)"

lemma ascii_simple_fold: "simple_fold ascii_fold"
proof -
  have "(ascii_fold ^^ 2) r = r" for r by (auto simp: ascii_fold_def numeral_2_eq_2)
  then show ?thesis by (auto simp: simple_fold_def intro!: bexI [of _ 2])
qed

definition sample_dir :: dir_view where
  "sample_dir = \<lparr>dv_cached = None, dv_stat = (\<lambda>n. n \<in> {[97, 66], [65, 98]}),
     dv_withPrefix = (\<lambda>p. filter (prefix p) [[97, 66], [65, 98]]), dv_staged = []\<rparr>"

theorem match_by_prefix_exact_witness:
  "matchChild ascii_fold sample_dir [97, 98] = best_match ascii_fold [97, 98] {[97, 66], [65, 98]} \<and>
   matchChild ascii_fold sample_dir [97, 98] = [65, 98]"
proof
  show "matchChild ascii_fold sample_dir [97, 98] = best_match ascii_fold [97, 98] {[97, 66], [65, 98]}"
  proof -
    have "set (dv_withPrefix sample_dir pre) = {n \<in> {[97, 66], [65, 98]}. prefix pre n}" for pre
      unfolding sample_dir_def by auto
    from match_by_prefix_exact [OF ascii_simple_fold _ this, of "[97, 98]" 97 "[98]"]
    show ?thesis by (simp add: sample_dir_def)
  qed
  show "matchChild ascii_fold sample_dir [97, 98] = [65, 98]" by code_simp
qed

end
