(* ===== verification/Sync_Worker.thy ===== *)
theory Sync_Worker
  imports Staging_Recovery Posix_Attributes Complex_Main
begin

text \<open>
  The background upload of dirty files (\<^verbatim>\<open>src/internal/staging/sync_worker.go\<close>) and the adapter in front
  of the object store client (\<^verbatim>\<open>cos_adapter.go\<close>). The client is a parameter: a record of its
  operations on a bucket of any type. What other goroutines do to the manager while
  an upload runs is a function applied at the points where the upload waits for the network. Gauges and
  log lines have no counterpart; durations are read off an environment.
\<close>

section \<open>The object store client\<close>

record 'b COSClient =
  cc_PutObject :: "string \<Rightarrow> bytes \<Rightarrow> metadata \<Rightarrow> 'b \<Rightarrow> string option \<times> 'b"
  cc_PutObjectStream :: "string \<Rightarrow> bytes \<Rightarrow> metadata \<Rightarrow> 'b \<Rightarrow> string option \<times> 'b"
  cc_CreateMultipartUpload :: "string \<Rightarrow> metadata \<Rightarrow> 'b \<Rightarrow> (string + string) \<times> 'b"
  cc_UploadPart :: "string \<Rightarrow> string \<Rightarrow> int \<Rightarrow> bytes \<Rightarrow> 'b \<Rightarrow> (string + string) \<times> 'b"
  cc_CompleteMultipartUpload :: "string \<Rightarrow> string \<Rightarrow> (int \<times> string) list \<Rightarrow> 'b \<Rightarrow> string option \<times> 'b"
  cc_AbortMultipartUpload :: "string \<Rightarrow> string \<Rightarrow> 'b \<Rightarrow> string option \<times> 'b"
  cc_DeleteObject :: "string \<Rightarrow> 'b \<Rightarrow> string option \<times> 'b"

text \<open>The adapter writes default attributes under the metadata it is given.\<close>

definition adapter_metadata :: "gotime \<Rightarrow> (string \<Rightarrow> int) \<Rightarrow> gotime \<Rightarrow> metadata \<Rightarrow> metadata" where
  "adapter_metadata startup off now metadata =
     (let attrs = \<lparr>pa_Mode = 0x1A4, pa_UID = 1000, pa_GID = 1000, pa_Atime = now, pa_Mtime = now, pa_Ctime = now,
                   pa_Btime = 0, pa_WindowsAttributes = 0, pa_Streams = []\<rparr>
      in foldl (\<lambda>m (k, v). gm_set k v m) (EncodePOSIXAttributes startup off (Some attrs)) metadata)"

definition COSClientAdapter :: "gotime \<Rightarrow> (string \<Rightarrow> int) \<Rightarrow> gotime \<Rightarrow> 'b COSClient \<Rightarrow> 'b COSClient" where
  "COSClientAdapter startup off now client =
     client\<lparr>cc_PutObject := (\<lambda>key data md. cc_PutObject client key data (adapter_metadata startup off now md)),
            cc_PutObjectStream := (\<lambda>key body md. cc_PutObjectStream client key body (adapter_metadata startup off now md)),
            cc_CreateMultipartUpload :=
              (\<lambda>key md. cc_CreateMultipartUpload client key (adapter_metadata startup off now md))\<rparr>"

section \<open>The worker\<close>

record uploadAccumulator =
  ua_bytes :: int
  ua_duration :: duration

record syncObservation =
  ob_Path :: string
  ob_SizeBytes :: int
  ob_UploadDuration :: duration
  ob_VisibilityLatency :: duration
  ob_ThroughputMiBps :: rat
  ob_CompletedAt :: gotime

record SyncWorker =
  sw_config :: StagingConfig
  sw_uploadByPath :: "(string, uploadAccumulator) gomap"
  sw_objectLocks :: "(string, int) gomap"
  sw_totalSyncedFiles :: int
  sw_totalUploadedBytes :: int
  sw_lastSync :: syncObservation
  sw_recentSyncs :: "syncObservation list"
  sw_synced :: "string list"
  sw_mutated :: "string list"

text \<open>\<open>sw_synced\<close> and \<open>sw_mutated\<close> are the calls of the two callbacks so far.\<close>

definition zero_observation :: syncObservation where
  "zero_observation = \<lparr>ob_Path = [], ob_SizeBytes = 0, ob_UploadDuration = 0, ob_VisibilityLatency = 0,
     ob_ThroughputMiBps = 0, ob_CompletedAt = 0\<rparr>"

definition NewSyncWorker :: "StagingConfig \<Rightarrow> SyncWorker" where
  "NewSyncWorker cfg = \<lparr>sw_config = cfg, sw_uploadByPath = [], sw_objectLocks = [], sw_totalSyncedFiles = 0,
     sw_totalUploadedBytes = 0, sw_lastSync = zero_observation, sw_recentSyncs = [], sw_synced = [], sw_mutated = []\<rparr>"

record 'b gateway =
  gw_manager :: StagingManager
  gw_worker :: SyncWorker
  gw_bucket :: 'b

abbreviation gw_index :: "('b, 'z) gateway_scheme \<Rightarrow> DirtyFileIndex" where
  "gw_index gw \<equiv> sm_dirtyIndex (gw_manager gw)"

definition set_manager :: "StagingManager \<Rightarrow> 'b gateway \<Rightarrow> 'b gateway" where
  "set_manager sm gw = gw\<lparr>gw_manager := sm\<rparr>"

definition upd_worker :: "(SyncWorker \<Rightarrow> SyncWorker) \<Rightarrow> 'b gateway \<Rightarrow> 'b gateway" where
  "upd_worker f gw = gw\<lparr>gw_worker := f (gw_worker gw)\<rparr>"

definition on_bucket :: "('b \<Rightarrow> 'a \<times> 'b) \<Rightarrow> 'b gateway \<Rightarrow> 'a \<times> 'b gateway" where
  "on_bucket f gw = (case f (gw_bucket gw) of (r, b) \<Rightarrow> (r, gw\<lparr>gw_bucket := b\<rparr>))"

definition notifyObjectMutated :: "string \<Rightarrow> SyncWorker \<Rightarrow> SyncWorker" where
  "notifyObjectMutated path sw = sw\<lparr>sw_mutated := sw_mutated sw @ [path]\<rparr>"

definition notifyObjectSynced :: "string \<Rightarrow> SyncWorker \<Rightarrow> SyncWorker" where
  "notifyObjectSynced path sw = sw\<lparr>sw_synced := sw_synced sw @ [path]\<rparr>"

definition addUploadSample :: "string \<Rightarrow> int \<Rightarrow> duration \<Rightarrow> SyncWorker \<Rightarrow> SyncWorker" where
  "addUploadSample path bytes took sw =
     (if bytes \<le> 0 then sw
      else let acc = gm_or \<lparr>ua_bytes = 0, ua_duration = 0\<rparr> (sw_uploadByPath sw) path
           in sw\<lparr>sw_uploadByPath := gm_set path
                   \<lparr>ua_bytes = ua_bytes acc + bytes, ua_duration = ua_duration acc + took\<rparr> (sw_uploadByPath sw)\<rparr>)"

definition consumeUploadSamples :: "string \<Rightarrow> SyncWorker \<Rightarrow> (int \<times> duration) \<times> SyncWorker" where
  "consumeUploadSamples path sw =
     (let acc = gm_or \<lparr>ua_bytes = 0, ua_duration = 0\<rparr> (sw_uploadByPath sw) path
      in ((ua_bytes acc, ua_duration acc), sw\<lparr>sw_uploadByPath := gm_del path (sw_uploadByPath sw)\<rparr>))"

definition recordSuccessfulSync :: "gotime \<Rightarrow> string \<Rightarrow> int \<Rightarrow> gotime \<Rightarrow> duration \<Rightarrow> SyncWorker \<Rightarrow> SyncWorker" where
  "recordSuccessfulSync now path uploadedBytes dirtySince uploadDuration sw =
     (let throughput = (if uploadDuration > 0
            then (of_int uploadedBytes / (1024 * 1024)) / (of_int uploadDuration / of_int second) else 0);
          observation = \<lparr>ob_Path = path, ob_SizeBytes = uploadedBytes, ob_UploadDuration = uploadDuration,
            ob_VisibilityLatency = now - dirtySince, ob_ThroughputMiBps = throughput, ob_CompletedAt = now\<rparr>
      in sw\<lparr>sw_totalSyncedFiles := sw_totalSyncedFiles sw + 1,
            sw_totalUploadedBytes := sw_totalUploadedBytes sw + uploadedBytes,
            sw_lastSync := observation, sw_recentSyncs := take 50 (observation # sw_recentSyncs sw)\<rparr>)"

text \<open>
  \<^verbatim>\<open>lockObject\<close> counts the users of a path's lock before it waits for it, and the function it returns
  drops the entry with the last user.
\<close>

definition lockObject :: "string \<Rightarrow> SyncWorker \<Rightarrow> SyncWorker" where
  "lockObject path sw = sw\<lparr>sw_objectLocks := gm_set path (gm_or 0 (sw_objectLocks sw) path + 1) (sw_objectLocks sw)\<rparr>"

definition unlockObject :: "string \<Rightarrow> SyncWorker \<Rightarrow> SyncWorker" where
  "unlockObject path sw =
     (let users = gm_or 0 (sw_objectLocks sw) path - 1
      in sw\<lparr>sw_objectLocks := (if users = 0 then gm_del path (sw_objectLocks sw) else gm_set path users (sw_objectLocks sw))\<rparr>)"

section \<open>Retries\<close>

datatype upload_error =
  CosError string
| ErrMultipartSnapshotChanged
| CtxDone
| SeekFailed
| AttemptsExhausted int "upload_error option"

text \<open>
  What an upload meets besides the store: whether the worker is stopped while it waits before an
  attempt, whether rewinding fails, what others do to the manager before a part is read (part 0
  stands for the check before completing), and how long each part took.
\<close>

record sync_env =
  sv_now :: gotime
  sv_done :: gotime
  sv_stopped :: "nat \<Rightarrow> duration \<Rightarrow> bool"
  sv_seekFails :: "nat \<Rightarrow> bool"
  sv_during :: "nat \<Rightarrow> int \<Rightarrow> StagingManager \<Rightarrow> StagingManager"
  sv_took :: "nat \<Rightarrow> int \<Rightarrow> duration"
  sv_rounds :: "(session_state \<Rightarrow> session_state) list"
  sv_after :: "StagingManager \<Rightarrow> StagingManager"

definition GetRetryBackoffInitial :: "StagingConfig \<Rightarrow> duration option" where
  "GetRetryBackoffInitial cfg = parsed_duration (sc_RetryBackoffInit cfg)"

definition GetRetryBackoffMax :: "StagingConfig \<Rightarrow> duration option" where
  "GetRetryBackoffMax cfg = parsed_duration (sc_RetryBackoffMax cfg)"

definition GetMaxDirtyAge :: "StagingConfig \<Rightarrow> duration option" where
  "GetMaxDirtyAge cfg = parsed_duration (sc_MaxDirtyAge cfg)"

text \<open>A setting that does not parse counts as zero where the error is ignored.\<close>

definition or_zero :: "duration option \<Rightarrow> duration" where
  "or_zero d = (case d of None \<Rightarrow> 0 | Some x \<Rightarrow> x)"

text \<open>
  The wait before an attempt: the initial backoff times a power of two in 64-bit arithmetic, capped.
\<close>

definition retry_backoff :: "StagingConfig \<Rightarrow> nat \<Rightarrow> duration" where
  "retry_backoff cfg attempt =
     (let retryBackoff = or_zero (GetRetryBackoffInitial cfg);
          maxRetryBackoff = or_zero (GetRetryBackoffMax cfg);
          backoff = sint ((word_of_int retryBackoff :: 64 word) * push_bit (attempt - 1) 1)
      in if backoff > maxRetryBackoff then maxRetryBackoff else backoff)"

text \<open>
  The retry loop the three upload functions share, over the attempts left. \<open>fatal\<close> errors end it.
\<close>

fun retry_loop :: "StagingConfig \<Rightarrow> sync_env \<Rightarrow> (upload_error \<Rightarrow> bool) \<Rightarrow> (nat \<Rightarrow> 's \<Rightarrow> upload_error option \<times> 's)
    \<Rightarrow> nat \<Rightarrow> nat \<Rightarrow> upload_error option \<Rightarrow> 's \<Rightarrow> upload_error option \<times> 's" where
  "retry_loop cfg env fatal try 0 attempt lastErr s = (Some (AttemptsExhausted (sc_MaxSyncRetries cfg) lastErr), s)"
| "retry_loop cfg env fatal try (Suc left) attempt lastErr s =
     (if attempt > 0 \<and> sv_stopped env attempt (retry_backoff cfg attempt) then (Some CtxDone, s)
      else case try attempt s of
             (None, s') \<Rightarrow> (None, s')
           | (Some e, s') \<Rightarrow> if fatal e then (Some e, s') else retry_loop cfg env fatal try left (attempt + 1) (Some e) s')"

definition with_retry :: "StagingConfig \<Rightarrow> sync_env \<Rightarrow> (upload_error \<Rightarrow> bool) \<Rightarrow> (nat \<Rightarrow> 's \<Rightarrow> upload_error option \<times> 's)
    \<Rightarrow> 's \<Rightarrow> upload_error option \<times> 's" where
  "with_retry cfg env fatal try s = retry_loop cfg env fatal try (nat (sc_MaxSyncRetries cfg)) 0 None s"

definition uploadWithRetry ::
  "'b COSClient \<Rightarrow> sync_env \<Rightarrow> string \<Rightarrow> bytes \<Rightarrow> metadata \<Rightarrow> 'b gateway \<Rightarrow> upload_error option \<times> 'b gateway" where
  "uploadWithRetry client env path data metadata gw =
     with_retry (sw_config (gw_worker gw)) env (\<lambda>_. False)
       (\<lambda>attempt gw. case on_bucket (cc_PutObject client path data metadata) gw of
          (e, gw') \<Rightarrow> (map_option CosError e, gw')) gw"

text \<open>The body is read from the snapshot's file when an attempt uploads it.\<close>

definition file_section :: "StagingManager \<Rightarrow> nat \<Rightarrow> int \<Rightarrow> int \<Rightarrow> bytes" where
  "file_section sm file offset n = take (nat n) (drop (nat offset) (dk_inodes (sm_disk sm) file))"

definition uploadWithRetryStream ::
  "'b COSClient \<Rightarrow> sync_env \<Rightarrow> string \<Rightarrow> nat \<Rightarrow> int \<Rightarrow> metadata \<Rightarrow> 'b gateway \<Rightarrow> upload_error option \<times> 'b gateway" where
  "uploadWithRetryStream client env path file size' metadata gw =
     with_retry (sw_config (gw_worker gw)) env (\<lambda>e. e = SeekFailed)
       (\<lambda>attempt gw.
          if sv_seekFails env attempt then (Some SeekFailed, gw)
          else let gw = set_manager (sv_during env attempt 1 (gw_manager gw)) gw
               in case on_bucket (cc_PutObjectStream client path (file_section (gw_manager gw) file 0 size') metadata) gw of
                    (e, gw') \<Rightarrow> (map_option CosError e, gw')) gw"

section \<open>Multipart uploads\<close>

definition isNoSuchUpload :: "string \<Rightarrow> bool" where
  "isNoSuchUpload message \<longleftrightarrow> sublist ''NoSuchUpload'' message \<or> sublist ''Invalid uploadId'' message"

text \<open>
  The loop over the parts; callers pass a positive part size. It stops with the first error.
\<close>

function upload_parts ::
  "'b COSClient \<Rightarrow> sync_env \<Rightarrow> nat \<Rightarrow> string \<Rightarrow> string \<Rightarrow> nat \<Rightarrow> int \<Rightarrow> int \<Rightarrow> int \<Rightarrow> int \<Rightarrow> (int \<times> string) list
     \<Rightarrow> 'b gateway \<Rightarrow> (upload_error + (int \<times> string) list) \<times> 'b gateway" where
  "upload_parts client env attempt path uploadID file size' partSize offset partNumber parts gw =
     (if offset \<ge> size' \<or> partSize \<le> 0 then (Inr parts, gw)
      else let currentPartSize = (if size' - offset < partSize then size' - offset else partSize);
               gw = set_manager (sv_during env attempt partNumber (gw_manager gw)) gw
           in case on_bucket (cc_UploadPart client path uploadID partNumber
                      (file_section (gw_manager gw) file offset currentPartSize)) gw of
                (Inl e, gw') \<Rightarrow> (Inl (CosError e), gw')
              | (Inr etag, gw') \<Rightarrow>
                  upload_parts client env attempt path uploadID file size' partSize (offset + partSize) (partNumber + 1)
                    (parts @ [(partNumber, etag)])
                    (upd_worker (addUploadSample path currentPartSize (sv_took env attempt partNumber)) gw'))"
  by pat_completeness auto

termination upload_parts
  by (relation "measure (\<lambda>(client, env, attempt, path, uploadID, file, size', partSize, offset, _). nat (size' - offset))") auto

declare upload_parts.simps [simp del]

definition isSnapshotCurrent :: "string \<Rightarrow> nat \<Rightarrow> int \<Rightarrow> gotime \<Rightarrow> int \<Rightarrow> StagingManager \<Rightarrow> bool" where
  "isSnapshotCurrent path sid size' lastWrite snapshotGeneration sm =
     (case WriteSession_Snapshot (sm_heap sm sid) of
        (_, currentSize, _, _, _, _, currentLastWrite, _) \<Rightarrow>
          if currentSize \<noteq> size' \<or> currentLastWrite \<noteq> lastWrite then False
          else case GetMetadata path (sm_dirtyIndex sm) of
                 Some m \<Rightarrow> dm_LocalDirtyGeneration m = snapshotGeneration
               | None \<Rightarrow> True)"

definition uploadMultipartOnce ::
  "'b COSClient \<Rightarrow> sync_env \<Rightarrow> nat \<Rightarrow> string \<Rightarrow> nat \<Rightarrow> int \<Rightarrow> int \<Rightarrow> metadata \<Rightarrow> (StagingManager \<Rightarrow> bool)
     \<Rightarrow> 'b gateway \<Rightarrow> upload_error option \<times> 'b gateway" where
  "uploadMultipartOnce client env attempt path file size' partSize metadata current gw =
     (case on_bucket (cc_CreateMultipartUpload client path metadata) gw of
        (Inl e, gw1) \<Rightarrow> (Some (CosError e), gw1)
      | (Inr uploadID, gw1) \<Rightarrow>
          let abort = (\<lambda>gw. snd (on_bucket (cc_AbortMultipartUpload client path uploadID) gw))
          in case upload_parts client env attempt path uploadID file size' partSize 0 1 [] gw1 of
               (Inl e, gw2) \<Rightarrow> (Some e, abort gw2)
             | (Inr parts, gw2) \<Rightarrow>
                 let completedParts = sort_key fst parts;
                     gw2 = set_manager (sv_during env attempt 0 (gw_manager gw2)) gw2
                 in if \<not> current (gw_manager gw2) then (Some ErrMultipartSnapshotChanged, abort gw2)
                    else case on_bucket (cc_CompleteMultipartUpload client path uploadID completedParts) gw2 of
                           (Some e, gw3) \<Rightarrow> (Some (CosError e), abort gw3)
                         | (None, gw3) \<Rightarrow> (None, gw3))"

definition uploadMultipartWithRetry ::
  "'b COSClient \<Rightarrow> sync_env \<Rightarrow> string \<Rightarrow> nat \<Rightarrow> int \<Rightarrow> int \<Rightarrow> metadata \<Rightarrow> (StagingManager \<Rightarrow> bool)
     \<Rightarrow> 'b gateway \<Rightarrow> upload_error option \<times> 'b gateway" where
  "uploadMultipartWithRetry client env path file size' partSize metadata current gw =
     with_retry (sw_config (gw_worker gw)) env (\<lambda>e. e = SeekFailed \<or> e = ErrMultipartSnapshotChanged)
       (\<lambda>attempt gw.
          if sv_seekFails env attempt then (Some SeekFailed, gw)
          else uploadMultipartOnce client env attempt path file size' partSize metadata current gw) gw"

section \<open>Syncing one file\<close>

datatype sync_error =
  ErrPathConflicted
| SessionNotFound stg_error
| OpenFailed stg_error
| MultipartFailed upload_error
| UploadFailed upload_error
| SnapshotChanged
| CleanupFailed stg_error

definition reset_multipart :: "nat \<Rightarrow> 'b gateway \<Rightarrow> 'b gateway" where
  "reset_multipart sid gw =
     set_manager (upd_session sid (\<lambda>ws. ws\<lparr>ws_Multipart := S3MultipartState_Reset (ws_Multipart ws)\<rparr>) (gw_manager gw)) gw"

text \<open>The upload of a snapshot: multipart from one part on, else in one request.\<close>

definition upload_snapshot ::
  "'b COSClient \<Rightarrow> sync_env \<Rightarrow> gotime \<Rightarrow> (string \<Rightarrow> int) \<Rightarrow> string \<Rightarrow> nat \<Rightarrow> int \<Rightarrow> UploadSnapshot
     \<Rightarrow> 'b gateway \<Rightarrow> sync_error option \<times> 'b gateway" where
  "upload_snapshot client env startup off path sid generation snapshot gw =
     (let file = us_File snapshot; size' = us_Size snapshot;
          partSize = (if us_PartSize snapshot \<le> 0 then 20 * 1024 * 1024 else us_PartSize snapshot);
          cosMetadata = EncodePOSIXAttributes startup off
            (Some (StagedAttributes_POSIX (attributesLocked (sm_heap (gw_manager gw) sid))))
      in if size' \<ge> partSize
         then (case uploadMultipartWithRetry client env path file size' partSize cosMetadata
                      (isSnapshotCurrent path sid size' (us_LastWrite snapshot) generation) (reset_multipart sid gw) of
                 (Some e, gw1) \<Rightarrow> (Some (MultipartFailed e), reset_multipart sid gw1)
               | (None, gw1) \<Rightarrow> (None, reset_multipart sid gw1))
         else (case uploadWithRetryStream client env path file size' cosMetadata gw of
                 (Some e, gw1) \<Rightarrow> (Some (UploadFailed e), gw1)
               | (None, gw1) \<Rightarrow> (None, upd_worker (addUploadSample path size' (sv_took env 0 0)) gw1)))"

text \<open>What follows a successful upload.\<close>

definition finish_sync ::
  "faults \<Rightarrow> sync_env \<Rightarrow> string \<Rightarrow> nat \<Rightarrow> int \<Rightarrow> gotime \<Rightarrow> int \<Rightarrow> 'b gateway \<Rightarrow> sync_error option \<times> 'b gateway" where
  "finish_sync fl env path sid generation dirtySince size' gw =
     (case markCleanIfUnchanged fl path generation (sv_after env (gw_manager gw)) of
        (False, sm) \<Rightarrow> (Some SnapshotChanged, set_manager sm gw)
      | (True, sm) \<Rightarrow>
          (case consumeUploadSamples path (gw_worker gw) of
             ((uploadedBytes, uploadDuration), sw) \<Rightarrow>
               let uploadedBytes = (if uploadedBytes = 0 \<and> size' > 0 then size' else uploadedBytes);
                   sw = notifyObjectSynced path (recordSuccessfulSync (sv_done env) path uploadedBytes dirtySince uploadDuration sw);
                   gw = gw\<lparr>gw_manager := sm, gw_worker := sw\<rparr>
               in if sc_CleanAfterSync (sw_config sw)
                  then (case cleanupSyncedSession fl path sid sm of
                          ((_, Some e), sm') \<Rightarrow> (Some (CleanupFailed e), set_manager sm' gw)
                        | ((_, None), sm') \<Rightarrow> (None, set_manager sm' gw))
                  else (None, gw)))"

definition close_upload :: "nat \<Rightarrow> UploadSnapshot \<Rightarrow> 'b gateway \<Rightarrow> 'b gateway" where
  "close_upload sid snapshot gw =
     set_manager (upd_session sid (\<lambda>ws. snd (UploadSnapshot_Close snapshot ws)) (gw_manager gw)) gw"

definition sync_session ::
  "'b COSClient \<Rightarrow> faults \<Rightarrow> sync_env \<Rightarrow> gotime \<Rightarrow> (string \<Rightarrow> int) \<Rightarrow> string \<Rightarrow> nat \<Rightarrow> 'b gateway
     \<Rightarrow> sync_error option \<times> 'b gateway" where
  "sync_session client fl env startup off path sid gw =
     (let (generation, dirtySince) =
            (case GetMetadata path (gw_index gw) of
               None \<Rightarrow> (0, sv_now env)
             | Some m \<Rightarrow> (dm_LocalDirtyGeneration m,
                          if is_zero_time (dm_DirtySince m) then sv_now env else dm_DirtySince m))
      in case run_session sid (OpenUploadSnapshot fl (sv_rounds env)) (gw_manager gw) of
           (Inl e, sm) \<Rightarrow> (Some (OpenFailed e), set_manager sm gw)
         | (Inr snapshot, sm) \<Rightarrow>
             (case upload_snapshot client env startup off path sid generation snapshot (set_manager sm gw) of
                (Some e, gw1) \<Rightarrow> (Some e, close_upload sid snapshot gw1)
              | (None, gw1) \<Rightarrow>
                  (case finish_sync fl env path sid generation dirtySince (us_Size snapshot) gw1 of
                     (e, gw2) \<Rightarrow> (e, close_upload sid snapshot gw2))))"

definition syncFileLocked ::
  "'b COSClient \<Rightarrow> faults \<Rightarrow> sync_env \<Rightarrow> gotime \<Rightarrow> (string \<Rightarrow> int) \<Rightarrow> string \<Rightarrow> 'b gateway
     \<Rightarrow> sync_error option \<times> 'b gateway" where
  "syncFileLocked client fl env startup off path gw =
     (if IsConflicted path (gw_index gw) then (Some ErrPathConflicted, gw)
      else if HasPendingDelete path (gw_manager gw) then (None, gw)
      else case GetSession path (gw_manager gw) of
             Some sid \<Rightarrow> sync_session client fl env startup off path sid gw
           | None \<Rightarrow>
               (case RecoverSessionFromStaging fl (sv_now env) path (gw_manager gw) of
                  (Inl e, sm) \<Rightarrow>
                    if e = ENotExist then (None, set_manager (ForgetDirty fl path sm) gw)
                    else (Some (SessionNotFound e), set_manager sm gw)
                | (Inr sid, sm) \<Rightarrow> sync_session client fl env startup off path sid (set_manager sm gw)))"

definition syncFileWithWorker ::
  "'b COSClient \<Rightarrow> faults \<Rightarrow> sync_env \<Rightarrow> gotime \<Rightarrow> (string \<Rightarrow> int) \<Rightarrow> string \<Rightarrow> 'b gateway
     \<Rightarrow> sync_error option \<times> 'b gateway" where
  "syncFileWithWorker client fl env startup off path gw =
     (case syncFileLocked client fl env startup off path (upd_worker (lockObject path) gw) of
        (e, gw') \<Rightarrow> (e, upd_worker (unlockObject path) gw'))"

definition TriggerSync ::
  "'b COSClient \<Rightarrow> faults \<Rightarrow> sync_env \<Rightarrow> gotime \<Rightarrow> (string \<Rightarrow> int) \<Rightarrow> string \<Rightarrow> 'b gateway
     \<Rightarrow> sync_error option \<times> 'b gateway" where
  "TriggerSync client fl env startup off path gw =
     (let gw = upd_worker (lockObject path) gw;
          (e, gw') = (if IsConflicted path (gw_index gw) then (Some ErrPathConflicted, gw)
            else if \<not> IsDirty path (gw_index gw) then (None, gw)
            else syncFileLocked client fl env startup off path gw)
      in (e, upd_worker (unlockObject path) gw'))"

definition UploadToCOS ::
  "'b COSClient \<Rightarrow> sync_env \<Rightarrow> string \<Rightarrow> bytes \<Rightarrow> metadata \<Rightarrow> 'b gateway \<Rightarrow> upload_error option \<times> 'b gateway" where
  "UploadToCOS client env path data metadata gw =
     (case uploadWithRetry client env path data metadata gw of
        (Some e, gw') \<Rightarrow> (Some e, gw')
      | (None, gw') \<Rightarrow> (None, upd_worker (notifyObjectSynced path) gw'))"

section \<open>The tick of a worker\<close>

definition syncStabilityDelay :: duration where
  "syncStabilityDelay = 5 * second"

text \<open>The quota test compares 64-bit floats; the model compares the exact numbers.\<close>

definition shouldSync :: "gotime \<Rightarrow> StagingConfig \<Rightarrow> DirtyFileMetadata \<Rightarrow> StagingManager \<Rightarrow> bool" where
  "shouldSync now cfg m sm =
     (let path = dm_Path m;
          sess = GetSession path sm;
          maxSize = sc_MaxStagingSizeGB (sm_config sm) * 1024 * 1024 * 1024
      in if IsConflicted path (sm_dirtyIndex sm) then False
         else if \<not> is_zero_time (dm_LastModified m) \<and> now - dm_LastModified m < syncStabilityDelay then False
         else if (case sess of None \<Rightarrow> False
                  | Some sid \<Rightarrow> ws_RefCount (sm_heap sm sid) > 0 \<and> now - ws_LastWrite (sm_heap sm sid) < syncStabilityDelay)
         then False
         else if maxSize > 0 \<and> GetTotalStagingSize sm * 10 \<ge> maxSize * 8 then True
         else if dm_Size m \<ge> sc_SyncThresholdMB cfg * 1024 * 1024 then True
         else if now - dm_DirtySince m \<ge> or_zero (GetMaxDirtyAge cfg) then True
         else (case sess of None \<Rightarrow> False
               | Some sid \<Rightarrow> ws_RefCount (sm_heap sm sid) = 0 \<and> now - ws_LastWrite (sm_heap sm sid) \<ge> syncStabilityDelay))"

text \<open>The text of an error, kept for the statistics, is left abstract as one string per case.\<close>

definition error_text :: "sync_error \<Rightarrow> string" where
  "error_text e =
     (case e of
        ErrPathConflicted \<Rightarrow> ''path conflicted''
      | SessionNotFound _ \<Rightarrow> ''session not found for path''
      | OpenFailed _ \<Rightarrow> ''failed to open staged bytes''
      | MultipartFailed _ \<Rightarrow> ''failed to multipart upload to COS''
      | UploadFailed _ \<Rightarrow> ''failed to upload to COS''
      | SnapshotChanged \<Rightarrow> ''snapshot changed during upload; leaving file dirty for retry''
      | CleanupFailed _ \<Rightarrow> ''failed to cleanup synced staging session'')"

definition process_dirty ::
  "'b COSClient \<Rightarrow> faults \<Rightarrow> (string \<Rightarrow> sync_env) \<Rightarrow> gotime \<Rightarrow> (string \<Rightarrow> int) \<Rightarrow> DirtyFileMetadata \<Rightarrow> 'b gateway \<Rightarrow> 'b gateway" where
  "process_dirty client fl env startup off m gw =
     (let path = dm_Path m
      in if \<not> shouldSync (sv_now (env path)) (sw_config (gw_worker gw)) m (gw_manager gw) then gw
         else if IsConflicted path (gw_index gw) then gw
         else case TryLockSync path (gw_manager gw) of
                (False, _) \<Rightarrow> gw
              | (True, sm) \<Rightarrow>
                  if \<not> IsDirty path (sm_dirtyIndex sm) then set_manager (UnlockSync path sm) gw
                  else (case syncFileWithWorker client fl (env path) startup off path (set_manager sm gw) of
                          (Some e, gw1) \<Rightarrow>
                            set_manager (UnlockSync path
                              (upd_index (IncrementSyncAttempts path (Some (error_text e))) (gw_manager gw1))) gw1
                        | (None, gw1) \<Rightarrow> set_manager (UnlockSync path (gw_manager gw1)) gw1))"

definition processDirtyFiles ::
  "'b COSClient \<Rightarrow> faults \<Rightarrow> (string \<Rightarrow> sync_env) \<Rightarrow> gotime \<Rightarrow> (string \<Rightarrow> int) \<Rightarrow> 'b gateway \<Rightarrow> 'b gateway" where
  "processDirtyFiles client fl env startup off gw =
     fold (process_dirty client fl env startup off) (DirtyFileIndex_GetDirtyFiles (gw_index gw)) gw"

definition process_delete ::
  "'b COSClient \<Rightarrow> faults \<Rightarrow> TombstoneState \<Rightarrow> 'b gateway \<Rightarrow> 'b gateway" where
  "process_delete client fl tomb gw =
     (let path = ts_Path tomb
      in case TryLockSync path (gw_manager gw) of
           (False, _) \<Rightarrow> gw
         | (True, sm) \<Rightarrow>
             if \<not> HasPendingDelete path sm then set_manager (UnlockSync path sm) gw
             else (case discardDeletedStaging fl path sm of
                     ((False, _), sm1) \<Rightarrow> set_manager (UnlockSync path sm1) gw
                   | ((True, _), sm1) \<Rightarrow>
                       (case on_bucket (cc_DeleteObject client (ts_ObjectKey tomb)) (set_manager sm1 gw) of
                          (Some _, gw1) \<Rightarrow> set_manager (UnlockSync path (gw_manager gw1)) gw1
                        | (None, gw1) \<Rightarrow>
                            upd_worker (notifyObjectMutated path)
                              (set_manager (UnlockSync path (ResolvePendingDelete fl path (gw_manager gw1))) gw1))))"

definition processPendingDeletes :: "'b COSClient \<Rightarrow> faults \<Rightarrow> 'b gateway \<Rightarrow> 'b gateway" where
  "processPendingDeletes client fl gw = fold (process_delete client fl) (PendingDeletes (gw_manager gw)) gw"

text \<open>The body of \<^verbatim>\<open>workerLoop\<close> on a tick.\<close>

definition worker_tick ::
  "'b COSClient \<Rightarrow> faults \<Rightarrow> (string \<Rightarrow> sync_env) \<Rightarrow> gotime \<Rightarrow> (string \<Rightarrow> int) \<Rightarrow> 'b gateway \<Rightarrow> 'b gateway" where
  "worker_tick client fl env startup off gw =
     processDirtyFiles client fl env startup off (processPendingDeletes client fl gw)"

section \<open>Statistics\<close>

record pending_file =
  pf_path :: string
  pf_size_bytes :: int
  pf_dirty_since :: string
  pf_age :: duration
  pf_sync_attempts :: int
  pf_status :: string
  pf_progress_percent :: int
  pf_last_error :: "string option"

record synced_summary =
  sf_path :: string
  sf_bytes :: int
  sf_upload_duration :: duration
  sf_visibility_latency :: duration
  sf_mib_per_second :: rat
  sf_completed_at :: string

record synced_file = synced_summary +
  sf_status :: string
  sf_progress_percent :: int

definition formatSyncObservations :: "syncObservation list \<Rightarrow> synced_file list" where
  "formatSyncObservations observations =
     map (\<lambda>o'. \<lparr>sf_path = ob_Path o', sf_bytes = ob_SizeBytes o', sf_upload_duration = ob_UploadDuration o',
       sf_visibility_latency = ob_VisibilityLatency o', sf_mib_per_second = ob_ThroughputMiBps o',
       sf_completed_at = format_RFC3339Nano 0 (ob_CompletedAt o'), sf_status = ''synced'', sf_progress_percent = 100\<rparr>) observations"

record SyncStats =
  ss_dirty_files :: nat
  ss_total_size :: int
  ss_worker_count :: int
  ss_sync_queue_depth :: int
  ss_sync_queue_bytes :: int
  ss_syncing_files :: nat
  ss_pending_deletes :: nat
  ss_conflict_count :: int
  ss_conflicted_paths :: "string list"
  ss_total_synced_files :: int
  ss_total_uploaded_bytes :: int
  ss_staging_used_bytes :: int
  ss_staging_available_bytes :: int
  ss_staging_pressure_level :: string
  ss_pending_files :: "pending_file list"
  ss_recent_synced_files :: "synced_file list"
  ss_oldest_dirty_age :: "duration option"
  ss_oldest_queue_age :: "duration option"
  ss_last_conflict_time :: "string option"
  ss_last_sync :: "synced_summary option"

definition pending_entry :: "gotime \<Rightarrow> DirtyFileIndex \<Rightarrow> DirtyFileMetadata \<Rightarrow> pending_file" where
  "pending_entry now di m =
     (let syncing = IsSyncing (dm_Path m) di
      in \<lparr>pf_path = dm_Path m, pf_size_bytes = dm_Size m, pf_dirty_since = format_RFC3339Nano 0 (dm_DirtySince m),
          pf_age = now - dm_DirtySince m, pf_sync_attempts = dm_SyncAttempts m,
          pf_status = (if syncing then ''syncing'' else ''queued''), pf_progress_percent = (if syncing then 65 else 0),
          pf_last_error = dm_LastSyncError m\<rparr>)"

definition SyncWorker_Stats :: "gotime \<Rightarrow> pressure_obs \<Rightarrow> 'b gateway \<Rightarrow> SyncStats" where
  "SyncWorker_Stats now ob gw =
     (let sm = gw_manager gw; sw = gw_worker gw; di = gw_index gw;
          dirtyFiles = sort_key dm_DirtySince (DirtyFileIndex_GetDirtyFiles di);
          oldestDirty = foldl (\<lambda>t m. if is_zero_time t \<or> dm_DirtySince m < t then dm_DirtySince m else t) 0 dirtyFiles;
          (depth, queueBytes, oldestAge) = SyncQueueStats now sm;
          pressure = CurrentPressure (sm_config sm) ob;
          (conflictCount, conflictedPaths, lastConflict) = ConflictStats sm
      in \<lparr>ss_dirty_files = length dirtyFiles,
          ss_total_size = foldl (\<lambda>n m. n + dm_Size m) 0 dirtyFiles,
          ss_worker_count = sc_SyncWorkerCount (sw_config sw), ss_sync_queue_depth = depth,
          ss_sync_queue_bytes = queueBytes, ss_syncing_files = SyncingCount di,
          ss_pending_deletes = PendingDeleteCount sm, ss_conflict_count = conflictCount,
          ss_conflicted_paths = conflictedPaths, ss_total_synced_files = sw_totalSyncedFiles sw,
          ss_total_uploaded_bytes = sw_totalUploadedBytes sw, ss_staging_used_bytes = pr_UsedBytes pressure,
          ss_staging_available_bytes = pr_AvailableBytes pressure, ss_staging_pressure_level = pr_Level pressure,
          ss_pending_files = map (pending_entry now di) dirtyFiles,
          ss_recent_synced_files = formatSyncObservations (sw_recentSyncs sw),
          ss_oldest_dirty_age = (if is_zero_time oldestDirty then None else Some (now - oldestDirty)),
          ss_oldest_queue_age = (if oldestAge > 0 then Some oldestAge else None),
          ss_last_conflict_time = (if is_zero_time lastConflict then None else Some (format_RFC3339Nano 0 lastConflict)),
          ss_last_sync = (if is_zero_time (ob_CompletedAt (sw_lastSync sw)) then None
             else let o' = sw_lastSync sw
                  in Some \<lparr>sf_path = ob_Path o', sf_bytes = ob_SizeBytes o', sf_upload_duration = ob_UploadDuration o',
                       sf_visibility_latency = ob_VisibilityLatency o', sf_mib_per_second = ob_ThroughputMiBps o',
                       sf_completed_at = format_RFC3339Nano 0 (ob_CompletedAt o')\<rparr>)\<rparr>)"

end
