(* ===== verification/Sync_Properties.thy ===== *)
theory Sync_Properties
  imports Sync_Worker
begin

text \<open>
  What the sync worker guarantees: a successful sync stored the staged bytes, a failed one leaves the
  file dirty, an idle file is stored by the next pass over a working store, and a
  pending delete is forgotten only when its object is gone.
\<close>

section \<open>What the code relies on of the object store\<close>

text \<open>
  \<open>obj b key\<close> is the object a bucket holds under a key, with its metadata; \<open>up b uid\<close> is an open
  multipart upload: its key, its metadata and its parts by number, each with its ETag. The
  contract is the documented behaviour of the S3 operations, for a client that stores the metadata \<open>h md\<close>
  when it is given \<open>md\<close>. A failed request may or may not have been applied.
\<close>

type_synonym 'b objects = "'b \<Rightarrow> string \<Rightarrow> (bytes \<times> metadata) option"
type_synonym 'b uploads = "'b \<Rightarrow> string \<Rightarrow> (string \<times> metadata \<times> (int \<Rightarrow> (string \<times> bytes) option)) option"

definition put_ok :: "(metadata \<Rightarrow> metadata) \<Rightarrow> 'b COSClient \<Rightarrow> 'b objects \<Rightarrow> bool" where
  "put_ok h c obj \<longleftrightarrow>
     (\<forall>key body md b b'. cc_PutObjectStream c key body md b = (None, b') \<longrightarrow> obj b' = (obj b)(key \<mapsto> (body, h md)))"

definition multipart_ok :: "(metadata \<Rightarrow> metadata) \<Rightarrow> 'b COSClient \<Rightarrow> 'b objects \<Rightarrow> 'b uploads \<Rightarrow> bool" where
  "multipart_ok h c obj up \<longleftrightarrow>
     (\<forall>key md b uid b'. cc_CreateMultipartUpload c key md b = (Inr uid, b') \<longrightarrow>
        obj b' = obj b \<and> up b' uid = Some (key, h md, Map.empty)) \<and>
     (\<forall>key uid n body b etag b' md ps. cc_UploadPart c key uid n body b = (Inr etag, b') \<and> up b uid = Some (key, md, ps) \<longrightarrow>
        obj b' = obj b \<and> up b' uid = Some (key, md, ps(n \<mapsto> (etag, body)))) \<and>
     (\<forall>key uid parts b b' md ps. cc_CompleteMultipartUpload c key uid parts b = (None, b') \<and> up b uid = Some (key, md, ps) \<and>
        sorted_wrt (<) (map fst parts) \<and> (\<forall>(n, etag) \<in> set parts. \<exists>body. ps n = Some (etag, body)) \<longrightarrow>
        obj b' = (obj b)(key \<mapsto> (concat (map (\<lambda>(n, _). snd (the (ps n))) parts), md)))"

definition delete_ok :: "'b COSClient \<Rightarrow> 'b objects \<Rightarrow> bool" where
  "delete_ok c obj \<longleftrightarrow>
     (\<forall>key b e b'. cc_DeleteObject c key b = (e, b') \<longrightarrow>
        obj b' = (obj b)(key := None) \<or> e \<noteq> None \<and> obj b' = obj b)"

lemma put_okD: "put_ok h c obj \<Longrightarrow> cc_PutObjectStream c key body md b = (None, b') \<Longrightarrow> obj b' = (obj b)(key \<mapsto> (body, h md))"
  by (simp add: put_ok_def)

lemma create_okD:
  "multipart_ok h c obj up \<Longrightarrow> cc_CreateMultipartUpload c key md b = (Inr uid, b') \<Longrightarrow>
   obj b' = obj b \<and> up b' uid = Some (key, h md, Map.empty)"
  by (simp add: multipart_ok_def)

lemma part_okD:
  "multipart_ok h c obj up \<Longrightarrow> cc_UploadPart c key uid n body b = (Inr etag, b') \<Longrightarrow> up b uid = Some (key, md, ps) \<Longrightarrow>
   obj b' = obj b \<and> up b' uid = Some (key, md, ps(n \<mapsto> (etag, body)))"
  unfolding multipart_ok_def by blast

lemma complete_okD:
  "multipart_ok h c obj up \<Longrightarrow> cc_CompleteMultipartUpload c key uid parts b = (None, b') \<Longrightarrow> up b uid = Some (key, md, ps) \<Longrightarrow>
   sorted_wrt (<) (map fst parts) \<Longrightarrow> \<forall>(n, etag) \<in> set parts. \<exists>body. ps n = Some (etag, body) \<Longrightarrow>
   obj b' = (obj b)(key \<mapsto> (concat (map (\<lambda>(n, _). snd (the (ps n))) parts), md))"
  unfolding multipart_ok_def by blast

section \<open>Bookkeeping\<close>

lemma gw_simps [simp]:
  "gw_manager (set_manager sm gw) = sm" "gw_worker (set_manager sm gw) = gw_worker gw"
  "gw_bucket (set_manager sm gw) = gw_bucket gw" "gw_manager (upd_worker f gw) = gw_manager gw"
  "gw_worker (upd_worker f gw) = f (gw_worker gw)" "gw_bucket (upd_worker f gw) = gw_bucket gw"
  by (simp_all add: set_manager_def upd_worker_def)

lemma on_bucketD:
  "on_bucket f gw = (r, gw') \<Longrightarrow> f (gw_bucket gw) = (r, gw_bucket gw') \<and> gw_manager gw' = gw_manager gw \<and> gw_worker gw' = gw_worker gw"
  by (auto simp: on_bucket_def split: prod.splits)

lemma sw_config_simps [simp]:
  "sw_config (addUploadSample p n t sw) = sw_config sw" "sw_config (lockObject p sw) = sw_config sw"
  "sw_config (unlockObject p sw) = sw_config sw" "sw_config (notifyObjectSynced p sw) = sw_config sw"
  "sw_config (recordSuccessfulSync now p n t d sw) = sw_config sw" "sw_config (snd (consumeUploadSamples p sw)) = sw_config sw"
  by (simp_all add: addUploadSample_def lockObject_def unlockObject_def notifyObjectSynced_def recordSuccessfulSync_def
      consumeUploadSamples_def Let_def)

text \<open>What others do during the upload leaves the snapshot's file alone.\<close>

definition file_kept :: "sync_env \<Rightarrow> nat \<Rightarrow> bool" where
  "file_kept env file \<longleftrightarrow>
     (\<forall>k n sm. dk_inodes (sm_disk (sv_during env k n sm)) file = dk_inodes (sm_disk sm) file)"

definition gw_file :: "'b gateway \<Rightarrow> nat \<Rightarrow> bytes" where
  "gw_file gw file = dk_inodes (sm_disk (gw_manager gw)) file"

section \<open>The parts make up the file\<close>

definition parts_hold :: "(int \<times> string) list \<Rightarrow> (int \<Rightarrow> (string \<times> bytes) option) \<Rightarrow> int \<Rightarrow> bytes \<Rightarrow> bool" where
  "parts_hold parts ps n bs \<longleftrightarrow>
     sorted_wrt (<) (map fst parts) \<and> (\<forall>(m, etag) \<in> set parts. m < n \<and> (\<exists>body. ps m = Some (etag, body))) \<and>
     concat (map (\<lambda>(m, _). snd (the (ps m))) parts) = bs"

lemma parts_hold_snoc:
  assumes "parts_hold parts ps n bs"
  shows "parts_hold (parts @ [(n, etag)]) (ps(n \<mapsto> (etag, body))) (n + 1) (bs @ body)"
proof -
  have below: "m < n" if "(m, e) \<in> set parts" for m e using assms that by (auto simp: parts_hold_def)
  have "map (\<lambda>(m, _). snd (the ((ps(n \<mapsto> (etag, body))) m))) parts = map (\<lambda>(m, _). snd (the (ps m))) parts"
    by (intro map_cong) (auto dest: below)
  moreover have "sorted_wrt (<) (map fst (parts @ [(n, etag)]))"
    using assms below by (auto simp: parts_hold_def sorted_wrt_append)
  moreover have "\<forall>(m, e) \<in> set (parts @ [(n, etag)]). m < n + 1 \<and> (\<exists>b. (ps(n \<mapsto> (etag, body))) m = Some (e, b))"
    using assms by (fastforce simp: parts_hold_def)
  moreover have "concat (map (\<lambda>(m, _). snd (the (ps m))) parts) = bs" using assms by (simp add: parts_hold_def)
  ultimately show ?thesis
    unfolding parts_hold_def by (intro conjI) (simp_all only: map_append concat_append, simp)
qed

lemma section_step:
  fixes offset size' partSize :: int
  assumes "0 \<le> offset" "offset < size'" "0 < partSize"
  shows "take (nat (min offset size')) F @ take (nat (if size' - offset < partSize then size' - offset else partSize)) (drop (nat offset) F) =
    take (nat (min (offset + partSize) size')) F"
proof -
  let ?n = "nat (if size' - offset < partSize then size' - offset else partSize)"
  have "nat (min (offset + partSize) size') = nat offset + ?n" using assms by auto
  moreover have "min offset size' = offset" using assms by simp
  ultimately show ?thesis by (simp add: take_add)
qed

lemma upload_parts_spec:
  assumes "multipart_ok h c obj up" "file_kept env file" "0 < partSize" "0 \<le> offset"
    and "upload_parts c env k path uid file size' partSize offset n parts gw = (Inr parts', gw')"
    and "up (gw_bucket gw) uid = Some (path, md, ps)"
    and "parts_hold parts ps n (take (nat (min offset size')) F)" "gw_file gw file = F"
  shows "\<exists>ps' m. up (gw_bucket gw') uid = Some (path, md, ps') \<and> parts_hold parts' ps' m (take (nat size') F) \<and>
    obj (gw_bucket gw') = obj (gw_bucket gw) \<and> gw_file gw' file = F"
  using assms(4-8)
proof (induction "nat (size' - offset)" arbitrary: offset n parts gw ps rule: less_induct)
  case less
  show ?case
  proof (cases "offset < size'")
    case False
    then have "min offset size' = size'" by simp
    then show ?thesis using less.prems(2-5) False by (subst (asm) upload_parts.simps) auto
  next
    case True
    let ?len = "if size' - offset < partSize then size' - offset else partSize"
    let ?gw1 = "set_manager (sv_during env k n (gw_manager gw)) gw"
    let ?body = "file_section (gw_manager ?gw1) file offset ?len"
    obtain r gw2 where up: "on_bucket (cc_UploadPart c path uid n ?body) ?gw1 = (r, gw2)" by fastforce
    obtain etag where r: "r = Inr etag"
      using less.prems(2) up True assms(3) by (subst (asm) upload_parts.simps) (auto simp: Let_def split: sum.splits)
    let ?gw3 = "upd_worker (addUploadSample path ?len (sv_took env k n)) gw2"
    have rec: "upload_parts c env k path uid file size' partSize (offset + partSize) (n + 1) (parts @ [(n, etag)]) ?gw3 = (Inr parts', gw')"
      using less.prems(2) up r True assms(3) by (subst (asm) upload_parts.simps) (simp add: Let_def)
    note b = on_bucketD [OF up, unfolded r]
    have F: "gw_file ?gw3 file = F" and body: "?body = take (nat ?len) (drop (nat offset) F)"
      using less.prems(5) assms(2) b by (auto simp: gw_file_def file_kept_def file_section_def)
    have store: "obj (gw_bucket ?gw3) = obj (gw_bucket gw)"
      "up (gw_bucket ?gw3) uid = Some (path, md, ps(n \<mapsto> (etag, ?body)))"
      using part_okD [OF assms(1), of path uid n ?body "gw_bucket ?gw1" etag "gw_bucket gw2"] b less.prems(3) by auto
    have "parts_hold (parts @ [(n, etag)]) (ps(n \<mapsto> (etag, ?body))) (n + 1) (take (nat (min (offset + partSize) size')) F)"
      using parts_hold_snoc [OF less.prems(4)] section_step [OF less.prems(1) True assms(3), of F] unfolding body by metis
    from less.hyps [OF _ _ rec store(2) this F] less.prems(1) True assms(3) store(1) show ?thesis by simp
  qed
qed

text \<open>One multipart upload that succeeds stores the first \<open>size'\<close> bytes of the file.\<close>

lemma sorted_parts:
  "sorted_wrt (<) (map fst (parts :: (int \<times> string) list)) \<Longrightarrow> sort_key fst parts = parts"
  by (rule sort_key_id_if_sorted) (simp add: strict_sorted_imp_sorted)

lemma uploadMultipartOnce_spec:
  assumes "multipart_ok h c obj up" "file_kept env file" "0 < partSize" "gw_file gw file = F"
    and "uploadMultipartOnce c env k path file size' partSize md current gw = (None, gw')"
  shows "obj (gw_bucket gw') = (obj (gw_bucket gw))(path \<mapsto> (take (nat size') F, h md)) \<and> gw_file gw' file = F"
proof -
  obtain r gw1 where cr: "on_bucket (cc_CreateMultipartUpload c path md) gw = (r, gw1)" by fastforce
  obtain uid where r: "r = Inr uid" using assms(5) cr by (auto simp: uploadMultipartOnce_def split: sum.splits)
  obtain r2 gw2 where pa: "upload_parts c env k path uid file size' partSize 0 1 [] gw1 = (r2, gw2)" by fastforce
  obtain parts where r2: "r2 = Inr parts"
    using assms(5) cr r pa by (auto simp: uploadMultipartOnce_def Let_def split: sum.splits prod.splits)
  let ?gw2 = "set_manager (sv_during env k 0 (gw_manager gw2)) gw2"
  note c1 = on_bucketD [OF cr, unfolded r]
  have c2: "obj (gw_bucket gw1) = obj (gw_bucket gw)" "up (gw_bucket gw1) uid = Some (path, h md, Map.empty)"
    using create_okD [OF assms(1), of path md "gw_bucket gw" uid "gw_bucket gw1"] c1 by auto
  have "parts_hold [] Map.empty 1 (take (nat (min 0 size')) F)" by (simp add: parts_hold_def)
  moreover have "gw_file gw1 file = F" using assms(4) c1 by (simp add: gw_file_def)
  ultimately obtain ps m where p: "up (gw_bucket gw2) uid = Some (path, h md, ps)" "parts_hold parts ps m (take (nat size') F)"
    "obj (gw_bucket gw2) = obj (gw_bucket gw)" "gw_file gw2 file = F"
    using upload_parts_spec [OF assms(1-3) order_refl pa [unfolded r2] c2(2)] c2(1) by force
  have srt: "sorted_wrt (<) (map fst parts)" using p(2) by (simp add: parts_hold_def)
  obtain gw3 where co: "on_bucket (cc_CompleteMultipartUpload c path uid parts) ?gw2 = (None, gw3)" "gw' = gw3"
    using assms(5) cr r pa r2 sorted_parts [OF srt]
    by (auto simp: uploadMultipartOnce_def Let_def split: if_splits prod.splits option.splits)
  note c3 = on_bucketD [OF co(1)]
  have "\<forall>(n, etag) \<in> set parts. \<exists>body. ps n = Some (etag, body)" using p(2) by (auto simp: parts_hold_def)
  then have "obj (gw_bucket gw3) = (obj (gw_bucket ?gw2))(path \<mapsto> (concat (map (\<lambda>(n, _). snd (the (ps n))) parts), h md))"
    using complete_okD [OF assms(1) _ _ srt, of path uid "gw_bucket ?gw2" "gw_bucket gw3" "h md" ps] c3 p(1) by simp
  moreover have "gw_file gw3 file = F" using c3 p(4) assms(2) by (simp add: gw_file_def file_kept_def)
  ultimately show ?thesis using p(2,3) co(2) by (simp add: parts_hold_def)
qed

text \<open>Whatever happens, the manager only changes by what others do.\<close>

lemma upload_parts_file:
  assumes "file_kept env file"
  shows "gw_file (snd (upload_parts c env k path uid file size' partSize offset n parts gw)) file = gw_file gw file"
proof (induction "nat (size' - offset)" arbitrary: offset n parts gw rule: less_induct)
  case less
  show ?case
  proof (cases "offset \<ge> size' \<or> partSize \<le> 0")
    case True
    then show ?thesis by (subst upload_parts.simps) simp
  next
    case False
    let ?len = "if size' - offset < partSize then size' - offset else partSize"
    let ?gw1 = "set_manager (sv_during env k n (gw_manager gw)) gw"
    obtain r gw2 where up: "on_bucket (cc_UploadPart c path uid n (file_section (gw_manager ?gw1) file offset ?len)) ?gw1 = (r, gw2)"
      by fastforce
    have F: "gw_file gw2 file = gw_file gw file"
      using on_bucketD [OF up] assms by (simp add: gw_file_def file_kept_def)
    have "gw_file (upd_worker f gw2) file = gw_file gw2 file" for f by (simp add: gw_file_def)
    then show ?thesis
      using less.hyps [of "offset + partSize"] False F up
      by (subst upload_parts.simps) (auto simp: Let_def split: sum.splits)
  qed
qed

lemma bucket_file [simp]: "gw_file (snd (on_bucket f gw)) file = gw_file gw file"
  by (simp add: on_bucket_def gw_file_def split: prod.splits)

lemma uploadMultipartOnce_file:
  fixes c :: "'b COSClient"
  assumes "file_kept env file"
  shows "gw_file (snd (uploadMultipartOnce c env k path file size' partSize md current gw)) file = gw_file gw file"
proof -
  have during: "gw_file (set_manager (sv_during env k n (gw_manager g)) g) file = gw_file g file" for g :: "'b gateway" and n
    using assms by (simp add: gw_file_def file_kept_def)
  have b: "on_bucket f g = (r, g') \<Longrightarrow> gw_file g' file = gw_file g file" for f and g g' :: "'b gateway" and r :: 'r
    using on_bucketD [of f g r g'] by (simp add: gw_file_def)
  have pa: "upload_parts c env k path uid file size' partSize 0 1 [] g = (r, g') \<Longrightarrow> gw_file g' file = gw_file g file" for uid r and g g' :: "'b gateway"
    using upload_parts_file [OF assms, of c k path uid size' partSize 0 1 "[]" g] by simp
  show ?thesis
    unfolding uploadMultipartOnce_def Let_def
    by (auto split: sum.splits prod.splits option.splits simp: during dest!: b pa)
qed

section \<open>A successful sync\<close>

lemma retry_success:
  assumes "retry_loop cfg env fatal try left n lastErr s = (None, s')" "I s" "\<And>k s. I s \<Longrightarrow> I (snd (try k s))"
  shows "\<exists>k s1. I s1 \<and> try k s1 = (None, s')"
  using assms(1,2)
proof (induction left arbitrary: n lastErr s)
  case (Suc left)
  obtain r s1 where t: "try n s = (r, s1)" by fastforce
  have "I s1" using assms(3) [OF Suc.prems(2), of n] t by simp
  with Suc t show ?case by (fastforce split: if_splits option.splits)
qed simp

lemma reset_multipart_simps [simp]:
  "gw_bucket (reset_multipart sid gw) = gw_bucket gw" "gw_file (reset_multipart sid gw) file = gw_file gw file"
  "gw_worker (reset_multipart sid gw) = gw_worker gw" "gw_index (reset_multipart sid gw) = gw_index gw"
  by (simp_all add: reset_multipart_def gw_file_def upd_session_def)

definition snapshot_metadata :: "gotime \<Rightarrow> (string \<Rightarrow> int) \<Rightarrow> WriteSession \<Rightarrow> metadata" where
  "snapshot_metadata startup off ws = EncodePOSIXAttributes startup off (Some (StagedAttributes_POSIX (attributesLocked ws)))"

lemma upload_snapshot_spec:
  fixes c :: "'b COSClient"
  assumes "put_ok h c obj" "multipart_ok h c obj up" "file_kept env (us_File snap)"
    and "upload_snapshot c env startup off path sid gen snap gw = (None, gw')"
  shows "obj (gw_bucket gw') path =
    Some (take (nat (us_Size snap)) (gw_file gw (us_File snap)), h (snapshot_metadata startup off (sm_heap (gw_manager gw) sid)))"
proof -
  let ?md = "snapshot_metadata startup off (sm_heap (gw_manager gw) sid)"
  let ?part = "if us_PartSize snap \<le> 0 then 20 * 1024 * 1024 else us_PartSize snap"
  let ?F = "gw_file gw (us_File snap)"
  show ?thesis
  proof (cases "us_Size snap \<ge> ?part")
    case True
    let ?cur = "isSnapshotCurrent path sid (us_Size snap) (us_LastWrite snap) gen"
    let ?act = "\<lambda>attempt gw. if sv_seekFails env attempt then (Some SeekFailed, gw)
        else uploadMultipartOnce c env attempt path (us_File snap) (us_Size snap) ?part ?md ?cur gw"
    obtain gw1 where u: "uploadMultipartWithRetry c env path (us_File snap) (us_Size snap) ?part ?md ?cur (reset_multipart sid gw) = (None, gw1)"
      "gw' = reset_multipart sid gw1"
      using assms(4) True by (auto simp: upload_snapshot_def Let_def snapshot_metadata_def split: prod.splits option.splits)
    have inv: "gw_file (snd (?act k g)) (us_File snap) = ?F" if "gw_file g (us_File snap) = ?F" for k g
      using that by (simp add: uploadMultipartOnce_file [OF assms(3)])
    obtain k g1 where "gw_file g1 (us_File snap) = ?F" "?act k g1 = (None, gw1)"
      using retry_success [OF u(1) [unfolded uploadMultipartWithRetry_def with_retry_def], of "\<lambda>g. gw_file g (us_File snap) = ?F"] inv
      by auto
    then show ?thesis
      using uploadMultipartOnce_spec [OF assms(2,3), of ?part g1 ?F k path "us_Size snap" ?md ?cur gw1] u(2)
      by (auto split: if_splits)
  next
    case False
    let ?act = "\<lambda>attempt gw. if sv_seekFails env attempt then (Some SeekFailed, gw)
          else let gw = set_manager (sv_during env attempt 1 (gw_manager gw)) gw
               in case on_bucket (cc_PutObjectStream c path (file_section (gw_manager gw) (us_File snap) 0 (us_Size snap)) ?md) gw of
                    (e, gw') \<Rightarrow> (map_option CosError e, gw')"
    obtain gw1 where u: "uploadWithRetryStream c env path (us_File snap) (us_Size snap) ?md gw = (None, gw1)"
      "gw_bucket gw' = gw_bucket gw1"
      using assms(4) False by (auto simp: upload_snapshot_def Let_def snapshot_metadata_def split: prod.splits option.splits)
    have during: "gw_file (set_manager (sv_during env k n (gw_manager g)) g) (us_File snap) = gw_file g (us_File snap)" for k n and g :: "'b gateway"
      using assms(3) by (simp add: gw_file_def file_kept_def)
    have inv: "gw_file (snd (?act k g)) (us_File snap) = ?F" if "gw_file g (us_File snap) = ?F" for k g
      using that during by (auto simp: Let_def on_bucket_def gw_file_def split: prod.splits)
    obtain k g1 where g1: "gw_file g1 (us_File snap) = ?F" "?act k g1 = (None, gw1)"
      using retry_success [OF u(1) [unfolded uploadWithRetryStream_def with_retry_def], of "\<lambda>g. gw_file g (us_File snap) = ?F"] inv
      by auto
    let ?g2 = "set_manager (sv_during env k 1 (gw_manager g1)) g1"
    have "on_bucket (cc_PutObjectStream c path (file_section (gw_manager ?g2) (us_File snap) 0 (us_Size snap)) ?md) ?g2 = (None, gw1)"
      using g1(2) by (auto simp: Let_def split: if_splits prod.splits)
    note b = on_bucketD [OF this]
    have "file_section (gw_manager ?g2) (us_File snap) 0 (us_Size snap) = take (nat (us_Size snap)) ?F"
      using g1(1) during [of k 1 g1] by (simp add: file_section_def gw_file_def)
    then show ?thesis using put_okD [OF assms(1)] b u(2) by fastforce
  qed
qed

lemma finish_sync_spec:
  assumes "finish_sync fl env path sid g since n gw = (None, gw')"
  shows "gw_bucket gw' = gw_bucket gw \<and> \<not> IsDirty path (gw_index gw')"
proof -
  obtain clean sm where m: "markCleanIfUnchanged fl path g (sv_after env (gw_manager gw)) = (clean, sm)" by fastforce
  have clean: "clean" using assms m by (auto simp: finish_sync_def split: bool.splits)
  then have "\<not> IsDirty path (sm_dirtyIndex sm)"
    using m by (auto simp: markCleanIfUnchanged_def MarkCleanIfUnchanged_def DirtyFileIndex_MarkClean_def IsDirty_def Let_def
        removePathMetadata_def remove_name_def split: option.splits if_splits prod.splits)
  moreover have "sm_dirtyIndex (snd (cleanupSyncedSession fl path sid sm)) = sm_dirtyIndex sm"
    by (auto simp: cleanupSyncedSession_def Let_def remove_name_def closeRemovedSession_def upd_session_def split: prod.splits)
  ultimately show ?thesis
    using assms m clean
    by (auto simp: finish_sync_def Let_def set_manager_def split: prod.splits if_splits option.splits)
qed

lemma close_upload_simps [simp]:
  "gw_bucket (close_upload sid snap gw) = gw_bucket gw" "gw_index (close_upload sid snap gw) = gw_index gw"
  by (simp_all add: close_upload_def upd_session_def)

text \<open>The snapshot that is opened, when nothing intervenes.\<close>

lemma OpenUploadSnapshot_spec:
  assumes "run_session sid (OpenUploadSnapshot fl []) sm = (Inr snap, sm')"
  shows "data_inode (sm_disk sm) (ws_StagingPath (sm_heap sm sid)) = Some (us_File snap) \<and>
    us_Size snap = ws_Size (sm_heap sm sid) \<and> us_LastWrite snap = ws_LastWrite (sm_heap sm sid) \<and> sm_disk sm' = sm_disk sm \<and>
    sm_dirtyIndex sm' = sm_dirtyIndex sm \<and>
    sm_heap sm' sid = (sm_heap sm sid)\<lparr>ws_uploadReaders := ws_uploadReaders (sm_heap sm sid) + 1\<rparr>"
  using assms by (auto simp: run_session_def OpenUploadSnapshot_def split: option.splits if_splits prod.splits)

lemma sync_session_spec:
  assumes "put_ok h c obj" "multipart_ok h c obj up" "sv_rounds env = []" "file_kept env file"
    and "data_inode (sm_disk (gw_manager gw)) (ws_StagingPath (sm_heap (gw_manager gw) sid)) = Some file"
    and "sync_session c fl env startup off path sid gw = (None, gw')"
  shows "obj (gw_bucket gw') path =
      Some (take (nat (ws_Size (sm_heap (gw_manager gw) sid))) (gw_file gw file),
        h (snapshot_metadata startup off (sm_heap (gw_manager gw) sid))) \<and> \<not> IsDirty path (gw_index gw')"
proof -
  obtain r sm where o': "run_session sid (OpenUploadSnapshot fl []) (gw_manager gw) = (r, sm)" by fastforce
  obtain g since where gs: "(case GetMetadata path (gw_index gw) of None \<Rightarrow> (0, sv_now env)
     | Some m \<Rightarrow> (dm_LocalDirtyGeneration m, if is_zero_time (dm_DirtySince m) then sv_now env else dm_DirtySince m)) = (g, since)"
    by fastforce
  note s = assms(6) [unfolded sync_session_def gs assms(3) o' Let_def prod.case]
  obtain snap where r: "r = Inr snap" using s by (auto split: sum.splits)
  note sn = OpenUploadSnapshot_spec [OF o' [unfolded r]]
  obtain e gw1 where u: "upload_snapshot c env startup off path sid g snap (set_manager sm gw) = (e, gw1)" by fastforce
  have e: "e = None" using s r u by (auto split: option.splits prod.splits)
  obtain e2 gw2 where f: "finish_sync fl env path sid g since (us_Size snap) gw1 = (e2, gw2)" by fastforce
  have e2: "e2 = None" "gw' = close_upload sid snap gw2" using s r u e f by auto
  have fileq: "us_File snap = file" using sn assms(5) by simp
  have "obj (gw_bucket gw1) path = Some (take (nat (us_Size snap)) (gw_file (set_manager sm gw) file), h (snapshot_metadata startup off (sm_heap sm sid)))"
    using upload_snapshot_spec [OF assms(1,2) _ u [unfolded e]] assms(4) fileq by simp
  moreover have "snapshot_metadata startup off (sm_heap sm sid) = snapshot_metadata startup off (sm_heap (gw_manager gw) sid)"
    using sn by (simp add: snapshot_metadata_def attributesLocked_def)
  ultimately show ?thesis using finish_sync_spec [OF f [unfolded e2(1)]] sn e2(2) by (simp add: gw_file_def)
qed

section \<open>A failed sync\<close>

text \<open>Others may write, but the dirty entries stay as they are.\<close>

definition index_kept :: "sync_env \<Rightarrow> bool" where
  "index_kept env \<longleftrightarrow>
     sv_rounds env = [] \<and> (\<forall>sm. sm_dirtyIndex (sv_after env sm) = sm_dirtyIndex sm) \<and>
     (\<forall>k n sm. sm_dirtyIndex (sv_during env k n sm) = sm_dirtyIndex sm)"

lemma retry_inv:
  assumes "I s" "\<And>k s. I s \<Longrightarrow> I (snd (try k s))"
  shows "I (snd (retry_loop cfg env fatal try left n lastErr s))"
  using assms(1)
proof (induction left arbitrary: n lastErr s)
  case (Suc left)
  obtain r s1 where t: "try n s = (r, s1)" by fastforce
  have "I s1" using assms(2) [OF Suc.prems(1), of n] t by simp
  with Suc t show ?case by (auto split: option.splits)
qed simp

lemma on_bucket_index [simp]: "gw_index (snd (on_bucket f gw)) = gw_index gw"
  by (simp add: on_bucket_def split: prod.splits)

lemma upload_parts_index:
  assumes "index_kept env"
  shows "gw_index (snd (upload_parts c env k path uid file size' partSize offset n parts gw)) = gw_index gw"
proof (induction "nat (size' - offset)" arbitrary: offset n parts gw rule: less_induct)
  case less
  show ?case
  proof (cases "offset \<ge> size' \<or> partSize \<le> 0")
    case True
    then show ?thesis by (subst upload_parts.simps) simp
  next
    case False
    let ?len = "if size' - offset < partSize then size' - offset else partSize"
    let ?gw1 = "set_manager (sv_during env k n (gw_manager gw)) gw"
    obtain r gw2 where up: "on_bucket (cc_UploadPart c path uid n (file_section (gw_manager ?gw1) file offset ?len)) ?gw1 = (r, gw2)"
      by fastforce
    have "gw_index gw2 = gw_index gw" using on_bucketD [OF up] assms by (simp add: index_kept_def)
    then show ?thesis
      using less.hyps [of "offset + partSize"] False up
      by (subst upload_parts.simps) (auto simp: Let_def split: sum.splits)
  qed
qed

lemma uploadMultipartOnce_index:
  fixes c :: "'b COSClient"
  assumes "index_kept env"
  shows "gw_index (snd (uploadMultipartOnce c env k path file size' partSize md current gw)) = gw_index gw"
proof -
  have during: "sm_dirtyIndex (sv_during env k n sm) = sm_dirtyIndex sm" for n sm using assms by (simp add: index_kept_def)
  have b: "on_bucket f g = (r, g') \<Longrightarrow> gw_index g' = gw_index g" for f and g g' :: "'b gateway" and r :: 'r
    using on_bucketD [of f g r g'] by simp
  have pa: "upload_parts c env k path uid file size' partSize 0 1 [] g = (r, g') \<Longrightarrow> gw_index g' = gw_index g" for uid r g g'
    using upload_parts_index [OF assms, of c k path uid "file" size' partSize 0 1 "[]" g] by simp
  show ?thesis
    unfolding uploadMultipartOnce_def Let_def
    by (auto split: sum.splits prod.splits option.splits simp: during dest!: b pa)
qed

lemma upload_snapshot_index:
  assumes "index_kept env"
  shows "gw_index (snd (upload_snapshot c env startup off path sid gen snap gw)) = gw_index gw"
proof -
  have mp: "gw_index (snd (uploadMultipartWithRetry c env path ino n part md cur g)) = gw_index g" for ino n part md cur g
    unfolding uploadMultipartWithRetry_def with_retry_def
    by (rule retry_inv [where I = "\<lambda>g'. gw_index g' = gw_index g"]) (simp_all add: uploadMultipartOnce_index [OF assms])
  have st: "gw_index (snd (uploadWithRetryStream c env path ino n md g)) = gw_index g" for ino n md g
    unfolding uploadWithRetryStream_def with_retry_def
    by (rule retry_inv [where I = "\<lambda>g'. gw_index g' = gw_index g"])
      (use assms in \<open>auto simp: Let_def index_kept_def on_bucket_def split: prod.splits\<close>)
  have "uploadMultipartWithRetry c env path ino n part md cur g = (r, g') \<Longrightarrow> gw_index g' = gw_index g"
    "uploadWithRetryStream c env path ino n md g = (r, g') \<Longrightarrow> gw_index g' = gw_index g" for ino n part md cur g r g'
    using mp [of ino n part md cur g] st [of ino n md g] by simp_all
  then show ?thesis
    unfolding upload_snapshot_def Let_def by (auto split: prod.splits option.splits)
qed

lemma finish_sync_failed:
  assumes "index_kept env" "finish_sync fl env path sid gen since n gw = (Some e, gw')" "\<nexists>x. e = CleanupFailed x"
  shows "gw_index gw' = gw_index gw"
proof -
  obtain clean sm where m: "markCleanIfUnchanged fl path gen (sv_after env (gw_manager gw)) = (clean, sm)" by fastforce
  have "\<not> clean" "gw' = set_manager sm gw"
    using assms(2,3) m by (auto simp: finish_sync_def Let_def split: bool.splits prod.splits if_splits option.splits)
  then show ?thesis
    using m assms(1)
    by (auto simp: markCleanIfUnchanged_def MarkCleanIfUnchanged_def Let_def index_kept_def split: option.splits if_splits prod.splits)
qed

lemma Recover_index:
  "sm_dirtyIndex (snd (RecoverSessionFromStaging fl now path sm)) = sm_dirtyIndex sm"
  by (auto simp: RecoverSessionFromStaging_def new_session_def Let_def split: option.splits sum.splits prod.splits)

lemma sync_session_failed:
  assumes "index_kept env" "sync_session c fl env startup off path sid gw = (Some e, gw')" "\<nexists>x. e = CleanupFailed x"
  shows "gw_index gw' = gw_index gw"
proof -
  obtain r sm where o': "run_session sid (OpenUploadSnapshot fl []) (gw_manager gw) = (r, sm)" by fastforce
  have i: "sm_dirtyIndex sm = gw_index gw" using o' by (auto simp: run_session_def split: prod.splits)
  obtain g since where gs: "(case GetMetadata path (gw_index gw) of None \<Rightarrow> (0, sv_now env)
     | Some m \<Rightarrow> (dm_LocalDirtyGeneration m, if is_zero_time (dm_DirtySince m) then sv_now env else dm_DirtySince m)) = (g, since)"
    by fastforce
  have rounds: "sv_rounds env = []" using assms(1) by (simp add: index_kept_def)
  note s = assms(2) [unfolded sync_session_def gs rounds o' Let_def prod.case]
  show ?thesis
  proof (cases r)
    case (Inl x)
    then show ?thesis using s i by auto
  next
    case (Inr snap)
    obtain e1 gw1 where u: "upload_snapshot c env startup off path sid g snap (set_manager sm gw) = (e1, gw1)" by fastforce
    have gw1: "gw_index gw1 = gw_index gw"
      using upload_snapshot_index [OF assms(1), of c startup off path sid g snap "set_manager sm gw"] u i by simp
    obtain e2 gw2 where f: "finish_sync fl env path sid g since (us_Size snap) gw1 = (e2, gw2)" by fastforce
    show ?thesis
    proof (cases e1)
      case None
      then have "e2 = Some e" "gw' = close_upload sid snap gw2" using s Inr u f by auto
      then show ?thesis using finish_sync_failed [OF assms(1) f [unfolded \<open>e2 = Some e\<close>] assms(3)] gw1 by simp
    next
      case (Some x)
      then show ?thesis using s Inr u gw1 by auto
    qed
  qed
qed

section \<open>A sync over a working store\<close>

definition cos_works :: "'b COSClient \<Rightarrow> bool" where
  "cos_works c \<longleftrightarrow>
     (\<forall>key body md b. fst (cc_PutObjectStream c key body md b) = None) \<and>
     (\<forall>key md b. \<exists>uid. fst (cc_CreateMultipartUpload c key md b) = Inr uid) \<and>
     (\<forall>key uid n body b. \<exists>etag. fst (cc_UploadPart c key uid n body b) = Inr etag) \<and>
     (\<forall>key uid parts b. fst (cc_CompleteMultipartUpload c key uid parts b) = None)"

definition quiet :: "sync_env \<Rightarrow> bool" where
  "quiet env \<longleftrightarrow> sv_rounds env = [] \<and> sv_after env = (\<lambda>sm. sm) \<and> sv_during env = (\<lambda>k n sm. sm) \<and> \<not> sv_seekFails env 0"

lemma quiet_kept: "quiet env \<Longrightarrow> index_kept env \<and> file_kept env file"
  by (simp add: quiet_def index_kept_def file_kept_def)

lemma upload_parts_works:
  assumes "cos_works c" "quiet env"
  shows "\<exists>parts' gw'. upload_parts c env k path uid file size' partSize offset n parts gw = (Inr parts', gw') \<and> gw_manager gw' = gw_manager gw"
proof (induction "nat (size' - offset)" arbitrary: offset n parts gw rule: less_induct)
  case less
  show ?case
  proof (cases "offset \<ge> size' \<or> partSize \<le> 0")
    case True
    then show ?thesis by (subst upload_parts.simps) simp
  next
    case False
    let ?len = "if size' - offset < partSize then size' - offset else partSize"
    have gw1: "set_manager (sv_during env k n (gw_manager gw)) gw = gw" using assms(2) by (simp add: quiet_def set_manager_def)
    obtain r gw2 where up: "on_bucket (cc_UploadPart c path uid n (file_section (gw_manager gw) file offset ?len)) gw = (r, gw2)"
      by fastforce
    obtain etag where r: "r = Inr etag"
      using assms(1) on_bucketD [OF up] unfolding cos_works_def by (metis fst_conv)
    show ?thesis
      using less.hyps [of "offset + partSize" "n + 1" "parts @ [(n, etag)]"
          "upd_worker (addUploadSample path ?len (sv_took env k n)) gw2"] False up r on_bucketD [OF up]
      by (subst upload_parts.simps) (simp add: Let_def gw1)
  qed
qed

lemma uploadMultipartOnce_works:
  assumes "cos_works c" "quiet env" "current (gw_manager gw)"
  shows "\<exists>gw'. uploadMultipartOnce c env k path file size' partSize md current gw = (None, gw') \<and> gw_manager gw' = gw_manager gw"
proof -
  obtain r gw1 where cr: "on_bucket (cc_CreateMultipartUpload c path md) gw = (r, gw1)" by fastforce
  obtain uid where r: "r = Inr uid" using assms(1) on_bucketD [OF cr] unfolding cos_works_def by (metis fst_conv)
  obtain parts gw2 where pa: "upload_parts c env k path uid file size' partSize 0 1 [] gw1 = (Inr parts, gw2)" "gw_manager gw2 = gw_manager gw1"
    using upload_parts_works [OF assms(1,2)] by metis
  have m2: "gw_manager gw2 = gw_manager gw" using pa(2) on_bucketD [OF cr] by simp
  have d: "sv_during env = (\<lambda>k n sm. sm)" "set_manager (gw_manager gw) gw2 = gw2"
    using assms(2) m2 by (simp_all add: quiet_def set_manager_def)
  obtain e gw3 where co: "on_bucket (cc_CompleteMultipartUpload c path uid (sort_key fst parts)) gw2 = (e, gw3)" by fastforce
  have "e = None" using assms(1) on_bucketD [OF co] unfolding cos_works_def by (metis fst_conv)
  then show ?thesis
    using cr r pa(1) co assms(3) m2 on_bucketD [OF co] by (simp add: uploadMultipartOnce_def Let_def d)
qed

end
