(* ===== verification/Sync_Guarantees.thy ===== *)
theory Sync_Guarantees
  imports Sync_Properties Staging_Runs
begin

text \<open>
  The properties of the sync worker: what a sync stores, what a failure keeps, progress over a working
  store, the waits between attempts, and pending deletes. The examples run on a small object store that
  satisfies the contract.
\<close>

section \<open>Progress\<close>

lemma set_manager_id [simp]: "set_manager (gw_manager gw) gw = gw"
  by (simp add: set_manager_def)

lemma with_retry_works:
  assumes "1 \<le> sc_MaxSyncRetries cfg" "try 0 s = (None, s')"
  shows "with_retry cfg env fatal try s = (None, s')"
proof -
  obtain k where "nat (sc_MaxSyncRetries cfg) = Suc k" using assms(1) by (cases "nat (sc_MaxSyncRetries cfg)") auto
  then show ?thesis using assms(2) by (simp add: with_retry_def)
qed

lemma upload_snapshot_works:
  assumes "cos_works c" "quiet env" "1 \<le> sc_MaxSyncRetries (sw_config (gw_worker gw))"
    and "ws_Size (sm_heap (gw_manager gw) sid) = us_Size snap" "ws_LastWrite (sm_heap (gw_manager gw) sid) = us_LastWrite snap"
    and "\<And>m. GetMetadata path (gw_index gw) = Some m \<Longrightarrow> dm_LocalDirtyGeneration m = gen"
  shows "\<exists>gw'. upload_snapshot c env startup off path sid gen snap gw = (None, gw')"
proof -
  let ?md = "snapshot_metadata startup off (sm_heap (gw_manager gw) sid)"
  let ?part = "if us_PartSize snap \<le> 0 then 20 * 1024 * 1024 else us_PartSize snap"
  have q: "\<not> sv_seekFails env 0" "sv_during env = (\<lambda>k n sm. sm)" using assms(2) by (simp_all add: quiet_def)
  show ?thesis
  proof (cases "us_Size snap \<ge> ?part")
    case True
    let ?cur = "isSnapshotCurrent path sid (us_Size snap) (us_LastWrite snap) gen" and ?gw0 = "reset_multipart sid gw"
    have "?cur (gw_manager ?gw0)"
      using assms(4-6) by (auto simp: isSnapshotCurrent_def WriteSession_Snapshot_def reset_multipart_def upd_session_def split: option.splits)
    then obtain gw1 where "uploadMultipartOnce c env 0 path (us_File snap) (us_Size snap) ?part ?md ?cur ?gw0 = (None, gw1)"
      using uploadMultipartOnce_works [OF assms(1,2)] by metis
    then have "uploadMultipartWithRetry c env path (us_File snap) (us_Size snap) ?part ?md ?cur ?gw0 = (None, gw1)"
      unfolding uploadMultipartWithRetry_def by (intro with_retry_works) (use assms(3) q in simp_all)
    then show ?thesis using True by (auto simp: upload_snapshot_def Let_def snapshot_metadata_def)
  next
    case False
    obtain e gw1 where p: "on_bucket (cc_PutObjectStream c path (file_section (gw_manager gw) (us_File snap) 0 (us_Size snap)) ?md) gw = (e, gw1)"
      by fastforce
    have "e = None" using assms(1) on_bucketD [OF p] unfolding cos_works_def by (metis fst_conv)
    then have "uploadWithRetryStream c env path (us_File snap) (us_Size snap) ?md gw = (None, gw1)"
      unfolding uploadWithRetryStream_def by (intro with_retry_works) (use assms(3) q p in \<open>simp_all add: Let_def\<close>)
    then show ?thesis using False by (auto simp: upload_snapshot_def Let_def snapshot_metadata_def)
  qed
qed

lemma remove_name_no_faults: "fst (remove_name no_faults p sm) = None"
  by (auto simp: remove_name_def os_Remove_def ignore_not_exist_def no_faults_def split: prod.splits option.splits)

lemma finish_sync_works:
  assumes "quiet env" "\<And>m. GetMetadata path (gw_index gw) = Some m \<Longrightarrow> dm_LocalDirtyGeneration m = gen"
  shows "\<exists>gw'. finish_sync no_faults env path sid gen since n gw = (None, gw')"
proof -
  have "fst (markCleanIfUnchanged no_faults path gen (sv_after env (gw_manager gw)))"
    using assms by (auto simp: quiet_def markCleanIfUnchanged_def MarkCleanIfUnchanged_def GetMetadata_def Let_def split: option.splits)
  moreover have "snd (fst (cleanupSyncedSession no_faults path sid sm)) = None" for sm
    using remove_name_no_faults by (auto simp: cleanupSyncedSession_def Let_def split: prod.splits) (metis fst_conv)
  then have "cleanupSyncedSession no_faults path sid sm \<noteq> ((b, Some x), sm')" for sm sm' b x
    by (metis fst_conv snd_conv option.distinct(1))
  ultimately show ?thesis
    unfolding finish_sync_def Let_def by (auto split: prod.splits bool.splits option.splits)
qed

lemma sync_works:
  assumes "cos_works c" "quiet env" "1 \<le> sc_MaxSyncRetries (sw_config (gw_worker gw))"
    and "\<not> IsConflicted path (gw_index gw)" "GetSession path (gw_manager gw) = Some sid"
    and "ws_File (sm_heap (gw_manager gw) sid) = Some f"
    and "data_inode (sm_disk (gw_manager gw)) (ws_StagingPath (sm_heap (gw_manager gw) sid)) = Some ino"
  shows "\<exists>gw'. syncFileLocked c no_faults env startup off path gw = (None, gw')"
proof (cases "HasPendingDelete path (gw_manager gw)")
  case True
  then show ?thesis using assms(4) by (simp add: syncFileLocked_def)
next
  case False
  let ?ws = "sm_heap (gw_manager gw) sid"
  define gs where "gs = (case GetMetadata path (gw_index gw) of None \<Rightarrow> (0, sv_now env)
     | Some m \<Rightarrow> (dm_LocalDirtyGeneration m, if is_zero_time (dm_DirtySince m) then sv_now env else dm_DirtySince m))"
  have gen: "GetMetadata path (gw_index gw) = Some m \<Longrightarrow> dm_LocalDirtyGeneration m = fst gs" for m by (auto simp: gs_def)
  have rounds: "sv_rounds env = []" using assms(2) by (simp add: quiet_def)
  obtain snap sm where o': "run_session sid (OpenUploadSnapshot no_faults []) (gw_manager gw) = (Inr snap, sm)"
    using assms(6,7) by (auto simp: run_session_def OpenUploadSnapshot_def no_faults_def split: prod.splits)
  note sn = OpenUploadSnapshot_spec [OF o']
  have "\<exists>gw1. upload_snapshot c env startup off path sid (fst gs) snap (set_manager sm gw) = (None, gw1)"
    by (rule upload_snapshot_works [OF assms(1,2)]) (use assms(3) sn gen in simp_all)
  then obtain gw1 where u: "upload_snapshot c env startup off path sid (fst gs) snap (set_manager sm gw) = (None, gw1)" ..
  have i1: "gw_index gw1 = gw_index gw"
    using upload_snapshot_index [of env c startup off path sid "fst gs" snap "set_manager sm gw"] quiet_kept [OF assms(2)] u sn by simp
  obtain gw2 where f: "finish_sync no_faults env path sid (fst gs) (snd gs) (us_Size snap) gw1 = (None, gw2)"
    using finish_sync_works [OF assms(2), of path gw1 "fst gs"] gen i1 by metis
  have "sync_session c no_faults env startup off path sid gw = (None, close_upload sid snap gw2)"
    unfolding sync_session_def gs_def [symmetric] rounds o' Let_def using u f by (cases gs) simp
  then show ?thesis using assms(4,5) False by (simp add: syncFileLocked_def)
qed

text \<open>The adapter adds its defaults under the metadata it is given.\<close>

lemma adapter_ok:
  assumes "put_ok (\<lambda>m. m) c obj" "multipart_ok (\<lambda>m. m) c obj up"
  shows "put_ok (adapter_metadata startup off now) (COSClientAdapter startup off now c) obj"
    and "multipart_ok (adapter_metadata startup off now) (COSClientAdapter startup off now c) obj up"
  using assms by (simp_all add: put_ok_def multipart_ok_def COSClientAdapter_def)

lemma adapter_works: "cos_works c \<Longrightarrow> cos_works (COSClientAdapter startup off now c)"
  by (simp add: cos_works_def COSClientAdapter_def)

lemma gm_get_foldl_set:
  "gm_wf m \<Longrightarrow> gm_get (foldl (\<lambda>a (k, v). gm_set k v a) m0 m) k = (case gm_get m k of None \<Rightarrow> gm_get m0 k | Some v \<Rightarrow> Some v)"
  by (induction m arbitrary: m0) (auto simp: gm_wf_def gm_get_notin split: option.splits)

lemma adapter_keeps: "gm_wf md \<Longrightarrow> gm_get md k = Some v \<Longrightarrow> gm_get (adapter_metadata startup off now md) k = Some v"
  by (simp add: adapter_metadata_def Let_def gm_get_foldl_set)

lemma sync_file_stores:
  assumes "put_ok h c obj" "multipart_ok h c obj up"
    and "syncFileLocked c fl env startup off path gw = (None, gw')"
    and "\<not> HasPendingDelete path (gw_manager gw)" "GetSession path (gw_manager gw) = Some sid"
    and "data_inode (sm_disk (gw_manager gw)) (ws_StagingPath (sm_heap (gw_manager gw) sid)) = Some ino"
    and "file_kept env ino" "sv_rounds env = []"
  shows "obj (gw_bucket gw') path =
      Some (take (nat (ws_Size (sm_heap (gw_manager gw) sid))) (dk_inodes (sm_disk (gw_manager gw)) ino),
        h (snapshot_metadata startup off (sm_heap (gw_manager gw) sid))) \<and> \<not> IsDirty path (gw_index gw')"
proof -
  have "\<not> IsConflicted path (gw_index gw)" using assms(5) by (auto simp: GetSession_def split: if_splits)
  then have "sync_session c fl env startup off path sid gw = (None, gw')"
    using assms(3-5) by (simp add: syncFileLocked_def)
  from sync_session_spec [OF assms(1,2,8,7,6) this] show ?thesis by (simp add: gw_file_def)
qed

lemma process_dirty_works:
  assumes "put_ok h c obj" "multipart_ok h c obj up" "cos_works c" "quiet (env path)"
    and "1 \<le> sc_MaxSyncRetries (sw_config (gw_worker gw))"
    and "GetMetadata path (gw_index gw) = Some m" "dm_Path m = path" "\<not> IsSyncing path (gw_index gw)"
    and "\<not> HasPendingDelete path (gw_manager gw)" "GetSession path (gw_manager gw) = Some sid"
    and "ws_File (sm_heap (gw_manager gw) sid) = Some f"
    and "data_inode (sm_disk (gw_manager gw)) (ws_StagingPath (sm_heap (gw_manager gw) sid)) = Some ino"
    and "shouldSync (sv_now (env path)) (sw_config (gw_worker gw)) m (gw_manager gw)"
  shows "\<exists>gw'. process_dirty c no_faults env startup off m gw = gw' \<and> \<not> IsDirty path (gw_index gw') \<and>
    \<not> IsSyncing path (gw_index gw') \<and>
    obj (gw_bucket gw') path =
      Some (take (nat (ws_Size (sm_heap (gw_manager gw) sid))) (dk_inodes (sm_disk (gw_manager gw)) ino),
        h (snapshot_metadata startup off (sm_heap (gw_manager gw) sid)))"
proof -
  let ?di = "(gw_index gw)\<lparr>di_syncing := gm_set path True (di_syncing (gw_index gw))\<rparr>"
  let ?sm = "(gw_manager gw)\<lparr>sm_dirtyIndex := ?di\<rparr>"
  let ?gw = "upd_worker (lockObject path) (set_manager ?sm gw)"
  have conf: "\<not> IsConflicted path (gw_index gw)" using assms(10) by (auto simp: GetSession_def split: if_splits)
  have lock: "TryLockSync path (gw_manager gw) = (True, ?sm)"
    using assms(8) by (simp add: TryLockSync_def LockFile_def IsSyncing_def)
  have same: "IsConflicted path ?di \<longleftrightarrow> IsConflicted path (gw_index gw)" "IsDirty path ?di"
    "GetSession path ?sm = GetSession path (gw_manager gw)" "HasPendingDelete path ?sm = HasPendingDelete path (gw_manager gw)"
    using assms(6) by (auto simp: IsConflicted_def GetSession_def IsDirty_def GetMetadata_def gm_has_def sessionAt_def HasPendingDelete_def)
  have "\<exists>gw'. syncFileLocked c no_faults (env path) startup off path ?gw = (None, gw')"
    by (rule sync_works [OF assms(3,4)]) (use assms(5,10-12) conf same in simp_all)
  then obtain gw1 where g: "syncFileLocked c no_faults (env path) startup off path ?gw = (None, gw1)" ..
  have st: "obj (gw_bucket gw1) path =
      Some (take (nat (ws_Size (sm_heap (gw_manager gw) sid))) (dk_inodes (sm_disk (gw_manager gw)) ino),
        h (snapshot_metadata startup off (sm_heap (gw_manager gw) sid))) \<and> \<not> IsDirty path (gw_index gw1)"
    using sync_file_stores [OF assms(1,2) g, of sid ino] quiet_kept [OF assms(4), of ino] assms(4,9,10,12) same
    by (simp add: quiet_def)
  have "process_dirty c no_faults env startup off m gw =
      set_manager (UnlockSync path (gw_manager (upd_worker (unlockObject path) gw1))) (upd_worker (unlockObject path) gw1)"
    using assms(7,13) conf lock same(2) g by (simp add: process_dirty_def Let_def syncFileWithWorker_def)
  then show ?thesis
    using st by (auto simp: UnlockSync_def upd_index_def UnlockFile_def IsDirty_def IsSyncing_def)
qed

section \<open>Pending deletes\<close>

lemma discard_tombstones:
  "sm_tombstones (snd (discardDeletedStaging fl path sm)) = sm_tombstones sm"
  by (auto simp: discardDeletedStaging_def removeSessionLocked_def dropDirtyEntry_def removePathMetadata_def closeRemovedSession_def
      upd_session_def upd_index_def Let_def remove_name_def split: option.splits prod.splits)

lemma Resolve_tombstones:
  "q \<noteq> path \<Longrightarrow> gm_get (sm_tombstones (ResolvePendingDelete fl path sm)) q = gm_get (sm_tombstones sm) q"
  by (auto simp: ResolvePendingDelete_def remove_name_def split: option.splits prod.splits)

lemma sync_lock_tombstones [simp]:
  "sm_tombstones (UnlockSync path sm) = sm_tombstones sm" "sm_tombstones (snd (TryLockSync path sm)) = sm_tombstones sm"
  by (auto simp: UnlockSync_def upd_index_def TryLockSync_def split: prod.splits)

lemma process_delete_spec:
  assumes "delete_ok c obj"
  shows "(\<forall>q. q \<noteq> ts_Path t \<longrightarrow>
      gm_get (sm_tombstones (gw_manager (process_delete c fl t gw))) q = gm_get (sm_tombstones (gw_manager gw)) q) \<and>
    (gm_get (sm_tombstones (gw_manager (process_delete c fl t gw))) (ts_Path t) = gm_get (sm_tombstones (gw_manager gw)) (ts_Path t) \<or>
     obj (gw_bucket (process_delete c fl t gw)) (ts_ObjectKey t) = None) \<and>
    (\<forall>k. obj (gw_bucket gw) k = None \<longrightarrow> obj (gw_bucket (process_delete c fl t gw)) k = None)"
proof -
  let ?p = "ts_Path t"
  obtain got sm where l: "TryLockSync ?p (gw_manager gw) = (got, sm)" by fastforce
  have sm: "sm_tombstones sm = sm_tombstones (gw_manager gw)" using sync_lock_tombstones(2) [of ?p "gw_manager gw"] l by simp
  obtain still err sm1 where d: "discardDeletedStaging fl ?p sm = ((still, err), sm1)" by (metis surj_pair)
  have sm1: "sm_tombstones sm1 = sm_tombstones (gw_manager gw)" using discard_tombstones [of fl ?p sm] d sm by simp
  obtain e gw1 where b: "on_bucket (cc_DeleteObject c (ts_ObjectKey t)) (set_manager sm1 gw) = (e, gw1)" by fastforce
  note b' = on_bucketD [OF b]
  have o': "obj (gw_bucket gw1) = (obj (gw_bucket gw))(ts_ObjectKey t := None) \<or> e \<noteq> None \<and> obj (gw_bucket gw1) = obj (gw_bucket gw)"
    using assms b' unfolding delete_ok_def by simp
  show ?thesis
    using sm sm1 b' o' Resolve_tombstones [of _ ?p fl sm1]
    by (auto simp: process_delete_def Let_def l d b split: bool.splits option.splits)
qed

lemma process_deletes_spec:
  assumes "delete_ok c obj"
  shows "(gm_get (sm_tombstones (gw_manager (fold (process_delete c fl) ts gw))) p = gm_get (sm_tombstones (gw_manager gw)) p \<or>
      (\<exists>t \<in> set ts. ts_Path t = p \<and> obj (gw_bucket (fold (process_delete c fl) ts gw)) (ts_ObjectKey t) = None)) \<and>
    (\<forall>k. obj (gw_bucket gw) k = None \<longrightarrow> obj (gw_bucket (fold (process_delete c fl) ts gw)) k = None)"
proof (induction ts arbitrary: gw)
  case (Cons t ts)
  show ?case
    using process_delete_spec [OF assms, of t fl gw] Cons [of "process_delete c fl t gw"] by (cases "ts_Path t = p") auto
qed simp

section \<open>A sample store and a sample file\<close>

type_synonym sample_bucket =
  "(string \<Rightarrow> (bytes \<times> metadata) option) \<times> (string \<Rightarrow> (string \<times> metadata \<times> (int \<Rightarrow> (string \<times> bytes) option)) option)"

definition sample_objects :: "sample_bucket objects" where
  "sample_objects b = fst b"

definition sample_uploads :: "sample_bucket uploads" where
  "sample_uploads b = snd b"

definition sample_client :: "sample_bucket COSClient" where
  "sample_client =
     \<lparr>cc_PutObject = (\<lambda>key body md (o', u). (None, (o'(key \<mapsto> (body, md)), u))),
      cc_PutObjectStream = (\<lambda>key body md (o', u). (None, (o'(key \<mapsto> (body, md)), u))),
      cc_CreateMultipartUpload = (\<lambda>key md (o', u). (Inr ''u'', (o', u(''u'' \<mapsto> (key, md, Map.empty))))),
      cc_UploadPart = (\<lambda>key uid n body (o', u). (Inr ''e'',
        (o', case u uid of None \<Rightarrow> u | Some (k, md, ps) \<Rightarrow> u(uid \<mapsto> (k, md, ps(n \<mapsto> (''e'', body))))))),
      cc_CompleteMultipartUpload = (\<lambda>key uid parts (o', u). (None,
        (case u uid of None \<Rightarrow> o' | Some (k, md, ps) \<Rightarrow> o'(key \<mapsto> (concat (map (\<lambda>(n, _). snd (the (ps n))) parts), md)), u))),
      cc_AbortMultipartUpload = (\<lambda>key uid (o', u). (None, (o', u(uid := None)))),
      cc_DeleteObject = (\<lambda>key (o', u). (None, (o'(key := None), u)))\<rparr>"

lemma sample_client_ok:
  "put_ok (\<lambda>m. m) sample_client sample_objects" "multipart_ok (\<lambda>m. m) sample_client sample_objects sample_uploads"
  "delete_ok sample_client sample_objects" "cos_works sample_client"
  by (auto simp: put_ok_def multipart_ok_def delete_ok_def cos_works_def sample_client_def sample_objects_def sample_uploads_def)

definition sample_env :: sync_env where
  "sample_env = \<lparr>sv_now = 100 * second, sv_done = 101 * second, sv_stopped = (\<lambda>_ _. False), sv_seekFails = (\<lambda>_. False),
     sv_during = (\<lambda>_ _ sm. sm), sv_took = (\<lambda>_ _. 1), sv_rounds = [], sv_after = (\<lambda>sm. sm)\<rparr>"

lemma sample_quiet: "quiet sample_env"
  by (simp add: quiet_def sample_env_def)

definition sample_meta :: DirtyFileMetadata where
  "sample_meta = zero_dirty\<lparr>dm_Path := ''/a'', dm_Size := 3, dm_DirtySince := second, dm_LastModified := second,
     dm_LocalDirtyGeneration := 1, dm_recorded := True\<rparr>"

definition sample_session :: WriteSession where
  "sample_session = \<lparr>ws_Manager = True, ws_Path = ''/a'', ws_StagingPath = ''/s/a.data'', ws_File = Some 0, ws_Size = 3,
     ws_Dirty = True, ws_Prefetched = False, ws_RefCount = 0, ws_LastWrite = second, ws_LastAccess = second,
     ws_CreatedAt = second, ws_Multipart = NewS3MultipartState 20, ws_Mode = 384, ws_UID = 1000, ws_GID = 1000,
     ws_btime = 0, ws_windowsAttributes = 0, ws_streams = [], ws_atime = 0, ws_mtime = 0, ws_attributesSet = False,
     ws_written = True, ws_uploadReaders = 0, ws_fileGeneration = 0, ws_metadataVersion = 1, ws_committedMetadataVersion = 0\<rparr>"

definition sample_gateway :: "sample_bucket gateway" where
  "sample_gateway =
     \<lparr>gw_manager = sample_start\<lparr>sm_sessions := [(''/a'', 0)], sm_heap := (\<lambda>_. sample_session), sm_nextSession := 1,
        sm_dirtyIndex := NewDirtyFileIndex\<lparr>di_dirty := [(''/a'', sample_meta)], di_generation := 1\<rparr>,
        sm_disk := \<lparr>dk_names = [(''/s/a.data'', DataFile 0)], dk_inodes = (\<lambda>_. [1, 2, 3]), dk_mtime = (\<lambda>_. 0), dk_next = 1\<rparr>\<rparr>,
      gw_worker = NewSyncWorker sample_config, gw_bucket = (Map.empty, Map.empty)\<rparr>"

lemma sample_gateway_facts:
  "\<not> HasPendingDelete ''/a'' (gw_manager sample_gateway)" "GetSession ''/a'' (gw_manager sample_gateway) = Some 0"
  "sm_heap (gw_manager sample_gateway) 0 = sample_session" "ws_File sample_session = Some 0" "ws_Size sample_session = 3"
  "ws_StagingPath sample_session = ''/s/a.data''" "ws_LastWrite sample_session = second"
  "data_inode (sm_disk (gw_manager sample_gateway)) ''/s/a.data'' = Some 0"
  "dk_inodes (sm_disk (gw_manager sample_gateway)) 0 = [1, 2, 3]"
  "GetMetadata ''/a'' (gw_index sample_gateway) = Some sample_meta" "\<not> IsSyncing ''/a'' (gw_index sample_gateway)"
  "sw_config (gw_worker sample_gateway) = sample_config" "\<not> IsConflicted ''/a'' (gw_index sample_gateway)"
  "sc_MaxSyncRetries sample_config = 3" "or_zero (GetMaxDirtyAge sample_config) = minute"
  by (simp_all add: sample_gateway_def sample_start_def fresh_manager_def sample_session_def HasPendingDelete_def GetSession_def
      sessionAt_def gm_has_def data_inode_def os_lookup_def GetMetadata_def IsConflicted_def NewDirtyFileIndex_def IsSyncing_def gm_or_def
      NewSyncWorker_def sample_config_def normalizeBackpressureConfig_def GetMaxDirtyAge_def parsed_duration_def or_zero_def Let_def)

lemma sample_synced: "\<exists>gw'. syncFileLocked (COSClientAdapter 0 (\<lambda>_. 0) 9 sample_client) no_faults sample_env 0 (\<lambda>_. 0) ''/a'' sample_gateway = (None, gw')"
  by (rule sync_works [where f = 0 and ino = 0 and sid = 0, OF adapter_works [OF sample_client_ok(4)] sample_quiet]) (simp_all add: sample_gateway_facts)

definition sample_tombstone :: TombstoneState where
  "sample_tombstone = \<lparr>ts_Version = 1, ts_Path = ''/a'', ts_ObjectKey = ''a'', ts_CreatedAt = 0\<rparr>"

definition sample_deleting :: "sample_bucket gateway" where
  "sample_deleting =
     \<lparr>gw_manager = sample_start\<lparr>sm_tombstones := [(''/a'', sample_tombstone)]\<rparr>, gw_worker = NewSyncWorker sample_config,
      gw_bucket = ([''a'' \<mapsto> ([1], [])], Map.empty)\<rparr>"

lemma sample_delete_done: "\<not> HasPendingDelete ''/a'' (gw_manager (processPendingDeletes sample_client no_faults sample_deleting))"
  by code_simp

section \<open>Properties\<close>



text \<open>
  C9: A sync that fails at any point before the file is marked clean leaves every dirty entry as it was,
  so the file is uploaded again later.
\<close>

theorem sync_failure_keeps_dirty:
  assumes "syncFileLocked c fl env startup off path gw = (Some e, gw')" "index_kept env" "\<forall>x. e \<noteq> CleanupFailed x"
  shows "gw_index gw' = gw_index gw"
proof -
  have i: "sm_dirtyIndex sm = gw_index gw" if "RecoverSessionFromStaging fl (sv_now env) path (gw_manager gw) = (r, sm)" for r sm
    using Recover_index [of fl "sv_now env" path "gw_manager gw"] that by simp
  have ss: "gw_index gw' = gw_index g" if "sync_session c fl env startup off path sid g = (Some e, gw')" for sid g
    using sync_session_failed [OF assms(2) that] assms(3) by blast
  show ?thesis
    using assms(1) i ss
    by (auto simp: syncFileLocked_def split: if_splits option.splits sum.splits prod.splits)
qed

theorem sync_failure_keeps_dirty_witness:
  "gw_index (snd (syncFileLocked sample_client (\<lambda>_ _. True) sample_env 0 (\<lambda>_. 0) ''/a'' sample_gateway)) = gw_index sample_gateway \<and>
   fst (syncFileLocked sample_client (\<lambda>_ _. True) sample_env 0 (\<lambda>_. 0) ''/a'' sample_gateway) \<noteq> None"
proof -
  obtain e gw' where r: "syncFileLocked sample_client (\<lambda>_ _. True) sample_env 0 (\<lambda>_. 0) ''/a'' sample_gateway = (Some (OpenFailed e), gw')"
    using sample_gateway_facts
    by (auto simp: syncFileLocked_def sync_session_def run_session_def OpenUploadSnapshot_def sample_env_def Let_def
        split: prod.splits)
  then show ?thesis
    using sync_failure_keeps_dirty [OF r] quiet_kept [OF sample_quiet] by simp
qed





text \<open>
  C33: The claim on a path does not last while the worker deletes its object: discarding the staged data
  of a pending delete releases it, so another worker can claim the path, and upload a file created there
  again, while the delete request is in flight.
\<close>

theorem pending_delete_gives_up_claim:
  assumes "HasPendingDelete path sm" "TryLockSync path sm = (True, sm1)" "discardDeletedStaging fl path sm1 = (r, sm2)"
  shows "IsSyncing path (sm_dirtyIndex sm1) \<and> \<not> IsSyncing path (sm_dirtyIndex sm2) \<and> fst (TryLockSync path sm2)"
proof -
  have "HasPendingDelete path sm1" using assms(1) sync_lock_tombstones(2) [of path sm] assms(2) by (simp add: HasPendingDelete_def)
  moreover have "gm_get (di_syncing (sm_dirtyIndex (dropDirtyEntry fl path sm1))) path = None"
    by (auto simp: dropDirtyEntry_def removePathMetadata_def remove_name_def upd_index_def DirtyFileIndex_MarkClean_def split: prod.splits)
  moreover have "gm_get (di_syncing (sm_dirtyIndex (snd (removeSessionLocked fl path True s)))) path = None"
    if "gm_get (di_syncing (sm_dirtyIndex s)) path = None" for s
    using that
    by (auto simp: removeSessionLocked_def Let_def remove_name_def dropDirtyEntry_def removePathMetadata_def upd_index_def
        DirtyFileIndex_MarkClean_def split: option.splits prod.splits)
  ultimately have "gm_get (di_syncing (sm_dirtyIndex sm2)) path = None"
    using assms(3)
    by (auto simp: discardDeletedStaging_def closeRemovedSession_def upd_session_def split: prod.splits option.splits) (metis snd_conv)+
  then have "\<not> IsSyncing path (sm_dirtyIndex sm2)" by (simp add: IsSyncing_def gm_or_def)
  moreover have "IsSyncing path (sm_dirtyIndex sm1)"
    using assms(2) by (auto simp: TryLockSync_def LockFile_def IsSyncing_def gm_or_def split: if_splits)
  ultimately show ?thesis by (simp add: TryLockSync_def LockFile_def IsSyncing_def)
qed

theorem pending_delete_gives_up_claim_witness:
  "\<exists>sm1 r sm2. TryLockSync ''/a'' (gw_manager sample_deleting) = (True, sm1) \<and> discardDeletedStaging no_faults ''/a'' sm1 = (r, sm2) \<and>
     fst (TryLockSync ''/a'' sm2)"
proof -
  obtain sm1 where l: "TryLockSync ''/a'' (gw_manager sample_deleting) = (True, sm1)"
    by (auto simp: sample_deleting_def sample_start_def fresh_manager_def TryLockSync_def LockFile_def NewDirtyFileIndex_def gm_or_def)
  have "HasPendingDelete ''/a'' (gw_manager sample_deleting)" by (simp add: sample_deleting_def HasPendingDelete_def gm_has_def)
  from pending_delete_gives_up_claim [OF this l] l show ?thesis by (metis surj_pair)
qed

text \<open>
  C34: The wait before a retry doubles from the initial backoff up to the maximum as long as the product fits
  in 64 bits; it then wraps around, and from the 65th retry on the worker does not wait at all.
\<close>

theorem retry_backoff_wraps:
  assumes "0 \<le> or_zero (GetRetryBackoffInitial cfg)" "0 \<le> or_zero (GetRetryBackoffMax cfg)"
  shows "(or_zero (GetRetryBackoffInitial cfg) * 2 ^ n < 2 ^ 63 \<longrightarrow>
      retry_backoff cfg (Suc n) = min (or_zero (GetRetryBackoffInitial cfg) * 2 ^ n) (or_zero (GetRetryBackoffMax cfg))) \<and>
    (64 \<le> n \<longrightarrow> retry_backoff cfg (Suc n) = 0)"
proof -
  let ?i = "or_zero (GetRetryBackoffInitial cfg)"
  have p: "(push_bit n 1 :: 64 word) = word_of_int (2 ^ n)" by (simp add: push_bit_eq_mult)
  have "sint ((word_of_int ?i :: 64 word) * push_bit n 1) = ?i * 2 ^ n" if "?i * 2 ^ n < 2 ^ 63"
  proof -
    have "(word_of_int ?i :: 64 word) * push_bit n 1 = word_of_int (?i * 2 ^ n)" unfolding p by simp
    moreover have "0 \<le> ?i * 2 ^ n" using assms(1) by simp
    ultimately show ?thesis using that 
      by (simp only: sint_sbintrunc') (simp add: signed_take_bit_int_eq_self)
  qed
  moreover have "sint ((word_of_int ?i :: 64 word) * push_bit n 1) = 0" if "64 \<le> n"
  proof -
    have "(push_bit n 1 :: 64 word) = 0" using that by (intro bit_word_eqI) (simp add: bit_exp_iff)
    then show ?thesis by (simp only: mult_zero_right sint_0)
  qed
  ultimately show ?thesis using assms(2) by (auto simp: retry_backoff_def Let_def min_def simp del: push_bit_of_1)
qed

theorem retry_backoff_wraps_witness:
  "retry_backoff sample_config 3 = 4 * second \<and> retry_backoff sample_config 65 = 0 \<and> retry_backoff sample_config 35 < 0"
proof -
  have i: "or_zero (GetRetryBackoffInitial sample_config) = second" "or_zero (GetRetryBackoffMax sample_config) = minute"
    by (simp_all add: sample_config_def normalizeBackpressureConfig_def GetRetryBackoffInitial_def GetRetryBackoffMax_def
        parsed_duration_def or_zero_def Let_def)
  then have "retry_backoff sample_config 35 < 0" by (simp add: retry_backoff_def Let_def push_bit_eq_mult)
  then show ?thesis
    using retry_backoff_wraps [of sample_config 2] retry_backoff_wraps [of sample_config 64] i by (simp add: numeral_3_eq_3)
qed

end
