(* ===== verification/Spec2Isabelle.thy ===== *)
theory Spec2Isabelle
  imports Lock_Table Sync_Protocol Rename_Properties Streams_Codec Posix_Attributes Share_Table Lock_Protocols Listing_Fence Windows_Names Sync_Worker Sync_Properties Sync_Guarantees
begin

text \<open>
  Verification of the Bluestone gateway, which serves a bucket of IBM Cloud Object Storage as a file
  system over NFS and SMB. This header is completed with the development.
\<close>

end
